(* ===== verification/Prelude.thy ===== *)
theory Prelude
  imports Complex_Main "HOL-Library.AList"
begin

text \<open>
  Shared vocabulary of the development. The Python programs under src/python pass JSON
  values, configuration values and keyword dictionaries around; this theory gives them one
  type of values, the dictionary operations the code uses, Python's notion of truth, and
  exceptions as values. It also holds the named collections of simplification rules.

  Dictionaries are association lists with distinct keys, in insertion order, as in the
  language since version 3.7: storing under an old key keeps its position, storing under a
  new key appends. Floating point numbers are exact rationals; rounding is not modelled.
  Strings are lists of characters of the ASCII range.
\<close>

section \<open>Collections\<close>

named_theorems dict_simps \<open>reading a dictionary after an operation on it\<close>
named_theorems frame_simps \<open>fields an operation leaves alone\<close>
named_theorems step_defs \<open>definitions of the operations of a component\<close>

section \<open>Exceptions\<close>

text \<open>
  The exceptions the modelled code raises or catches. A computation that can raise
  returns \<open>Inl\<close> of the exception or \<open>Inr\<close> of its value.
\<close>

datatype pyexn =
    TypeError
  | AttributeError
  | KeyError string
  | ValueError
  | IndexError
  | ZeroDivisionError
  | IOError string
  | UserException string

type_synonym 'a res = "pyexn + 'a"

definition res_bind :: "'a res \<Rightarrow> ('a \<Rightarrow> 'b res) \<Rightarrow> 'b res" where
  "res_bind r f = (case r of Inl e \<Rightarrow> Inl e | Inr x \<Rightarrow> f x)"

lemma res_bind_simps [simp]:
  "res_bind (Inl e) f = Inl e"
  "res_bind (Inr x) f = f x"
  by (simp_all add: res_bind_def)

lemma res_bind_Inr_conv:
  "res_bind r f = Inr y \<longleftrightarrow> (\<exists>x. r = Inr x \<and> f x = Inr y)"
  by (cases r) auto

lemma res_bind_assoc: "res_bind (res_bind r f) g = res_bind r (\<lambda>x. res_bind (f x) g)"
  by (cases r) auto

text \<open>Running a fallible function over a list stops at the first exception.\<close>

fun res_map :: "('a \<Rightarrow> 'b res) \<Rightarrow> 'a list \<Rightarrow> 'b list res" where
  "res_map f [] = Inr []"
| "res_map f (x # xs) = res_bind (f x) (\<lambda>y. res_bind (res_map f xs) (\<lambda>ys. Inr (y # ys)))"

lemma res_map_Inr: "res_map f xs = Inr ys \<Longrightarrow> list_all2 (\<lambda>x y. f x = Inr y) xs ys"
  by (induction xs arbitrary: ys) (auto simp: res_bind_Inr_conv)

text \<open>Taking apart the result of a computation.\<close>

lemma triple_eqI: "fst p = x \<Longrightarrow> p = (x, fst (snd p), snd (snd p))"
  by (cases p) auto

section \<open>Dictionaries\<close>

type_synonym 'v dict = "(string \<times> 'v) list"

definition dget :: "('k \<times> 'v) list \<Rightarrow> 'k \<Rightarrow> 'v option" where
  "dget d k = map_of d k"

definition dget_or :: "('k \<times> 'v) list \<Rightarrow> 'k \<Rightarrow> 'v \<Rightarrow> 'v" where
  "dget_or d k x = (case map_of d k of None \<Rightarrow> x | Some v \<Rightarrow> v)"

definition dhas :: "('k \<times> 'v) list \<Rightarrow> 'k \<Rightarrow> bool" where
  "dhas d k \<longleftrightarrow> map_of d k \<noteq> None"

definition dset :: "('k \<times> 'v) list \<Rightarrow> 'k \<Rightarrow> 'v \<Rightarrow> ('k \<times> 'v) list" where
  "dset d k v = AList.update k v d"

definition dpop :: "('k \<times> 'v) list \<Rightarrow> 'k \<Rightarrow> ('k \<times> 'v) list" where
  "dpop d k = AList.delete k d"

definition dkeys :: "('k \<times> 'v) list \<Rightarrow> 'k list" where
  "dkeys d = map fst d"

definition dwf :: "('k \<times> 'v) list \<Rightarrow> bool" where
  "dwf d \<longleftrightarrow> distinct (map fst d)"

fun dupdate :: "('k \<times> 'v) list \<Rightarrow> ('k \<times> 'v) list \<Rightarrow> ('k \<times> 'v) list" where
  "dupdate d [] = d"
| "dupdate d ((k, v) # kvs) = dupdate (dset d k v) kvs"

lemma dget_dset [dict_simps]: "dget (dset d k v) k' = (if k' = k then Some v else dget d k')"
  by (simp add: dget_def dset_def update_conv')

lemma dget_dpop [dict_simps]: "dget (dpop d k) k' = (if k' = k then None else dget d k')"
  by (simp add: dget_def dpop_def delete_conv')

lemma dget_or_conv [dict_simps]: "dget_or d k x = (case dget d k of None \<Rightarrow> x | Some v \<Rightarrow> v)"
  by (simp add: dget_or_def dget_def)

lemma dhas_conv [dict_simps]: "dhas d k \<longleftrightarrow> dget d k \<noteq> None"
  by (simp add: dhas_def dget_def)

lemma dget_Nil [simp]: "dget [] k = None"
  by (simp add: dget_def)

lemma dget_Cons [simp]: "dget ((k, v) # d) k' = (if k = k' then Some v else dget d k')"
  by (simp add: dget_def)

lemma dkeys_set: "set (dkeys d) = {k. dget d k \<noteq> None}"
  by (auto simp: dkeys_def dget_def map_of_eq_None_iff)

lemma dget_None_iff: "dget d k = None \<longleftrightarrow> k \<notin> set (dkeys d)"
  by (simp add: dkeys_def dget_def map_of_eq_None_iff)

lemma dget_SomeD: "dget d k = Some v \<Longrightarrow> (k, v) \<in> set d"
  by (simp add: dget_def map_of_SomeD)

lemma dget_in_wf: "dwf d \<Longrightarrow> (k, v) \<in> set d \<Longrightarrow> dget d k = Some v"
  by (simp add: dget_def dwf_def)

lemma dset_keys: "set (dkeys (dset d k v)) = insert k (set (dkeys d))"
  by (auto simp: dkeys_set dict_simps)

lemma dpop_keys: "set (dkeys (dpop d k)) = set (dkeys d) - {k}"
  by (auto simp: dkeys_set dict_simps)

lemma dwf_Nil [simp, intro]: "dwf []"
  by (simp add: dwf_def)

lemma dwf_dset [simp, intro]: "dwf d \<Longrightarrow> dwf (dset d k v)"
  by (simp add: dwf_def dset_def distinct_update)

lemma dwf_dpop [simp, intro]: "dwf d \<Longrightarrow> dwf (dpop d k)"
  by (simp add: dwf_def dpop_def distinct_delete)

lemma dwf_dupdate [simp, intro]: "dwf d \<Longrightarrow> dwf (dupdate d kvs)"
  by (induction d kvs rule: dupdate.induct) auto

lemma dget_dupdate: "dget (dupdate d kvs) k = (case map_of (rev kvs) k of None \<Rightarrow> dget d k | Some v \<Rightarrow> Some v)"
  by (induction d kvs rule: dupdate.induct) (auto simp: dict_simps map_add_def split: option.splits)

lemma dkeys_dset_old: "k \<in> set (dkeys d) \<Longrightarrow> dkeys (dset d k v) = dkeys d"
  by (simp add: dkeys_def dset_def update_keys)

lemma dkeys_dset_new: "k \<notin> set (dkeys d) \<Longrightarrow> dkeys (dset d k v) = dkeys d @ [k]"
  by (simp add: dkeys_def dset_def update_keys)

lemma dset_fresh: "k \<notin> fst ` set d \<Longrightarrow> dset d k v = d @ [(k, v)]"
  by (induction d) (auto simp: dset_def)

lemma set_dset_subset: "set (dset d k v) \<subseteq> insert (k, v) (set d)"
proof (induction d)
  case Nil
  then show ?case by (simp add: dset_def)
next
  case (Cons x d)
  then show ?case by (cases x) (auto simp: dset_def)
qed

lemma dset_same: "dget d k = Some v \<Longrightarrow> dset d k v = d"
  by (simp add: dget_def dset_def update_triv)

lemma dget_all_None:
  assumes "\<And>k. dget d k = None"
  shows "d = []"
proof (cases d)
  case (Cons kv d')
  with assms[of "fst kv"] show ?thesis by (cases kv) simp
qed

lemma distinct_single: "distinct xs \<Longrightarrow> set xs = {x} \<Longrightarrow> xs = [x]"
proof (cases xs)
  case (Cons y ys)
  assume "distinct xs" "set xs = {x}"
  with Cons have y: "y = x" "set ys \<subseteq> {x}" "x \<notin> set ys" by auto
  then have "ys = []" by (cases ys) auto
  with Cons y show ?thesis by simp
qed simp

section \<open>Values\<close>

datatype pyval =
    PNone
  | PBool bool
  | PInt int
  | PFloat rat
  | PStr string
  | PList "pyval list"
  | PDict "(string \<times> pyval) list"

text \<open>\<open>x.__class__ == {}.__class__\<close> and \<open>isinstance(x, dict)\<close>.\<close>

fun is_dict :: "pyval \<Rightarrow> bool" where
  "is_dict (PDict d) = True"
| "is_dict _ = False"

text \<open>Truth of a value, as \<open>if x:\<close> sees it.\<close>

fun truthy :: "pyval \<Rightarrow> bool" where
  "truthy PNone = False"
| "truthy (PBool b) = b"
| "truthy (PInt i) = (i \<noteq> 0)"
| "truthy (PFloat q) = (q \<noteq> 0)"
| "truthy (PStr s) = (s \<noteq> [])"
| "truthy (PList xs) = (xs \<noteq> [])"
| "truthy (PDict d) = (d \<noteq> [])"

text \<open>The numeric reading of a value: booleans count as 0 and 1.\<close>

fun num_of :: "pyval \<Rightarrow> rat option" where
  "num_of (PBool b) = Some (if b then 1 else 0)"
| "num_of (PInt i) = Some (of_int i)"
| "num_of (PFloat q) = Some q"
| "num_of _ = None"

text \<open>\<open>x == n\<close> for a number \<open>n\<close>: never an exception, False for values that are no numbers.\<close>

definition eq_num :: "pyval \<Rightarrow> rat \<Rightarrow> bool" where
  "eq_num v q \<longleftrightarrow> num_of v = Some q"

text \<open>Reading a key of a value: only dictionaries have \<open>.get\<close>.\<close>

fun pget :: "pyval \<Rightarrow> string \<Rightarrow> pyval option" where
  "pget (PDict d) k = dget d k"
| "pget _ k = None"

definition pget_or :: "pyval \<Rightarrow> string \<Rightarrow> pyval \<Rightarrow> pyval" where
  "pget_or v k x = (case pget v k of None \<Rightarrow> x | Some y \<Rightarrow> y)"

lemma pget_or_simps [simp]:
  "pget_or (PDict d) k x = (case dget d k of None \<Rightarrow> x | Some y \<Rightarrow> y)"
  by (simp add: pget_or_def)

definition msg_error :: "string \<Rightarrow> int \<Rightarrow> pyval" where
  "msg_error m c = PDict [(''error'', PDict [(''message'', PStr m), (''code'', PInt c)])]"

lemma pget_msg_error [simp]:
  "pget (msg_error m c) k = (if k = ''error'' then Some (PDict [(''message'', PStr m), (''code'', PInt c)]) else None)"
  by (auto simp: msg_error_def)

lemma is_dict_conv: "is_dict v \<longleftrightarrow> (\<exists>d. v = PDict d)"
  by (cases v) auto

section \<open>Decimal numerals\<close>

text \<open>
  \<open>int(s)\<close> on a string: blanks around the numeral are ignored, one sign is allowed, and
  single underscores may stand between digits; anything else raises ValueError.
\<close>

definition is_digit :: "char \<Rightarrow> bool" where
  "is_digit c \<longleftrightarrow> 48 \<le> (of_char c :: nat) \<and> (of_char c :: nat) \<le> 57"

definition digit_val :: "char \<Rightarrow> int" where
  "digit_val c = int (of_char c) - 48"

definition is_blank :: "char \<Rightarrow> bool" where
  "is_blank c \<longleftrightarrow> (let n = (of_char c :: nat) in n = 32 \<or> (9 \<le> n \<and> n \<le> 13) \<or> (28 \<le> n \<and> n \<le> 31))"

definition strip :: "string \<Rightarrow> string" where
  "strip s = rev (dropWhile is_blank (rev (dropWhile is_blank s)))"

fun digits_val :: "int \<Rightarrow> bool \<Rightarrow> string \<Rightarrow> int option" where
  "digits_val acc after_digit [] = (if after_digit then Some acc else None)"
| "digits_val acc after_digit (c # cs) =
     (if is_digit c then digits_val (10 * acc + digit_val c) True cs
      else if c = CHR ''_'' \<and> after_digit then digits_val acc False cs
      else None)"

definition int_of_string :: "string \<Rightarrow> int res" where
  "int_of_string s =
     (let t = strip s in
      case t of
        [] \<Rightarrow> Inl ValueError
      | c # cs \<Rightarrow>
          (case (if c = CHR ''-'' then map_option uminus (digits_val 0 False cs)
                 else if c = CHR ''+'' then digits_val 0 False cs
                 else digits_val 0 False (c # cs)) of
             None \<Rightarrow> Inl ValueError
           | Some i \<Rightarrow> Inr i))"

text \<open>\<open>s.split(c)\<close> for a one-character separator.\<close>

fun split_on :: "char \<Rightarrow> string \<Rightarrow> string list" where
  "split_on c [] = [[]]"
| "split_on c (x # xs) =
     (if x = c then [] # split_on c xs
      else (case split_on c xs of [] \<Rightarrow> [[x]] | y # ys \<Rightarrow> (x # y) # ys))"

lemma split_on_nonempty [simp]: "split_on c s \<noteq> []"
  by (induction c s rule: split_on.induct) (auto split: list.splits)

fun digit_char :: "nat \<Rightarrow> char" where
  "digit_char n = char_of (48 + n)"

text \<open>\<open>str(i)\<close> of an integer.\<close>

function pos_digits :: "int \<Rightarrow> string" where
  "pos_digits i = (if i < 10 then [digit_char (nat i)] else pos_digits (i div 10) @ [digit_char (nat (i mod 10))])"
  by pat_completeness auto
termination
  by (relation "measure nat") auto

declare pos_digits.simps [simp del]

definition int_to_string :: "int \<Rightarrow> string" where
  "int_to_string i = (if i < 0 then CHR ''-'' # pos_digits (- i) else pos_digits i)"

text \<open>A text at the left or at the right of a field that is at least \<open>n\<close> wide.\<close>

definition ljust :: "nat \<Rightarrow> string \<Rightarrow> string" where
  "ljust n s = s @ replicate (n - length s) CHR '' ''"

definition rjust :: "nat \<Rightarrow> string \<Rightarrow> string" where
  "rjust n s = replicate (n - length s) CHR '' '' @ s"

end
