(* ===== verification/Calendar.thy ===== *)
theory Calendar
  imports Prelude
begin

text \<open>
  The part of the datetime library the programs use: which dates exist, the order of civil
  times, and the correspondence between a civil time and its position on a linear scale
  (microseconds), on which sums and differences with a timedelta are computed. Time zone
  offsets are taken as constant.
\<close>

section \<open>Dates\<close>

definition is_leap :: "int \<Rightarrow> bool" where
  "is_leap y \<longleftrightarrow> y mod 4 = 0 \<and> (y mod 100 \<noteq> 0 \<or> y mod 400 = 0)"

definition days_in_month :: "int \<Rightarrow> int \<Rightarrow> int" where
  "days_in_month y m =
     (if m = 2 then (if is_leap y then 29 else 28)
      else if m = 4 \<or> m = 6 \<or> m = 9 \<or> m = 11 then 30 else 31)"

text \<open>The arguments for which \<open>datetime(y, m, d)\<close> does not raise ValueError.\<close>

definition valid_date :: "int \<Rightarrow> int \<Rightarrow> int \<Rightarrow> bool" where
  "valid_date y m d \<longleftrightarrow>
     1 \<le> y \<and> y \<le> 9999 \<and> 1 \<le> m \<and> m \<le> 12 \<and> 1 \<le> d \<and> d \<le> days_in_month y m"

lemma days_in_month_bounds: "28 \<le> days_in_month y m" "days_in_month y m \<le> 31"
  by (simp_all add: days_in_month_def)

lemma valid_date_first: "1 \<le> y \<Longrightarrow> y \<le> 9999 \<Longrightarrow> 1 \<le> m \<Longrightarrow> m \<le> 12 \<Longrightarrow> valid_date y m 1"
  using days_in_month_bounds[of y m] by (simp add: valid_date_def)

section \<open>Civil times\<close>

text \<open>
  A civil time to the minute. The scheduler also passes through values that are no civil
  time (minute 60, day 32), so the components are unrestricted integers.
\<close>

datatype civil = Civil (cyear: int) (cmonth: int) (cday: int) (chour: int) (cminute: int)

instantiation civil :: linorder
begin

definition less_eq_civil :: "civil \<Rightarrow> civil \<Rightarrow> bool" where
  "less_eq_civil a b \<longleftrightarrow>
     cyear a < cyear b \<or> cyear a = cyear b \<and>
     (cmonth a < cmonth b \<or> cmonth a = cmonth b \<and>
      (cday a < cday b \<or> cday a = cday b \<and>
       (chour a < chour b \<or> chour a = chour b \<and> cminute a \<le> cminute b)))"

definition less_civil :: "civil \<Rightarrow> civil \<Rightarrow> bool" where
  "less_civil a b \<longleftrightarrow>
     cyear a < cyear b \<or> cyear a = cyear b \<and>
     (cmonth a < cmonth b \<or> cmonth a = cmonth b \<and>
      (cday a < cday b \<or> cday a = cday b \<and>
       (chour a < chour b \<or> chour a = chour b \<and> cminute a < cminute b)))"

instance
  by standard (auto simp: less_eq_civil_def less_civil_def intro: civil.expand)

end

definition valid_civil :: "civil \<Rightarrow> bool" where
  "valid_civil c \<longleftrightarrow>
     valid_date (cyear c) (cmonth c) (cday c) \<and>
     0 \<le> chour c \<and> chour c < 24 \<and> 0 \<le> cminute c \<and> cminute c < 60"

section \<open>The linear scale\<close>

definition days_before_year :: "int \<Rightarrow> int" where
  "days_before_year y = (let k = y - 1 in k * 365 + k div 4 - k div 100 + k div 400)"

definition days_before_month :: "int \<Rightarrow> int \<Rightarrow> int" where
  "days_before_month y m = (\<Sum>k\<leftarrow>[1..m - 1]. days_in_month y k)"

text \<open>\<open>toordinal\<close>: 1 January of year 1 is day 1.\<close>

definition ordinal :: "int \<Rightarrow> int \<Rightarrow> int \<Rightarrow> int" where
  "ordinal y m d = days_before_year y + days_before_month y m + d"

fun month_of_rest :: "int \<Rightarrow> int list \<Rightarrow> int \<Rightarrow> int \<times> int" where
  "month_of_rest y [] n = (12, n + 1)"
| "month_of_rest y (m # ms) n =
     (if n < days_in_month y m \<or> ms = [] then (m, n + 1) else month_of_rest y ms (n - days_in_month y m))"

text \<open>\<open>fromordinal\<close>: the date with a given ordinal.\<close>

definition date_of_ordinal :: "int \<Rightarrow> int \<times> int \<times> int" where
  "date_of_ordinal ord =
     (let n = ord - 1;
          n400 = n div 146097; n = n mod 146097;
          n100 = n div 36524; n = n mod 36524;
          n4 = n div 1461; n = n mod 1461;
          n1 = n div 365; n = n mod 365;
          y = n400 * 400 + n100 * 100 + n4 * 4 + n1 + 1
      in if n1 = 4 \<or> n100 = 4 then (y - 1, 12, 31)
         else (case month_of_rest y [1..12] n of (m, d) \<Rightarrow> (y, m, d)))"

type_synonym instant = int
type_synonym timespan = int

definition seconds :: "int \<Rightarrow> timespan" where
  "seconds s = s * 1000000"

text \<open>The instant of \<open>datetime(y, m, d, h, mi, 0)\<close>, or the ValueError it raises.\<close>

definition instant_of :: "civil \<Rightarrow> instant res" where
  "instant_of c =
     (if valid_civil c
      then Inr (seconds (((ordinal (cyear c) (cmonth c) (cday c) * 24 + chour c) * 60 + cminute c) * 60))
      else Inl ValueError)"

text \<open>The civil time, seconds and microseconds of an instant.\<close>

definition civil_of :: "instant \<Rightarrow> civil" where
  "civil_of t =
     (let s = t div 1000000; mi = s div 60; h = mi div 60; d = h div 24
      in case date_of_ordinal d of (y, m, dd) \<Rightarrow> Civil y m dd (h mod 24) (mi mod 60))"

definition second_of :: "instant \<Rightarrow> int" where
  "second_of t = (t div 1000000) mod 60"

definition floor_minute :: "instant \<Rightarrow> instant" where
  "floor_minute t = t - t mod 60000000"

lemma civil_of_example: "civil_of (case instant_of (Civil 2024 2 29 23 59) of Inr t \<Rightarrow> t) = Civil 2024 2 29 23 59"
  by code_simp

lemma month_of_rest_valid:
  assumes "0 \<le> n" "n < 365" "month_of_rest y [1..12] n = (m, d)" "1 \<le> y" "y \<le> 9999"
  shows "valid_date y m d"
proof -
  have l: "[1..12] = [1, 2, 3, 4, 5, 6, 7, 8, 9, 10, 11, 12 :: int]"
    by (simp add: upto_rec1)
  have "(m, d) = month_of_rest y [1..12] n" using assms(3) by simp
  then show ?thesis
    using assms(1,2,4,5) unfolding l
    by (auto simp: valid_date_def days_in_month_def split: if_splits)
qed

text \<open>Within the years the library supports, every instant is a civil time that exists.\<close>

lemma civil_of_valid:
  assumes "1 \<le> cyear (civil_of t)" "cyear (civil_of t) \<le> 9999"
  shows "valid_civil (civil_of t)"
proof -
  define ord where "ord = t div 1000000 div 60 div 60 div 24"
  define n1 n100 rest y where "n1 = (ord - 1) mod 146097 mod 36524 mod 1461 div 365"
    and "n100 = (ord - 1) mod 146097 div 36524"
    and "rest = (ord - 1) mod 146097 mod 36524 mod 1461 mod 365"
    and "y = (ord - 1) div 146097 * 400 + n100 * 100 + (ord - 1) mod 146097 mod 36524 div 1461 * 4 + n1 + 1"
  obtain yy m d where ymd: "date_of_ordinal ord = (yy, m, d)" by (cases "date_of_ordinal ord") auto
  have c: "civil_of t = Civil yy m d (t div 1000000 div 60 div 60 mod 24) (t div 1000000 div 60 mod 60)"
    using ymd by (simp add: civil_of_def Let_def ord_def)
  have dd: "date_of_ordinal ord =
      (if n1 = 4 \<or> n100 = 4 then (y - 1, 12, 31)
       else (case month_of_rest y [1..12] rest of (m, d) \<Rightarrow> (y, m, d)))"
    unfolding date_of_ordinal_def Let_def n1_def n100_def rest_def y_def by (rule refl)
  have "valid_date yy m d"
  proof (cases "n1 = 4 \<or> n100 = 4")
    case True
    with dd ymd have "yy = y - 1 \<and> m = 12 \<and> d = 31" by simp
    with assms c show ?thesis by (simp add: valid_date_def days_in_month_def)
  next
    case False
    obtain m' d' where md: "month_of_rest y [1..12] rest = (m', d')"
      by (cases "month_of_rest y [1..12] rest") auto
    with False dd ymd have "yy = y \<and> m = m' \<and> d = d'" by simp
    moreover have "0 \<le> rest" "rest < 365" by (simp_all add: rest_def)
    ultimately show ?thesis using month_of_rest_valid[OF _ _ md] assms c by simp
  qed
  then show ?thesis unfolding c valid_civil_def by simp
qed

section \<open>Instants keep the order of civil times\<close>

lemma days_before_month_Suc:
  "1 \<le> m \<Longrightarrow> days_before_month y (m + 1) = days_before_month y m + days_in_month y m"
proof -
  assume "1 \<le> m"
  then have "[1..m] = [1..m - 1] @ [m]" by (metis upto_rec2)
  then show ?thesis by (simp add: days_before_month_def)
qed

lemma days_before_month_mono:
  assumes "1 \<le> m" "m < m'"
  shows "days_before_month y m + days_in_month y m \<le> days_before_month y m'"
proof -
  have "days_before_month y (m + 1) \<le> days_before_month y (m + 1 + int n)" for n
  proof (induction n)
    case (Suc n)
    then show ?case using days_before_month_Suc[of "m + 1 + int n" y] days_in_month_bounds(1)[of y "m + 1 + int n"] assms(1)
      by (simp add: algebra_simps)
  qed simp
  from this[of "nat (m' - m - 1)"] show ?thesis using assms days_before_month_Suc[of m y] by simp
qed

lemma div_pred: "0 < (k::int) \<Longrightarrow> y div k - (y - 1) div k = (if y mod k = 0 then 1 else 0)"
proof -
  assume k: "0 < k"
  have y: "y = k * (y div k) + y mod k" by simp
  show ?thesis
  proof (cases "y mod k = 0")
    case True
    then have "y - 1 = k * (y div k - 1) + (k - 1)" using y by (simp add: algebra_simps)
    then have "(y - 1) div k = y div k - 1" using k by (intro int_div_pos_eq[where r = "k - 1"]) auto
    with True show ?thesis by simp
  next
    case False
    have "y - 1 = k * (y div k) + (y mod k - 1)" using y by simp
    moreover have "0 \<le> y mod k - 1" "y mod k - 1 < k"
      using False k pos_mod_bound[of k y] pos_mod_sign[of k y] by linarith+
    ultimately have "(y - 1) div k = y div k" by (rule int_div_pos_eq)
    with False show ?thesis by simp
  qed
qed

lemma days_before_year_Suc: "days_before_year (y + 1) = days_before_year y + (if is_leap y then 366 else 365)"
proof -
  have d: "y div 4 - (y - 1) div 4 = (if y mod 4 = 0 then 1 else 0)"
    "y div 100 - (y - 1) div 100 = (if y mod 100 = 0 then 1 else 0)"
    "y div 400 - (y - 1) div 400 = (if y mod 400 = 0 then 1 else 0)" by (simp_all add: div_pred)
  have m: "y mod 400 = 0 \<Longrightarrow> y mod 100 = 0" "y mod 100 = 0 \<Longrightarrow> y mod 4 = 0"
    using dvd_trans[of 100 400 y] dvd_trans[of 4 100 y] by (simp_all add: mod_eq_0_iff_dvd)
  have "days_before_year (y + 1) - days_before_year y =
      365 + (y div 4 - (y - 1) div 4) - (y div 100 - (y - 1) div 100) + (y div 400 - (y - 1) div 400)"
    by (simp add: days_before_year_def Let_def)
  also have "\<dots> = (if is_leap y then 366 else 365)"
    unfolding d is_leap_def using m by (cases "y mod 4 = 0"; cases "y mod 100 = 0"; cases "y mod 400 = 0") simp_all
  finally show ?thesis by simp
qed

lemma days_before_13: "days_before_month y 13 = (if is_leap y then 366 else 365)"
proof -
  have "[1..12] = [1, 2, 3, 4, 5, 6, 7, 8, 9, 10, 11, 12 :: int]" by (simp add: upto_rec1)
  then show ?thesis by (simp add: days_before_month_def days_in_month_def)
qed

lemma days_before_year_mono: "y < y' \<Longrightarrow> days_before_year (y + 1) \<le> days_before_year y'"
proof -
  assume "y < y'"
  have "days_before_year (y + 1) \<le> days_before_year (y + 1 + int n)" for n
  proof (induction n)
    case (Suc n)
    then show ?case using days_before_year_Suc[of "y + 1 + int n"] by (simp add: algebra_simps split: if_splits)
  qed simp
  from this[of "nat (y' - y - 1)"] show ?thesis using \<open>y < y'\<close> by simp
qed

lemma ordinal_mono:
  assumes "valid_date y m d" "valid_date y' m' d'" "y < y' \<or> y = y' \<and> (m < m' \<or> m = m' \<and> d < d')"
  shows "ordinal y m d < ordinal y' m' d'"
proof -
  have up: "days_before_month y m + d \<le> days_before_month y 13"
    using days_before_month_mono[of m 13 y] assms(1) by (auto simp: valid_date_def)
  have lo: "0 \<le> days_before_month y' m'"
    using days_before_month_mono[of 1 m' y'] days_in_month_bounds(1)[of y' 1] assms(2)
    by (cases "m' = 1") (auto simp: valid_date_def days_before_month_def)
  consider "y < y'" | "y = y'" "m < m'" | "y = y'" "m = m'" "d < d'" using assms(3) by auto
  then show ?thesis
  proof cases
    case 1
    have "ordinal y m d \<le> days_before_year y + days_before_month y 13" using up by (simp add: ordinal_def)
    also have "\<dots> = days_before_year (y + 1)" unfolding days_before_13 days_before_year_Suc ..
    also have "\<dots> \<le> days_before_year y'" using days_before_year_mono[OF 1] .
    also have "\<dots> < ordinal y' m' d'" using lo assms(2) by (simp add: ordinal_def valid_date_def)
    finally show ?thesis .
  next
    case 2
    then show ?thesis using days_before_month_mono[of m m' y] assms by (simp add: ordinal_def valid_date_def)
  next
    case 3
    then show ?thesis by (simp add: ordinal_def)
  qed
qed

lemma clock_lex:
  fixes a b h k m n :: int
  assumes "a + 1 \<le> b" "h < 24" "m < 60" "0 \<le> k" "0 \<le> n"
  shows "(a * 24 + h) * 60 + m < (b * 24 + k) * 60 + n"
  using assms by simp

lemma clock_lex2:
  fixes b h k m n :: int
  assumes "h < k" "m < 60" "0 \<le> n"
  shows "(b * 24 + h) * 60 + m < (b * 24 + k) * 60 + n"
  using assms by simp

lemma instant_of_mono:
  assumes "instant_of a = Inr s" "instant_of b = Inr t" "a < b"
  shows "s < t"
proof -
  let ?oa = "ordinal (cyear a) (cmonth a) (cday a)" and ?ob = "ordinal (cyear b) (cmonth b) (cday b)"
  have v: "valid_civil a" "valid_civil b"
    and st: "s = seconds (((?oa * 24 + chour a) * 60 + cminute a) * 60)"
      "t = seconds (((?ob * 24 + chour b) * 60 + cminute b) * 60)"
    using assms(1,2) by (auto simp: instant_of_def split: if_splits)
  from assms(3) consider "cyear a < cyear b \<or> cyear a = cyear b \<and> (cmonth a < cmonth b \<or> cmonth a = cmonth b \<and> cday a < cday b)"
    | "?oa = ?ob" "chour a < chour b \<or> chour a = chour b \<and> cminute a < cminute b"
    by (auto simp: less_civil_def)
  then show ?thesis
  proof cases
    case 1
    have "?oa + 1 \<le> ?ob" using ordinal_mono[of "cyear a" "cmonth a" "cday a" "cyear b" "cmonth b" "cday b"] 1 v
      by (simp add: valid_civil_def)
    from clock_lex[OF this, of "chour a" "cminute a" "chour b" "cminute b"] v
    show ?thesis unfolding st seconds_def valid_civil_def by simp
  next
    case 2
    from 2(2) show ?thesis
    proof (elim disjE conjE)
      assume "chour a < chour b"
      from clock_lex2[OF this, of "cminute a" "cminute b" ?ob] v
      show ?thesis unfolding st 2(1) seconds_def valid_civil_def by simp
    qed (simp add: st 2(1) seconds_def)
  qed
qed

lemma instant_of_inj: "instant_of a = Inr t \<Longrightarrow> instant_of b = Inr t \<Longrightarrow> a = b"
  using instant_of_mono[of a t b t] instant_of_mono[of b t a t] by (cases a b rule: linorder_cases) auto

end
