(* ===== verification/Cron.thy ===== *)
theory Cron
  imports Calendar
begin

text \<open>
  The crontab part of the cast scheduler (src/python/avp_sched.py): the fields of a schedule
  row (\<open>is_wild\<close>), the class \<open>CronTime\<close>, and the loop of \<open>_AVPSchedule.parse_db\<close> that looks
  for the next civil time a row matches, at most 200 iterations of it. The lemmas show that a
  time found this way exists, matches, and is the earliest one, and that the iterations suffice
  for every daily schedule.
\<close>

section \<open>Fields of a row\<close>

text \<open>An attribute of a CronTime: the wild card, a number or a list of numbers.\<close>

datatype cval = Star | IntV int | ListV "int list"

definition is_wild :: "string \<Rightarrow> cval res" where
  "is_wild cron_val =
     (if cron_val = ''*'' then Inr Star
      else (case int_of_string cron_val of
              Inr i \<Rightarrow> Inr (ListV [i])
            | Inl _ \<Rightarrow> res_bind (res_map int_of_string (split_on (CHR '','') cron_val)) (\<lambda>is. Inr (ListV is))))"

record cron_time =
  ct_year :: cval
  ct_month :: cval
  ct_day :: cval
  ct_hour :: cval
  ct_minute :: cval
  ct_date_time :: instant

text \<open>\<open>datetime(**dtargs)\<close>: a wild date field leaves a required argument out, a list is no integer.\<close>

fun datetime_args :: "cval \<Rightarrow> cval \<Rightarrow> cval \<Rightarrow> cval \<Rightarrow> cval \<Rightarrow> instant res" where
  "datetime_args (IntV y) (IntV m) (IntV d) (IntV h) (IntV mi) = instant_of (Civil y m d h mi)"
| "datetime_args (IntV y) (IntV m) (IntV d) Star (IntV mi) = instant_of (Civil y m d 0 mi)"
| "datetime_args (IntV y) (IntV m) (IntV d) (IntV h) Star = instant_of (Civil y m d h 0)"
| "datetime_args (IntV y) (IntV m) (IntV d) Star Star = instant_of (Civil y m d 0 0)"
| "datetime_args _ _ _ _ _ = Inl TypeError"

text \<open>\<open>if not self.f: self.f = date_time.f\<close>\<close>

fun cval_or :: "cval option \<Rightarrow> int \<Rightarrow> cval" where
  "cval_or None i = IntV i"
| "cval_or (Some (IntV j)) i = (if j = 0 then IntV i else IntV j)"
| "cval_or (Some (ListV l)) i = (if l = [] then IntV i else ListV l)"
| "cval_or (Some Star) i = Star"

text \<open>\<open>CronTime.__init__\<close>; \<open>now\<close> is the clock reading it may take.\<close>

definition cron_time_init :: "instant \<Rightarrow> instant option \<Rightarrow> cval list \<Rightarrow> cron_time" where
  "cron_time_init now date_time date_list =
     (let dt = (case date_time of None \<Rightarrow> now | Some t \<Rightarrow> t);
          dl = (if length date_list = 4 then IntV (cyear (civil_of dt)) # date_list else date_list);
          (fs, dt') =
            (case dl of
               [] \<Rightarrow> ((None, None, None, None, None), dt)
             | [y, m, d, h, mi] \<Rightarrow>
                 ((Some y, Some m, Some d, Some h, Some mi),
                  (case datetime_args y m d h mi of Inr t \<Rightarrow> t | Inl _ \<Rightarrow> now))
             | _ \<Rightarrow> ((None, None, None, None, None), now));
          c = civil_of dt'
      in (case fs of (y, m, d, h, mi) \<Rightarrow>
            \<lparr>ct_year = cval_or y (cyear c), ct_month = cval_or m (cmonth c),
             ct_day = cval_or d (cday c), ct_hour = cval_or h (chour c),
             ct_minute = cval_or mi (cminute c), ct_date_time = dt'\<rparr>))"

section \<open>The search for the next matching time\<close>

datatype pat = AnyOf | OneOf "int list"

fun pat_ok :: "pat \<Rightarrow> int \<Rightarrow> bool" where
  "pat_ok AnyOf i = True"
| "pat_ok (OneOf is) i = (i \<in> set is)"

text \<open>The field as the loop uses it: \<open>in\<close> on a number would raise TypeError.\<close>

fun pat_of :: "cval \<Rightarrow> pat res" where
  "pat_of Star = Inr AnyOf"
| "pat_of (ListV is) = Inr (OneOf is)"
| "pat_of (IntV i) = Inl TypeError"

record cron_pat =
  p_month :: pat
  p_day :: pat
  p_hour :: pat
  p_minute :: pat

definition cron_match :: "cron_pat \<Rightarrow> civil \<Rightarrow> bool" where
  "cron_match p c \<longleftrightarrow>
     pat_ok (p_month p) (cmonth c) \<and> pat_ok (p_day p) (cday c) \<and>
     pat_ok (p_hour p) (chour c) \<and> pat_ok (p_minute p) (cminute c)"

text \<open>The block "Fix invalid values" at the top of the loop.\<close>

fun fix_minute :: "civil \<Rightarrow> civil" where
  "fix_minute (Civil y m d h mi) = (if mi \<ge> 60 then Civil y m d (h + 1) (mi - 60) else Civil y m d h mi)"

fun fix_hour :: "civil \<Rightarrow> civil" where
  "fix_hour (Civil y m d h mi) = (if h \<ge> 24 then Civil y m (d + 1) (h - 24) mi else Civil y m d h mi)"

fun fix_day :: "civil \<Rightarrow> civil" where
  "fix_day (Civil y m d h mi) =
     (if valid_date y m d then Civil y m d h mi
      else if m + 1 = 13 then Civil (y + 1) (m + 1 - 12) 1 h mi
      else Civil y (m + 1) 1 h mi)"

fun fix_month :: "civil \<Rightarrow> civil" where
  "fix_month (Civil y m d h mi) = (if m \<ge> 13 then Civil (y + 1) 1 d h mi else Civil y m d h mi)"

definition fix_fields :: "civil \<Rightarrow> civil" where
  "fix_fields c = fix_month (fix_day (fix_hour (fix_minute c)))"

text \<open>The comparisons: the first field that does not match is advanced and the smaller ones reset.\<close>

fun cron_advance :: "cron_pat \<Rightarrow> civil \<Rightarrow> civil option" where
  "cron_advance p (Civil y m d h mi) =
     (if \<not> pat_ok (p_month p) m then Some (Civil y (m + 1) 1 0 0)
      else if \<not> pat_ok (p_day p) d then Some (Civil y m (d + 1) 0 0)
      else if \<not> pat_ok (p_hour p) h then Some (Civil y m d (h + 1) 0)
      else if \<not> pat_ok (p_minute p) mi then Some (Civil y m d h (mi + 1))
      else None)"

text \<open>
  The loop, with the number of iterations left. Running out of them is the \<open>break\<close> that leaves
  \<open>success\<close> False.
\<close>

fun cron_search :: "nat \<Rightarrow> cron_pat \<Rightarrow> civil \<Rightarrow> bool \<times> civil" where
  "cron_search 0 p c = (False, c)"
| "cron_search (Suc n) p c =
     (let c1 = fix_fields c
      in case cron_advance p c1 of None \<Rightarrow> (True, c1) | Some c2 \<Rightarrow> cron_search n p c2)"

definition max_iters :: nat where
  "max_iters = 200"

record sched_row =
  r_entry_no :: int
  r_month :: string
  r_day :: string
  r_hour :: string
  r_min :: string
  r_lisst :: bool
  r_isco :: bool
  r_bottle :: "int option"
  r_depth :: "rat option"
  r_volume :: "int option"

fun int_field :: "cval \<Rightarrow> int" where
  "int_field (IntV i) = i"
| "int_field _ = 0"

text \<open>One row: both CronTime objects, then the search.\<close>

definition row_pattern :: "instant \<Rightarrow> sched_row \<Rightarrow> cron_pat res" where
  "row_pattern now r =
     res_bind (is_wild (r_month r)) (\<lambda>m. res_bind (is_wild (r_day r)) (\<lambda>d.
     res_bind (is_wild (r_hour r)) (\<lambda>h. res_bind (is_wild (r_min r)) (\<lambda>mi.
       (let cron = cron_time_init now None [m, d, h, mi]
        in res_bind (pat_of (ct_month cron)) (\<lambda>pm. res_bind (pat_of (ct_day cron)) (\<lambda>pd.
           res_bind (pat_of (ct_hour cron)) (\<lambda>ph. res_bind (pat_of (ct_minute cron)) (\<lambda>pmi.
             Inr \<lparr>p_month = pm, p_day = pd, p_hour = ph, p_minute = pmi\<rparr>)))))))))"

definition row_start :: "timespan \<Rightarrow> instant \<Rightarrow> civil" where
  "row_start setup now =
     (let nt = cron_time_init now (Some (now + setup)) []
      in Civil (int_field (ct_year nt)) (int_field (ct_month nt)) (int_field (ct_day nt))
               (int_field (ct_hour nt)) (int_field (ct_minute nt)))"

definition row_next :: "timespan \<Rightarrow> instant \<Rightarrow> sched_row \<Rightarrow> (bool \<times> civil) res" where
  "row_next setup now r =
     res_bind (row_pattern now r) (\<lambda>p. Inr (cron_search max_iters p (row_start setup now)))"

section \<open>What the search finds\<close>

lemma civil_less_simps [simp]:
  "(Civil y m d h mi < Civil y' m' d' h' mi') \<longleftrightarrow>
     y < y' \<or> y = y' \<and> (m < m' \<or> m = m' \<and> (d < d' \<or> d = d' \<and> (h < h' \<or> h = h' \<and> mi < mi')))"
  "(Civil y m d h mi \<le> Civil y' m' d' h' mi') \<longleftrightarrow>
     y < y' \<or> y = y' \<and> (m < m' \<or> m = m' \<and> (d < d' \<or> d = d' \<and> (h < h' \<or> h = h' \<and> mi \<le> mi')))"
  by (simp_all add: less_civil_def less_eq_civil_def)

lemma valid_civil_simps [simp]:
  "valid_civil (Civil y m d h mi) \<longleftrightarrow> valid_date y m d \<and> 0 \<le> h \<and> h < 24 \<and> 0 \<le> mi \<and> mi < 60"
  by (simp add: valid_civil_def)

lemma cron_match_simps [simp]:
  "cron_match p (Civil y m d h mi) \<longleftrightarrow>
     pat_ok (p_month p) m \<and> pat_ok (p_day p) d \<and> pat_ok (p_hour p) h \<and> pat_ok (p_minute p) mi"
  by (simp add: cron_match_def)

lemma fix_fields_valid: "valid_civil c \<Longrightarrow> fix_fields c = c"
  by (cases c) (auto simp: fix_fields_def valid_date_def)

text \<open>The carry into the next day, of a time that is valid but for a day one too large.\<close>

definition next_day :: "int \<Rightarrow> int \<Rightarrow> int \<Rightarrow> int \<times> int \<times> int" where
  "next_day y m d =
     (if d + 1 \<le> days_in_month y m then (y, m, d + 1)
      else if m = 12 then (y + 1, 1, 1) else (y, m + 1, 1))"

lemma fix_day_carry:
  assumes "valid_date y m d" "y < 9999"
  shows "fix_month (fix_day (Civil y m (d + 1) h mi)) =
           (case next_day y m d of (y', m', d') \<Rightarrow> Civil y' m' d' h mi)"
  using assms by (auto simp: next_day_def valid_date_def)

lemma next_day_valid:
  "valid_date y m d \<Longrightarrow> y < 9999 \<Longrightarrow> next_day y m d = (y', m', d') \<Longrightarrow>
     valid_date y' m' d' \<and> y' \<le> y + 1 \<and> Civil y m d 23 59 < Civil y' m' d' 0 0"
  using days_in_month_bounds[of y "m + 1"] days_in_month_bounds[of "y + 1" 1]
  by (auto simp: next_day_def valid_date_def split: if_splits)

lemma next_day_adjacent:
  "valid_date y m d \<Longrightarrow> next_day y m d = (y', m', d') \<Longrightarrow> valid_civil t \<Longrightarrow>
     Civil y m d 0 0 \<le> t \<Longrightarrow> t < Civil y' m' d' 0 0 \<Longrightarrow> cyear t = y \<and> cmonth t = m \<and> cday t = d"
  by (cases t) (auto simp: next_day_def valid_date_def split: if_splits)

text \<open>
  One iteration: from a valid time that does not match, the next iteration starts, after the
  fixes, at a later valid time, and no time it skips matches.
\<close>

definition skips :: "cron_pat \<Rightarrow> civil \<Rightarrow> civil \<Rightarrow> bool" where
  "skips p a b \<longleftrightarrow> (\<forall>t. valid_civil t \<longrightarrow> a \<le> t \<longrightarrow> t < b \<longrightarrow> \<not> cron_match p t)"

lemma skipsI: "(\<And>t. valid_civil t \<Longrightarrow> a \<le> t \<Longrightarrow> t < b \<Longrightarrow> \<not> cron_match p t) \<Longrightarrow> skips p a b"
  by (simp add: skips_def)

lemma skips_trans: "skips p a b \<Longrightarrow> skips p b c \<Longrightarrow> skips p a c"
  unfolding skips_def by (metis linorder_not_le)

definition good_step :: "cron_pat \<Rightarrow> civil \<Rightarrow> civil \<Rightarrow> bool" where
  "good_step p a b \<longleftrightarrow> valid_civil b \<and> a < b \<and> cyear b \<le> cyear a + 1 \<and> skips p a b"

lemma month_step:
  assumes "valid_civil (Civil y m d h mi)" "y < 9999" "\<not> pat_ok (p_month p) m"
  shows "good_step p (Civil y m d h mi) (fix_fields (Civil y (m + 1) 1 0 0))"
proof (cases "m = 12")
  case True
  then have "fix_fields (Civil y (m + 1) 1 0 0) = Civil (y + 1) 1 1 0 0"
    by (simp add: fix_fields_def valid_date_def)
  moreover have "skips p (Civil y m d h mi) (Civil (y + 1) 1 1 0 0)"
  proof (rule skipsI)
    fix t assume "valid_civil t" "Civil y m d h mi \<le> t" "t < Civil (y + 1) 1 1 0 0"
    then show "\<not> cron_match p t" using True assms by (cases t) (auto simp: valid_date_def)
  qed
  ultimately show ?thesis
    using assms days_in_month_bounds(1)[of "y + 1" 1] by (auto simp: good_step_def valid_date_def)
next
  case False
  with assms have v: "valid_date y (m + 1) 1" by (intro valid_date_first) (auto simp: valid_date_def)
  then have "fix_fields (Civil y (m + 1) 1 0 0) = Civil y (m + 1) 1 0 0"
    by (intro fix_fields_valid) simp
  moreover have "skips p (Civil y m d h mi) (Civil y (m + 1) 1 0 0)"
  proof (rule skipsI)
    fix t assume "valid_civil t" "Civil y m d h mi \<le> t" "t < Civil y (m + 1) 1 0 0"
    then show "\<not> cron_match p t" using assms by (cases t) (auto simp: valid_date_def)
  qed
  ultimately show ?thesis using v by (auto simp: good_step_def)
qed

lemma day_step:
  assumes "valid_civil (Civil y m d h mi)" "y < 9999"
    and no: "\<And>h' mi'. h \<le> h' \<Longrightarrow> h' < 24 \<Longrightarrow> 0 \<le> mi' \<Longrightarrow> mi' < 60 \<Longrightarrow>
               (h' = h \<Longrightarrow> mi \<le> mi') \<Longrightarrow> \<not> cron_match p (Civil y m d h' mi')"
  shows "good_step p (Civil y m d h mi) (fix_month (fix_day (Civil y m (d + 1) 0 0)))"
proof -
  obtain y' m' d' where n: "next_day y m d = (y', m', d')" by (cases "next_day y m d") auto
  from assms(1) have v: "valid_date y m d" by simp
  note nv = next_day_valid[OF v assms(2) n]
  have "skips p (Civil y m d h mi) (Civil y' m' d' 0 0)"
  proof (rule skipsI)
    fix t assume t: "valid_civil t" "Civil y m d h mi \<le> t" "t < Civil y' m' d' 0 0"
    from t(2) assms(1) have "Civil y m d 0 0 \<le> t" by (cases t) auto
    from next_day_adjacent[OF v n t(1) this t(3)] t no[of "chour t" "cminute t"]
    show "\<not> cron_match p t" by (cases t) auto
  qed
  with nv assms(1) show ?thesis
    unfolding fix_day_carry[OF v assms(2)] n by (auto simp: good_step_def)
qed

lemma fix_fields_day: "fix_fields (Civil y m d 0 0) = fix_month (fix_day (Civil y m d 0 0))"
  by (simp add: fix_fields_def)

lemma hour_step:
  assumes "valid_civil (Civil y m d h mi)" "y < 9999"
    and no: "\<And>mi'. mi \<le> mi' \<Longrightarrow> mi' < 60 \<Longrightarrow> \<not> cron_match p (Civil y m d h mi')"
  shows "good_step p (Civil y m d h mi) (fix_fields (Civil y m d (h + 1) 0))"
proof (cases "h = 23")
  case True
  then have "fix_fields (Civil y m d (h + 1) 0) = fix_month (fix_day (Civil y m (d + 1) 0 0))"
    by (simp add: fix_fields_def)
  moreover have "good_step p (Civil y m d h mi) (fix_month (fix_day (Civil y m (d + 1) 0 0)))"
  proof (rule day_step[OF assms(1,2)])
    fix h' mi' assume h: "h \<le> h'" "h' < 24" "mi' < 60" "h' = h \<Longrightarrow> mi \<le> mi'"
    then have "h' = h" using True by simp
    with h no show "\<not> cron_match p (Civil y m d h' mi')" by blast
  qed
  ultimately show ?thesis by simp
next
  case False
  with assms(1) have v: "valid_civil (Civil y m d (h + 1) 0)" by simp
  moreover have "skips p (Civil y m d h mi) (Civil y m d (h + 1) 0)"
  proof (rule skipsI)
    fix t assume "valid_civil t" "Civil y m d h mi \<le> t" "t < Civil y m d (h + 1) 0"
    then show "\<not> cron_match p t" using no by (cases t) auto
  qed
  ultimately show ?thesis by (auto simp: good_step_def fix_fields_valid)
qed

lemma minute_step:
  assumes "valid_civil (Civil y m d h mi)" "y < 9999" "\<not> pat_ok (p_minute p) mi"
  shows "good_step p (Civil y m d h mi) (fix_fields (Civil y m d h (mi + 1)))"
proof (cases "mi = 59")
  case True
  then have "fix_fields (Civil y m d h (mi + 1)) = fix_fields (Civil y m d (h + 1) 0)"
    by (simp add: fix_fields_def)
  moreover have "good_step p (Civil y m d h mi) (fix_fields (Civil y m d (h + 1) 0))"
  proof (rule hour_step[OF assms(1,2)])
    fix mi' assume "mi \<le> mi'" "mi' < 60"
    with True have "mi' = mi" by simp
    with assms(3) show "\<not> cron_match p (Civil y m d h mi')" by simp
  qed
  ultimately show ?thesis by simp
next
  case False
  with assms(1) have v: "valid_civil (Civil y m d h (mi + 1))" by simp
  moreover have "skips p (Civil y m d h mi) (Civil y m d h (mi + 1))"
  proof (rule skipsI)
    fix t assume "valid_civil t" "Civil y m d h mi \<le> t" "t < Civil y m d h (mi + 1)"
    then show "\<not> cron_match p t" using assms(3) by (cases t) auto
  qed
  ultimately show ?thesis by (auto simp: good_step_def fix_fields_valid)
qed

lemma cron_advance_step:
  assumes "valid_civil a" "cyear a < 9999" "cron_advance p a = Some b"
  shows "good_step p a (fix_fields b)"
proof -
  obtain y m d h mi where a: "a = Civil y m d h mi" by (cases a) auto
  consider "\<not> pat_ok (p_month p) m" "b = Civil y (m + 1) 1 0 0"
    | "\<not> pat_ok (p_day p) d" "b = Civil y m (d + 1) 0 0"
    | "\<not> pat_ok (p_hour p) h" "b = Civil y m d (h + 1) 0"
    | "\<not> pat_ok (p_minute p) mi" "b = Civil y m d h (mi + 1)"
    using assms(3) a by (auto split: if_splits)
  then show ?thesis
  proof cases
    case 1 then show ?thesis using assms a by (simp add: month_step)
  next
    case 2
    have "good_step p (Civil y m d h mi) (fix_month (fix_day (Civil y m (d + 1) 0 0)))"
      by (rule day_step) (use assms a 2 in auto)
    then show ?thesis unfolding a 2(2) fix_fields_day .
  next
    case 3 then show ?thesis using assms a by (simp add: hour_step)
  next
    case 4 then show ?thesis using assms a by (simp add: minute_step)
  qed
qed

lemma cron_advance_None: "cron_advance p c = None \<longleftrightarrow> cron_match p c"
  by (cases c) auto

lemma cron_search_correct:
  assumes "valid_civil (fix_fields c)" "cyear (fix_fields c) + int n \<le> 9999"
    and "cron_search n p c = (True, r)"
  shows "valid_civil r \<and> cron_match p r \<and> fix_fields c \<le> r \<and> skips p (fix_fields c) r"
  using assms
proof (induction n arbitrary: c)
  case 0
  then show ?case by simp
next
  case (Suc n)
  show ?case
  proof (cases "cron_advance p (fix_fields c)")
    case None
    with Suc.prems have "r = fix_fields c" by (simp add: Let_def)
    with None Suc.prems show ?thesis by (auto simp: cron_advance_None skips_def)
  next
    case (Some b)
    with Suc.prems have s: "good_step p (fix_fields c) (fix_fields b)"
      by (intro cron_advance_step) auto
    from Some Suc.prems(3) have "cron_search n p b = (True, r)" by (simp add: Let_def)
    with s Suc.prems have "valid_civil r \<and> cron_match p r \<and> fix_fields b \<le> r \<and> skips p (fix_fields b) r"
      by (intro Suc.IH) (auto simp: good_step_def)
    with s show ?thesis by (auto simp: good_step_def intro: skips_trans)
  qed
qed

section \<open>Enough iterations for a daily schedule\<close>

definition succeeds :: "nat \<Rightarrow> cron_pat \<Rightarrow> civil \<Rightarrow> bool" where
  "succeeds n p c \<longleftrightarrow> fst (cron_search n p c)"

lemma succeeds_Suc:
  "succeeds (Suc n) p c \<longleftrightarrow>
     (case cron_advance p (fix_fields c) of None \<Rightarrow> True | Some b \<Rightarrow> succeeds n p b)"
  by (simp add: succeeds_def Let_def split: option.split)

lemma succeeds_fix: "fix_fields c = fix_fields c' \<Longrightarrow> succeeds (Suc n) p c = succeeds (Suc n) p c'"
  by (simp only: succeeds_Suc)

text \<open>A pattern that leaves month and day open, with an hour and a minute of the day.\<close>

definition daily :: "cron_pat \<Rightarrow> bool" where
  "daily p \<longleftrightarrow> p_month p = AnyOf \<and> p_day p = AnyOf \<and>
     (\<exists>h. 0 \<le> h \<and> h < 24 \<and> pat_ok (p_hour p) h) \<and> (\<exists>mi. 0 \<le> mi \<and> mi < 60 \<and> pat_ok (p_minute p) mi)"

lemma minutes_left:
  assumes "p_month p = AnyOf" "p_day p = AnyOf" "pat_ok (p_hour p) h"
    and "valid_civil (Civil y m d h mi)" "mi \<le> k" "k < 60" "pat_ok (p_minute p) k"
    and "nat (k - mi) < n"
  shows "succeeds n p (Civil y m d h mi)"
  using assms
proof (induction n arbitrary: mi)
  case 0
  then show ?case by simp
next
  case (Suc n)
  show ?case
  proof (cases "pat_ok (p_minute p) mi")
    case True
    with Suc.prems show ?thesis by (simp add: succeeds_Suc fix_fields_valid)
  next
    case False
    with Suc.prems have "mi \<noteq> k" by auto
    with Suc.prems have "succeeds n p (Civil y m d h (mi + 1))" by (intro Suc.IH) auto
    with False Suc.prems show ?thesis by (simp add: succeeds_Suc fix_fields_valid)
  qed
qed

lemma hours_left:
  assumes "p_month p = AnyOf" "p_day p = AnyOf"
    and "valid_civil (Civil y m d h 0)" "h \<le> k" "k < 24" "pat_ok (p_hour p) k"
    and "0 \<le> j" "j < 60" "pat_ok (p_minute p) j" "nat (k - h) + 60 \<le> n"
  shows "succeeds n p (Civil y m d h 0)"
  using assms
proof (induction n arbitrary: h)
  case 0
  then show ?case by simp
next
  case (Suc n)
  show ?case
  proof (cases "pat_ok (p_hour p) h")
    case True
    with Suc.prems show ?thesis by (intro minutes_left[where k = j]) auto
  next
    case False
    with Suc.prems have "h \<noteq> k" by auto
    with Suc.prems have "succeeds n p (Civil y m d (h + 1) 0)" by (intro Suc.IH) auto
    with False Suc.prems show ?thesis by (simp add: succeeds_Suc fix_fields_valid)
  qed
qed

lemma new_day:
  assumes "daily p" "valid_date y m d" "83 \<le> n"
  shows "succeeds n p (Civil y m d 0 0)"
proof -
  from assms(1) obtain h j where "0 \<le> h" "h < 24" "pat_ok (p_hour p) h"
    "0 \<le> j" "j < 60" "pat_ok (p_minute p) j" by (auto simp: daily_def)
  with assms show ?thesis by (intro hours_left[where k = h and j = j]) (auto simp: daily_def)
qed

lemma hour_overflow:
  assumes "daily p" "valid_date y m d" "y < 9999" "h = 23" "83 \<le> n"
  shows "succeeds n p (Civil y m d (h + 1) 0)"
proof -
  obtain y' m' d' where nd: "next_day y m d = (y', m', d')" by (cases "next_day y m d") auto
  have "fix_fields (Civil y m d (h + 1) 0) = fix_month (fix_day (Civil y m (d + 1) 0 0))"
    using assms(4) by (simp add: fix_fields_def)
  also have "\<dots> = Civil y' m' d' 0 0"
    unfolding fix_day_carry[OF assms(2,3)] nd by simp
  finally have f: "fix_fields (Civil y m d (h + 1) 0) = fix_fields (Civil y' m' d' 0 0)"
    using next_day_valid[OF assms(2,3) nd] by (simp add: fix_fields_valid)
  obtain k where k: "n = Suc k" using assms(5) by (cases n) auto
  have "succeeds n p (Civil y' m' d' 0 0)"
    using new_day[OF assms(1) _ assms(5)] next_day_valid[OF assms(2,3) nd] by blast
  then show ?thesis unfolding k succeeds_fix[OF f] .
qed

lemma rest_of_day:
  assumes "daily p" "valid_civil (Civil y m d h 0)" "y < 9999" "nat (24 - h) + 83 \<le> n"
  shows "succeeds n p (Civil y m d h 0)"
  using assms
proof (induction n arbitrary: h)
  case 0
  then show ?case by simp
next
  case (Suc n)
  from Suc.prems(1) obtain j where j: "0 \<le> j" "j < 60" "pat_ok (p_minute p) j" by (auto simp: daily_def)
  have any: "p_month p = AnyOf" "p_day p = AnyOf" using Suc.prems(1) by (auto simp: daily_def)
  show ?case
  proof (cases "pat_ok (p_hour p) h")
    case True
    with Suc.prems j any show ?thesis by (intro minutes_left[where k = j]) auto
  next
    case False
    have "succeeds n p (Civil y m d (h + 1) 0)"
    proof (cases "h = 23")
      case True
      then show ?thesis using Suc.prems by (intro hour_overflow) auto
    next
      case False
      with Suc.prems show ?thesis by (intro Suc.IH) auto
    qed
    with False Suc.prems any show ?thesis by (simp add: succeeds_Suc fix_fields_valid)
  qed
qed

lemma rest_of_hour:
  assumes "daily p" "valid_civil (Civil y m d h mi)" "y < 9999" "pat_ok (p_hour p) h"
    and "nat (60 - mi) + 107 \<le> n"
  shows "succeeds n p (Civil y m d h mi)"
  using assms
proof (induction n arbitrary: mi)
  case 0
  then show ?case by simp
next
  case (Suc n)
  have any: "p_month p = AnyOf" "p_day p = AnyOf" using Suc.prems(1) by (auto simp: daily_def)
  show ?case
  proof (cases "pat_ok (p_minute p) mi")
    case True
    with Suc.prems any show ?thesis by (simp add: succeeds_Suc fix_fields_valid)
  next
    case False
    have "succeeds n p (Civil y m d h (mi + 1))"
    proof (cases "mi = 59")
      case True
      obtain k where k: "n = Suc k" using Suc.prems by (cases n) auto
      have f: "fix_fields (Civil y m d h (mi + 1)) = fix_fields (Civil y m d (h + 1) 0)"
        using True by (simp add: fix_fields_def)
      have "succeeds n p (Civil y m d (h + 1) 0)"
      proof (cases "h = 23")
        case True
        then show ?thesis using Suc.prems by (intro hour_overflow) auto
      next
        case False
        with Suc.prems show ?thesis by (intro rest_of_day) auto
      qed
      then show ?thesis unfolding k succeeds_fix[OF f] .
    next
      case False
      with Suc.prems show ?thesis by (intro Suc.IH) auto
    qed
    with False Suc.prems any show ?thesis by (simp add: succeeds_Suc fix_fields_valid)
  qed
qed

lemma daily_succeeds:
  assumes "daily p" "valid_civil c" "cyear c < 9999"
  shows "succeeds max_iters p c"
proof -
  obtain y m d h mi where c: "c = Civil y m d h mi" by (cases c) auto
  have any: "p_month p = AnyOf" "p_day p = AnyOf" using assms(1) by (auto simp: daily_def)
  show ?thesis
  proof (cases "pat_ok (p_hour p) h")
    case True
    show ?thesis unfolding max_iters_def c by (rule rest_of_hour) (use assms c True in auto)
  next
    case False
    obtain k where k: "max_iters = Suc k" and k2: "k = 199" by (simp add: max_iters_def)
    have "succeeds k p (Civil y m d (h + 1) 0)"
    proof (cases "h = 23")
      case True
      then show ?thesis using assms c k2 by (intro hour_overflow) auto
    next
      case False
      with assms c k2 show ?thesis by (intro rest_of_day) auto
    qed
    with False any assms c show ?thesis by (simp add: k succeeds_Suc fix_fields_valid)
  qed
qed

section \<open>Properties\<close>

lemma row_start_eq: "1 \<le> cyear (civil_of (now + setup)) \<Longrightarrow> 1 \<le> cmonth (civil_of (now + setup)) \<Longrightarrow>
    row_start setup now = civil_of (now + setup)"
  by (cases "civil_of (now + setup)") (simp add: row_start_def cron_time_init_def Let_def)

lemma row_start_valid:
  assumes "1 \<le> cyear (civil_of (now + setup))" "cyear (civil_of (now + setup)) \<le> 9999"
  shows "row_start setup now = civil_of (now + setup) \<and> valid_civil (row_start setup now)"
  using civil_of_valid[OF assms] assms by (simp add: row_start_eq valid_civil_def valid_date_def)

text \<open>
  C1. A schedule row for which the search succeeds is given the earliest civil time from now
  plus the setup time on that exists in the calendar and matches all four of its fields.
\<close>

theorem row_next_earliest:
  assumes "1 \<le> cyear (civil_of (now + setup))" "cyear (civil_of (now + setup)) \<le> 9799"
    and "row_pattern now r = Inr p" "row_next setup now r = Inr (True, t)"
  shows "valid_civil t \<and> cron_match p t \<and> civil_of (now + setup) \<le> t \<and>
         (\<forall>u. valid_civil u \<longrightarrow> civil_of (now + setup) \<le> u \<longrightarrow> u < t \<longrightarrow> \<not> cron_match p u)"
proof -
  let ?s = "row_start setup now"
  have s: "?s = civil_of (now + setup)" "valid_civil ?s"
    using row_start_valid[OF assms(1)] assms(2) by auto
  from assms(3,4) have "cron_search max_iters p ?s = (True, t)" by (simp add: row_next_def)
  from cron_search_correct[OF _ _ this] s assms(2)
  have "valid_civil t \<and> cron_match p t \<and> ?s \<le> t \<and> skips p ?s t"
    by (simp add: fix_fields_valid max_iters_def)
  with s(1) show ?thesis by (auto simp: skips_def)
qed

text \<open>
  C2. The bound of 200 iterations never drops a daily row: with month and day left open, and an
  hour and a minute that occur in a day, the search always succeeds.
\<close>

theorem daily_row_found:
  assumes "1 \<le> cyear (civil_of (now + setup))" "cyear (civil_of (now + setup)) < 9999"
    and "row_pattern now r = Inr p" "daily p"
  shows "\<exists>t. row_next setup now r = Inr (True, t)"
proof -
  have "succeeds max_iters p (row_start setup now)"
    using daily_succeeds[OF assms(4)] row_start_valid[OF assms(1)] assms(2) by auto
  with assms(3) show ?thesis
    by (cases "cron_search max_iters p (row_start setup now)") (auto simp: row_next_def succeeds_def)
qed


text \<open>A row of every day at 8:00 and 20:00, looked up on 1 March 2024 at 9:30.\<close>

definition noon_row :: sched_row where
  "noon_row = \<lparr>r_entry_no = 1, r_month = ''*'', r_day = ''*'', r_hour = ''8,20'', r_min = ''0'',
     r_lisst = False, r_isco = False, r_bottle = None, r_depth = None, r_volume = None\<rparr>"

definition march_first :: instant where
  "march_first = 63844968600000000"

lemma march_first_civil: "civil_of (march_first + 0) = Civil 2024 3 1 9 30"
  by code_simp

lemma noon_row_pattern:
  "row_pattern march_first noon_row =
     Inr \<lparr>p_month = AnyOf, p_day = AnyOf, p_hour = OneOf [8, 20], p_minute = OneOf [0]\<rparr>"
  by code_simp

lemma noon_row_next: "row_next 0 march_first noon_row = Inr (True, Civil 2024 3 1 20 0)"
  by code_simp

theorem row_next_earliest_witness:
  "valid_civil (Civil 2024 3 1 20 0) \<and> civil_of (march_first + 0) \<le> Civil 2024 3 1 20 0"
  using row_next_earliest[OF _ _ noon_row_pattern noon_row_next] march_first_civil by simp

lemma noon_row_daily:
  "daily \<lparr>p_month = AnyOf, p_day = AnyOf, p_hour = OneOf [8, 20], p_minute = OneOf [0]\<rparr>"
  by (auto simp: daily_def intro!: exI[of _ 8])

theorem daily_row_found_witness: "\<exists>t. row_next 0 march_first noon_row = Inr (True, t)"
  by (rule daily_row_found[OF _ _ noon_row_pattern noon_row_daily]) (simp_all only: march_first_civil, simp_all)

text \<open>
  The bound loses rows that are not daily: a row for 23:59 on 29 February, looked up on
  1 March 2024, has a next time in 2028 and the search gives up before it.
\<close>

theorem leap_row_lost:
  "fst (cron_search max_iters \<lparr>p_month = OneOf [2], p_day = OneOf [29], p_hour = OneOf [23], p_minute = OneOf [59]\<rparr>
     (Civil 2024 3 1 0 0)) = False \<and>
   valid_civil (Civil 2028 2 29 23 59) \<and>
   cron_match \<lparr>p_month = OneOf [2], p_day = OneOf [29], p_hour = OneOf [23], p_minute = OneOf [59]\<rparr> (Civil 2028 2 29 23 59)"
  by code_simp

end
