(* ===== verification/Sched.thy ===== *)
theory Sched
  imports Cron
begin

text \<open>
  The scheduler thread of src/python/avp_sched.py, class \<open>_AVPSchedule\<close>: \<open>parse_db\<close> rebuilds
  the dictionary \<open>pending\<close> from the table rows, and one turn of \<open>run\<close> removes the casts that are
  done from \<open>schedule\<close>, copies the casts that are due from \<open>pending\<close> to \<open>ready\<close>, combines the
  casts that are due together, and hands the rest over to the launcher in \<open>schedule\<close>.

  The three dictionaries share their entries: a cast that is due is one dictionary object that
  \<open>pending\<close>, \<open>ready\<close> and \<open>schedule\<close> all refer to, and an assignment through one is seen through
  the others. Entries therefore live in a list of objects, and the dictionaries hold positions
  in it. The clock is read once per turn.
\<close>

section \<open>Entries and the state of the scheduler\<close>

record entry =
  e_lisst :: bool
  e_isco :: bool
  e_bottle :: "int option"
  e_depth :: "rat option"
  e_volume :: "int option"
  e_sched_list :: civil
  e_sched_status :: "string option"
  e_match :: bool
  e_action :: "string option"
  e_setup :: "timespan option"
  e_insert :: "instant option"

type_synonym entry_ref = nat

record sched =
  sc_objs :: "entry list"
  sc_pending :: "(string \<times> entry_ref) list"
  sc_ready :: "(string \<times> entry_ref) list"
  sc_schedule :: "(string \<times> entry_ref) list"
  sc_select :: "sched_row list"
  sc_last_off :: instant

definition entry_at :: "sched \<Rightarrow> entry_ref \<Rightarrow> entry" where
  "entry_at s a = sc_objs s ! a"

definition upd_entry :: "entry_ref \<Rightarrow> (entry \<Rightarrow> entry) \<Rightarrow> sched \<Rightarrow> sched" where
  "upd_entry a f s = s\<lparr>sc_objs := (sc_objs s)[a := f (sc_objs s ! a)]\<rparr>"

section \<open>parse_db\<close>

definition new_entry :: "sched_row \<Rightarrow> civil \<Rightarrow> entry" where
  "new_entry r t =
     \<lparr>e_lisst = r_lisst r, e_isco = r_isco r, e_bottle = r_bottle r, e_depth = r_depth r,
      e_volume = r_volume r, e_sched_list = t, e_sched_status = None, e_match = False,
      e_action = None, e_setup = None, e_insert = None\<rparr>"

text \<open>\<open>self.pending[str(record['entry_no'])] = {...}\<close>: a new object, also under an old key.\<close>

definition add_pending :: "sched_row \<Rightarrow> civil \<Rightarrow> sched \<Rightarrow> sched" where
  "add_pending r t s =
     s\<lparr>sc_objs := sc_objs s @ [new_entry r t],
       sc_pending := dset (sc_pending s) (int_to_string (r_entry_no r)) (length (sc_objs s))\<rparr>"

fun parse_rows :: "timespan \<Rightarrow> instant \<Rightarrow> sched_row list \<Rightarrow> sched \<Rightarrow> pyexn option \<times> sched" where
  "parse_rows setup now [] s = (None, s)"
| "parse_rows setup now (r # rs) s =
     (case row_next setup now r of
        Inl e \<Rightarrow> (Some e, s)
      | Inr (success, t) \<Rightarrow> parse_rows setup now rs (if success then add_pending r t s else s))"

definition parse_db :: "timespan \<Rightarrow> instant \<Rightarrow> sched \<Rightarrow> pyexn option \<times> sched" where
  "parse_db setup now s = parse_rows setup now (sc_select s) (s\<lparr>sc_pending := []\<rparr>)"

definition load_db :: "timespan \<Rightarrow> instant \<Rightarrow> sched_row list \<Rightarrow> sched \<Rightarrow> pyexn option \<times> sched" where
  "load_db setup now rows s = parse_db setup now (s\<lparr>sc_select := rows\<rparr>)"

section \<open>One turn of run\<close>

record sched_cfg =
  cf_setup :: timespan
  cf_max_scheduled :: timespan
  cf_off_freq :: timespan

text \<open>
  Removal of what is done or too old. An entry without an insert time counts as inserted now.
\<close>

fun purge :: "timespan \<Rightarrow> instant \<Rightarrow> string list \<Rightarrow> sched \<times> bool \<Rightarrow> sched \<times> bool" where
  "purge max_time now [] (s, reparse) = (s, reparse)"
| "purge max_time now (k # ks) (s, reparse) =
     purge max_time now ks
       (case dget (sc_schedule s) k of
          None \<Rightarrow> (s, reparse)
        | Some a \<Rightarrow>
            (let e = entry_at s a;
                 how_late = now - (case e_insert e of None \<Rightarrow> now | Some t \<Rightarrow> t)
             in if e_action e = Some ''done'' \<or> how_late \<ge> max_time
                then (s\<lparr>sc_schedule := dpop (sc_schedule s) k\<rparr>, True)
                else (s, reparse)))"

text \<open>One entry of \<open>pending\<close>: due now, missed, or neither.\<close>

definition pend_step :: "sched_cfg \<Rightarrow> instant \<Rightarrow> string \<Rightarrow> string \<times> entry_ref \<Rightarrow> sched \<times> bool \<Rightarrow> sched \<times> bool" where
  "pend_step cf now state ka sr =
     (case ka of (k, a) \<Rightarrow> case sr of (s, reparse) \<Rightarrow>
        let comp = floor_minute (now + cf_setup cf);
            status = e_sched_status (entry_at s a)
        in case instant_of (e_sched_list (entry_at s a)) of
             Inl e \<Rightarrow> (s, reparse)
           | Inr sched_time \<Rightarrow>
               if comp = sched_time then
                 (if status = None
                  then (upd_entry a (\<lambda>e. e\<lparr>e_sched_status := Some ''scheduled''\<rparr>)
                          (s\<lparr>sc_ready := dset (sc_ready s) k a\<rparr>), False)
                  else (s, False))
               else if status = Some ''scheduled'' then
                 (if sched_time < now
                  then (if state = ''off'' \<and> now - sc_last_off s \<ge> cf_off_freq cf
                        then s\<lparr>sc_last_off := now\<rparr> else s, reparse)
                  else (s, False))
               else if status = Some ''processing'' then (s, False)
               else (s, reparse))"

definition pend_loop :: "sched_cfg \<Rightarrow> instant \<Rightarrow> string \<Rightarrow> sched \<Rightarrow> sched \<times> bool" where
  "pend_loop cf now state s = fold (pend_step cf now state) (sc_pending s) (s, True)"

text \<open>
  The inner comparison of two entries that are due, and the merge of the second into the first.
  \<open>self.pending[entry_number_i]\<close> may raise KeyError, which ends the thread.
\<close>

definition merge_into :: "sched_cfg \<Rightarrow> instant \<Rightarrow> entry \<Rightarrow> entry \<Rightarrow> entry" where
  "merge_into cf now ei e =
     e\<lparr>e_lisst := e_lisst e \<or> e_lisst ei, e_action := Some ''queued'',
       e_setup := Some (cf_setup cf), e_insert := Some now\<rparr>"

definition combine_pair ::
  "sched_cfg \<Rightarrow> instant \<Rightarrow> string \<times> entry_ref \<Rightarrow> string \<times> entry_ref \<Rightarrow>
     pyexn option \<times> sched \<Rightarrow> pyexn option \<times> sched" where
  "combine_pair cf now o_item i_item xs =
     (case xs of (Some x, s) \<Rightarrow> (Some x, s)
      | (None, s) \<Rightarrow>
          (case (o_item, i_item) of ((ko, ao), (ki, ai)) \<Rightarrow>
             let eo = entry_at s ao; ei = entry_at s ai
             in if ko \<noteq> ki \<and> e_sched_list eo = e_sched_list ei \<and> \<not> e_isco ei \<and> \<not> e_isco eo \<and> \<not> e_match ei
                then (let s1 = upd_entry ai (\<lambda>e. e\<lparr>e_match := True\<rparr>) s
                      in case dget (sc_pending s1) ki of
                           None \<Rightarrow> (Some (KeyError ki), s1)
                         | Some p \<Rightarrow>
                             let s2 = upd_entry p (\<lambda>e. e\<lparr>e_sched_status := None\<rparr>) s1;
                                 s3 = s2\<lparr>sc_ready := dset (sc_ready s2) ko ao\<rparr>
                             in (None, upd_entry ao (merge_into cf now ei) s3))
                else (None, s)))"

definition combine_outer ::
  "sched_cfg \<Rightarrow> instant \<Rightarrow> string \<times> entry_ref \<Rightarrow> pyexn option \<times> sched \<Rightarrow> pyexn option \<times> sched" where
  "combine_outer cf now o_item xs =
     (case xs of (Some x, s) \<Rightarrow> (Some x, s)
      | (None, s) \<Rightarrow>
          if e_match (entry_at s (snd o_item)) then (None, s)
          else fold (combine_pair cf now o_item) (sc_ready s) (None, s))"

definition combine :: "sched_cfg \<Rightarrow> instant \<Rightarrow> sched \<Rightarrow> pyexn option \<times> sched" where
  "combine cf now s = fold (combine_outer cf now) (sc_ready s) (None, s)"

definition transfer_one :: "string \<times> entry_ref \<Rightarrow> sched \<Rightarrow> sched" where
  "transfer_one ka s =
     (case ka of (k, a) \<Rightarrow>
        if \<not> e_match (entry_at s a) \<and> \<not> dhas (sc_schedule s) k
        then upd_entry a (\<lambda>e. e\<lparr>e_action := Some ''queued''\<rparr>) (s\<lparr>sc_schedule := dset (sc_schedule s) k a\<rparr>)
        else s)"

definition transfer :: "sched \<Rightarrow> sched" where
  "transfer s = fold transfer_one (sc_ready s) s"

text \<open>
  What a turn reads from outside: the clock, the state of the schedule switch, and the two
  answers of the database (a failing poll counts as no change; a failing select is raised).
\<close>

record sched_env =
  ev_now :: instant
  ev_state :: string
  ev_poll :: "bool res"
  ev_rows :: "sched_row list res"

text \<open>
  A turn: the exception that ends the thread if there is one, whether the thread sleeps until
  the next minute (False: \<open>continue\<close>), and the new state.
\<close>

definition sched_turn :: "sched_cfg \<Rightarrow> sched_env \<Rightarrow> sched \<Rightarrow> pyexn option \<times> bool \<times> sched" where
  "sched_turn cf ev s0 =
     (let now = ev_now ev;
          (s1, reparse) = purge (cf_max_scheduled cf) now (dkeys (sc_schedule s0)) (s0\<lparr>sc_ready := []\<rparr>, False)
      in if reparse then (case parse_db (cf_setup cf) now s1 of (x, s2) \<Rightarrow> (x, False, s2))
         else
           let (x, s2) =
                 (if ev_poll ev = Inr True
                  then (case ev_rows ev of Inl e \<Rightarrow> (Some e, s1) | Inr rows \<Rightarrow> load_db (cf_setup cf) now rows s1)
                  else (None, s1))
           in (case x of Some e \<Rightarrow> (Some e, False, s2)
               | None \<Rightarrow>
                   let (s3, reparse) = pend_loop cf now (ev_state ev) s2
                   in if reparse \<and> sc_ready s3 \<noteq> []
                      then (case parse_db (cf_setup cf) now s3 of (x, s4) \<Rightarrow> (x, False, s4))
                      else if sc_ready s3 \<noteq> []
                      then (case combine cf now s3 of (Some e, s4) \<Rightarrow> (Some e, False, s4)
                            | (None, s4) \<Rightarrow> (None, True, transfer s4))
                      else (None, True, s3)))"


section \<open>Lemmas\<close>

lemma upd_entry_simps [simp]:
  "sc_pending (upd_entry a f s) = sc_pending s"
  "sc_ready (upd_entry a f s) = sc_ready s"
  "sc_schedule (upd_entry a f s) = sc_schedule s"
  "sc_select (upd_entry a f s) = sc_select s"
  "sc_last_off (upd_entry a f s) = sc_last_off s"
  "length (sc_objs (upd_entry a f s)) = length (sc_objs s)"
  by (simp_all add: upd_entry_def)

lemma entry_at_upd:
  "b < length (sc_objs s) \<Longrightarrow> entry_at (upd_entry a f s) b = (if b = a then f (entry_at s b) else entry_at s b)"
  by (simp add: entry_at_def upd_entry_def)

lemma entry_at_updates [simp]:
  "entry_at (s\<lparr>sc_pending := p\<rparr>) b = entry_at s b"
  "entry_at (s\<lparr>sc_ready := p\<rparr>) b = entry_at s b"
  "entry_at (s\<lparr>sc_schedule := p\<rparr>) b = entry_at s b"
  "entry_at (s\<lparr>sc_last_off := t\<rparr>) b = entry_at s b"
  by (simp_all add: entry_at_def)

text \<open>What the references of the three dictionaries satisfy between two turns.\<close>

definition sched_ok :: "sched \<Rightarrow> bool" where
  "sched_ok s \<longleftrightarrow>
     dwf (sc_pending s) \<and> dwf (sc_schedule s) \<and> inj_on snd (set (sc_pending s)) \<and>
     (\<forall>(k, a) \<in> set (sc_pending s) \<union> set (sc_schedule s). a < length (sc_objs s))"

text \<open>What holds of \<open>ready\<close> once it is filled: its entries are those of \<open>pending\<close>.\<close>

definition ready_ok :: "sched \<Rightarrow> bool" where
  "ready_ok s \<longleftrightarrow> dwf (sc_ready s) \<and> set (sc_ready s) \<subseteq> set (sc_pending s)"

lemma sched_ok_ref: "sched_ok s \<Longrightarrow> (k, a) \<in> set (sc_pending s) \<Longrightarrow> a < length (sc_objs s)"
  by (auto simp: sched_ok_def)

lemma sched_ok_inj:
  "sched_ok s \<Longrightarrow> (k, a) \<in> set (sc_pending s) \<Longrightarrow> (k', a) \<in> set (sc_pending s) \<Longrightarrow> k = k'"
  unfolding sched_ok_def by (metis Pair_inject inj_onD snd_conv)

lemma sched_ok_frame:
  "sched_ok s \<Longrightarrow> sc_pending s' = sc_pending s \<Longrightarrow> sc_schedule s' = sc_schedule s \<Longrightarrow>
     length (sc_objs s') = length (sc_objs s) \<Longrightarrow> sched_ok s'"
  by (simp add: sched_ok_def)

lemma dset_key_only: "dwf d \<Longrightarrow> (k, w) \<in> set (dset d k v) \<Longrightarrow> w = v"
  using dget_in_wf[OF dwf_dset, of d k w k v] by (simp add: dget_dset)

subsection \<open>Rebuilding pending\<close>

lemma add_pending_ok: "sched_ok s \<Longrightarrow> sched_ok (add_pending r t s)"
proof -
  assume ok: "sched_ok s"
  let ?k = "int_to_string (r_entry_no r)" and ?n = "length (sc_objs s)"
  have wf: "dwf (dset (sc_pending s) ?k ?n)" using ok by (simp add: sched_ok_def)
  have sub: "set (dset (sc_pending s) ?k ?n) \<subseteq> insert (?k, ?n) (set (sc_pending s))"
    by (rule set_dset_subset)
  have bound: "\<And>k a. (k, a) \<in> set (sc_pending s) \<Longrightarrow> a < ?n" using ok by (auto simp: sched_ok_def)
  have "inj_on snd (set (dset (sc_pending s) ?k ?n))"
  proof (rule inj_onI)
    fix x y assume x: "x \<in> set (dset (sc_pending s) ?k ?n)" and y: "y \<in> set (dset (sc_pending s) ?k ?n)"
      and eq: "snd x = snd y"
    from ok have inj: "inj_on snd (set (sc_pending s))" by (simp add: sched_ok_def)
    from x y sub have "x = (?k, ?n) \<or> x \<in> set (sc_pending s)" "y = (?k, ?n) \<or> y \<in> set (sc_pending s)" by auto
    then show "x = y" using eq bound inj by (cases x; cases y) (auto, metis Pair_inject inj_onD snd_conv)
  qed
  with ok wf sub show ?thesis unfolding sched_ok_def add_pending_def
    by (auto simp: less_Suc_eq)
qed

lemma parse_rows_ok: "sched_ok s \<Longrightarrow> parse_rows setup now rs s = (x, s') \<Longrightarrow> sched_ok s'"
proof (induction rs arbitrary: s)
  case (Cons r rs)
  obtain b t where n: "row_next setup now r = Inr (b, t) \<or> (\<exists>e. row_next setup now r = Inl e)"
    by (cases "row_next setup now r") auto
  have "sched_ok (if b then add_pending r t s else s)" using Cons.prems add_pending_ok by simp
  with Cons n show ?case by auto
qed simp

lemma parse_db_ok: "sched_ok s \<Longrightarrow> parse_db setup now s = (x, s') \<Longrightarrow> sched_ok s'"
  unfolding parse_db_def by (rule parse_rows_ok) (auto simp: sched_ok_def)

lemma parse_rows_schedule:
  "parse_rows setup now rs s = (x, s') \<Longrightarrow> sc_schedule s' = sc_schedule s \<and> sc_ready s' = sc_ready s"
proof (induction rs arbitrary: s)
  case (Cons r rs)
  obtain b t where n: "row_next setup now r = Inr (b, t) \<or> (\<exists>e. row_next setup now r = Inl e)"
    by (cases "row_next setup now r") auto
  have "sc_schedule (add_pending r t s) = sc_schedule s" "sc_ready (add_pending r t s) = sc_ready s"
    by (simp_all add: add_pending_def)
  with Cons.prems n Cons.IH[of "if b then add_pending r t s else s"] show ?case by (cases b) auto
qed simp

subsection \<open>Filling ready\<close>

definition pend_inv :: "instant \<Rightarrow> sched \<Rightarrow> sched \<times> bool \<Rightarrow> bool" where
  "pend_inv due_t s0 sr \<longleftrightarrow>
     (case sr of (s, reparse) \<Rightarrow>
        sched_ok s \<and> ready_ok s \<and> sc_pending s = sc_pending s0 \<and> sc_schedule s = sc_schedule s0 \<and>
        (sc_ready s \<noteq> [] \<longrightarrow> \<not> reparse) \<and>
        (\<forall>a. e_sched_list (entry_at s a) = e_sched_list (entry_at s0 a) \<and>
             e_isco (entry_at s a) = e_isco (entry_at s0 a) \<and>
             (e_sched_status (entry_at s a) = None \<longrightarrow> e_sched_status (entry_at s0 a) = None)) \<and>
        (\<forall>(k, a) \<in> set (sc_ready s). instant_of (e_sched_list (entry_at s a)) = Inr due_t \<and>
             e_sched_status (entry_at s0 a) = None))"

lemma entry_at_upd_field:
  assumes "\<And>e. g (f e) = g e"
  shows "g (entry_at (upd_entry a f s) b) = g (entry_at s b)"
proof (cases "b < length (sc_objs s)")
  case True
  then show ?thesis by (simp add: entry_at_upd assms)
next
  case False
  then show ?thesis by (cases "b = a") (simp_all add: entry_at_def upd_entry_def list_update_beyond)
qed


lemma pend_step_inv:
  assumes inv: "pend_inv due_t s0 sr" and ka: "ka \<in> set (sc_pending s0)"
    and due_t: "due_t = floor_minute (now + cf_setup cf)"
  shows "pend_inv due_t s0 (pend_step cf now state ka sr)"
proof -
  obtain k a where k: "ka = (k, a)" by (cases ka)
  obtain s reparse where s: "sr = (s, reparse)" by (cases sr)
  let ?s1 = "upd_entry a (\<lambda>e. e\<lparr>e_sched_status := Some ''scheduled''\<rparr>) (s\<lparr>sc_ready := dset (sc_ready s) k a\<rparr>)"
  have ok: "sched_ok s" "ready_ok s" "sc_pending s = sc_pending s0" "sc_schedule s = sc_schedule s0"
    using inv s by (auto simp: pend_inv_def)
  have new: "pend_inv due_t s0 (?s1, False)"
    if due: "instant_of (e_sched_list (entry_at s a)) = Inr due_t" and st: "e_sched_status (entry_at s a) = None"
  proof -
    have sub: "set (dset (sc_ready s) k a) \<subseteq> insert (k, a) (set (sc_ready s))" by (rule set_dset_subset)
    have r: "ready_ok ?s1" using ok ka k sub by (auto simp: ready_ok_def)
    have lst: "\<And>b. e_sched_list (entry_at ?s1 b) = e_sched_list (entry_at s b)"
      and isco: "\<And>b. e_isco (entry_at ?s1 b) = e_isco (entry_at s b)"
      by (simp_all add: entry_at_upd_field)
    have stat: "e_sched_status (entry_at s b) = None" if "e_sched_status (entry_at ?s1 b) = None" for b
    proof (cases "a = b \<and> b < length (sc_objs s)")
      case True
      with that show ?thesis by (simp add: upd_entry_def entry_at_def)
    next
      case False
      with that show ?thesis
        by (cases "a = b") (auto simp: upd_entry_def entry_at_def list_update_beyond)
    qed
    have o: "sched_ok ?s1" by (rule sched_ok_frame[OF ok(1)]) auto
    have pre: "\<forall>b. e_sched_list (entry_at s b) = e_sched_list (entry_at s0 b) \<and>
             e_isco (entry_at s b) = e_isco (entry_at s0 b) \<and>
             (e_sched_status (entry_at s b) = None \<longrightarrow> e_sched_status (entry_at s0 b) = None)"
      and rdy: "\<forall>(k, b) \<in> set (sc_ready s). instant_of (e_sched_list (entry_at s b)) = Inr due_t \<and>
             e_sched_status (entry_at s0 b) = None"
      using inv unfolding s pend_inv_def prod.case by blast+
    have "\<forall>(k, b) \<in> insert (k, a) (set (sc_ready s)). instant_of (e_sched_list (entry_at s b)) = Inr due_t \<and>
             e_sched_status (entry_at s0 b) = None"
      using rdy due st pre by simp
    then have all: "\<forall>(k, b) \<in> set (sc_ready ?s1). instant_of (e_sched_list (entry_at ?s1 b)) = Inr due_t \<and>
             e_sched_status (entry_at s0 b) = None"
      using sub unfolding lst by auto
    have frame: "sc_pending ?s1 = sc_pending s0" "sc_schedule ?s1 = sc_schedule s0" using ok by simp_all
    have fields: "\<forall>b. e_sched_list (entry_at ?s1 b) = e_sched_list (entry_at s0 b) \<and>
             e_isco (entry_at ?s1 b) = e_isco (entry_at s0 b) \<and>
             (e_sched_status (entry_at ?s1 b) = None \<longrightarrow> e_sched_status (entry_at s0 b) = None)"
      unfolding lst isco using pre stat by blast
    show ?thesis unfolding pend_inv_def prod.case using o r frame fields all by blast
  qed
  have keep: "pend_inv due_t s0 (s, False)" "pend_inv due_t s0 (s\<lparr>sc_last_off := now\<rparr>, reparse)"
    using inv s by (auto simp: pend_inv_def sched_ok_def ready_ok_def)
  show ?thesis
    using new keep inv unfolding pend_step_def k s due_t
    by (auto simp: Let_def split: sum.split)
qed

lemma pend_loop_inv:
  assumes "sched_ok s" "sc_ready s = []"
  shows "pend_inv (floor_minute (now + cf_setup cf)) s (pend_loop cf now state s)"
  unfolding pend_loop_def
proof (rule fold_invariant[where Q = "\<lambda>ka. ka \<in> set (sc_pending s)"])
  show "pend_inv (floor_minute (now + cf_setup cf)) s (s, True)"
    using assms by (simp add: pend_inv_def ready_ok_def)
qed (simp_all add: pend_step_inv)


subsection \<open>Combining\<close>

text \<open>What the combination leaves alone, and what it only ever sets.\<close>

definition comb_le :: "sched \<Rightarrow> sched \<Rightarrow> bool" where
  "comb_le s s' \<longleftrightarrow>
     sc_pending s' = sc_pending s \<and> sc_ready s' = sc_ready s \<and> sc_schedule s' = sc_schedule s \<and>
     length (sc_objs s') = length (sc_objs s) \<and>
     (\<forall>a. e_sched_list (entry_at s' a) = e_sched_list (entry_at s a) \<and>
          e_isco (entry_at s' a) = e_isco (entry_at s a) \<and>
          (e_match (entry_at s a) \<longrightarrow> e_match (entry_at s' a)))"

lemma comb_le_refl [simp, intro]: "comb_le s s"
  by (simp add: comb_le_def)

lemma comb_le_trans: "comb_le s s' \<Longrightarrow> comb_le s' s'' \<Longrightarrow> comb_le s s''"
  by (simp add: comb_le_def)

lemma comb_le_ready: "comb_le s s' \<Longrightarrow> sc_ready s' = sc_ready s"
  by (simp add: comb_le_def)

lemma comb_le_upd:
  assumes "\<And>e. e_sched_list (f e) = e_sched_list e" "\<And>e. e_isco (f e) = e_isco e"
    and "\<And>e. e_match e \<Longrightarrow> e_match (f e)"
  shows "comb_le s (upd_entry a f s)"
proof -
  have "e_match (entry_at (upd_entry a f s) b)" if "e_match (entry_at s b)" for b
    using that assms(3)
    by (cases "a = b"; cases "b < length (sc_objs s)") (auto simp: upd_entry_def entry_at_def list_update_beyond)
  then show ?thesis using assms(1,2) by (simp add: comb_le_def entry_at_upd_field)
qed

definition lookup_ok :: "sched \<Rightarrow> bool" where
  "lookup_ok s \<longleftrightarrow> (\<forall>(k, a) \<in> set (sc_ready s). dget (sc_pending s) k = Some a \<and>
      dget (sc_ready s) k = Some a \<and> a < length (sc_objs s))"

lemma lookup_okI: "sched_ok s \<Longrightarrow> ready_ok s \<Longrightarrow> lookup_ok s"
  by (auto simp: lookup_ok_def sched_ok_def ready_ok_def dget_in_wf)

lemma lookup_ok_le: "lookup_ok s \<Longrightarrow> comb_le s s' \<Longrightarrow> lookup_ok s'"
  by (simp add: lookup_ok_def comb_le_def)

lemma combine_pair_le:
  assumes "lookup_ok s" "o_item \<in> set (sc_ready s)" "i_item \<in> set (sc_ready s)"
  shows "\<exists>s'. combine_pair cf now o_item i_item (None, s) = (None, s') \<and> comb_le s s'"
proof -
  obtain ko ao ki ai where o: "o_item = (ko, ao)" "i_item = (ki, ai)" by (metis surj_pair)
  with assms have l: "dget (sc_pending s) ki = Some ai" "dget (sc_ready s) ko = Some ao"
    by (auto simp: lookup_ok_def)
  let ?s1 = "upd_entry ai (\<lambda>e. e\<lparr>e_match := True\<rparr>) s"
  let ?s2 = "upd_entry ai (\<lambda>e. e\<lparr>e_sched_status := None\<rparr>) ?s1"
  have "comb_le s ?s1" "comb_le ?s1 ?s2" by (rule comb_le_upd; simp)+
  moreover have "comb_le ?s2 (upd_entry ao (merge_into cf now (entry_at s ai)) ?s2)"
    by (rule comb_le_upd) (simp_all add: merge_into_def)
  moreover have "?s2\<lparr>sc_ready := dset (sc_ready ?s2) ko ao\<rparr> = ?s2" using l(2) by (simp add: dset_same)
  ultimately show ?thesis
    using l by (auto simp: combine_pair_def o Let_def intro: comb_le_trans)
qed

lemma combine_pair_match:
  assumes "lookup_ok s" "(ko, ao) \<in> set (sc_ready s)" "(ki, ai) \<in> set (sc_ready s)"
    and "combine_pair cf now (ko, ao) (ki, ai) (None, s) = (None, s')"
    and "ko \<noteq> ki" "\<not> e_isco (entry_at s ao)" "\<not> e_isco (entry_at s ai)"
    and "e_sched_list (entry_at s ao) = e_sched_list (entry_at s ai)"
  shows "e_match (entry_at s' ai)"
proof (cases "e_match (entry_at s ai)")
  case True
  with assms(4) show ?thesis by (simp add: combine_pair_def Let_def)
next
  case False
  from assms(1,3) have l: "dget (sc_pending s) ki = Some ai" "ai < length (sc_objs s)"
    by (auto simp: lookup_ok_def)
  from assms(1,2) have l2: "ao < length (sc_objs s)" by (auto simp: lookup_ok_def)
  from assms(4) False l assms(5-8) show ?thesis
    by (auto simp: combine_pair_def Let_def entry_at_upd merge_into_def l2)
qed

lemma combine_inner:
  assumes "lookup_ok s" "o_item \<in> set (sc_ready s)" "set items \<subseteq> set (sc_ready s)"
  shows "\<exists>s'. fold (combine_pair cf now o_item) items (None, s) = (None, s') \<and> comb_le s s' \<and>
     (\<forall>(k, a) \<in> set items. k \<noteq> fst o_item \<longrightarrow> \<not> e_isco (entry_at s (snd o_item)) \<longrightarrow>
        \<not> e_isco (entry_at s a) \<longrightarrow> e_sched_list (entry_at s (snd o_item)) = e_sched_list (entry_at s a) \<longrightarrow>
        e_match (entry_at s' a))"
  using assms
proof (induction items arbitrary: s)
  case Nil
  then show ?case by auto
next
  case (Cons i items)
  obtain s1 where s1: "combine_pair cf now o_item i (None, s) = (None, s1)" "comb_le s s1"
    using combine_pair_le[OF Cons.prems(1,2), of i] Cons.prems(3) by (metis list.set_intros(1) subsetD)
  have p: "lookup_ok s1" "o_item \<in> set (sc_ready s1)" "set items \<subseteq> set (sc_ready s1)"
    using Cons.prems s1(2) lookup_ok_le comb_le_ready[OF s1(2)] by auto
  obtain s2 where s2: "fold (combine_pair cf now o_item) items (None, s1) = (None, s2)" "comb_le s1 s2"
      "\<forall>(k, a) \<in> set items. k \<noteq> fst o_item \<longrightarrow> \<not> e_isco (entry_at s1 (snd o_item)) \<longrightarrow>
        \<not> e_isco (entry_at s1 a) \<longrightarrow> e_sched_list (entry_at s1 (snd o_item)) = e_sched_list (entry_at s1 a) \<longrightarrow>
        e_match (entry_at s2 a)"
    using Cons.IH[OF p] by blast
  obtain ko ao ki ai where o: "o_item = (ko, ao)" "i = (ki, ai)" by (metis surj_pair)
  have first: "ki \<noteq> ko \<Longrightarrow> \<not> e_isco (entry_at s ao) \<Longrightarrow> \<not> e_isco (entry_at s ai) \<Longrightarrow>
      e_sched_list (entry_at s ao) = e_sched_list (entry_at s ai) \<Longrightarrow> e_match (entry_at s2 ai)"
    using combine_pair_match[OF Cons.prems(1) _ _ s1(1)[unfolded o]] Cons.prems(2,3) s2(2)
    unfolding o comb_le_def by auto
  have "fold (combine_pair cf now o_item) (i # items) (None, s) = (None, s2)" "comb_le s s2"
    using s1 s2 by (auto intro: comb_le_trans)
  then show ?case
    using s2(3) s1(2) first unfolding o by (auto simp: comb_le_def)
qed

text \<open>Two entries of \<open>ready\<close> that compete for the same cast: not ISCO, due at the same time.\<close>

definition competing :: "sched \<Rightarrow> string \<times> entry_ref \<Rightarrow> string \<times> entry_ref \<Rightarrow> bool" where
  "competing s x y \<longleftrightarrow>
     fst x \<noteq> fst y \<and> \<not> e_isco (entry_at s (snd x)) \<and> \<not> e_isco (entry_at s (snd y)) \<and>
     e_sched_list (entry_at s (snd x)) = e_sched_list (entry_at s (snd y))"

lemma competing_le: "comb_le s s' \<Longrightarrow> competing s' x y = competing s x y"
  by (simp add: competing_def comb_le_def)

lemma combine_loop:
  assumes "lookup_ok s" "set items \<subseteq> set (sc_ready s)"
  shows "\<exists>s'. fold (combine_outer cf now) items (None, s) = (None, s') \<and> comb_le s s' \<and>
     (\<forall>x \<in> set items. \<forall>y \<in> set (sc_ready s). competing s x y \<longrightarrow>
        e_match (entry_at s' (snd x)) \<or> e_match (entry_at s' (snd y)))"
  using assms
proof (induction items arbitrary: s)
  case Nil
  then show ?case by auto
next
  case (Cons x items)
  have "\<exists>s1. combine_outer cf now x (None, s) = (None, s1) \<and> comb_le s s1 \<and>
      (\<forall>y \<in> set (sc_ready s). competing s x y \<longrightarrow> e_match (entry_at s1 (snd x)) \<or> e_match (entry_at s1 (snd y)))"
  proof (cases "e_match (entry_at s (snd x))")
    case True
    then show ?thesis by (auto simp: combine_outer_def)
  next
    case False
    then show ?thesis using combine_inner[OF Cons.prems(1), of x "sc_ready s" cf now] Cons.prems(2)
      by (fastforce simp: combine_outer_def competing_def)
  qed
  then obtain s1 where s1: "combine_outer cf now x (None, s) = (None, s1)" "comb_le s s1"
      "\<forall>y \<in> set (sc_ready s). competing s x y \<longrightarrow> e_match (entry_at s1 (snd x)) \<or> e_match (entry_at s1 (snd y))"
    by blast
  have r: "sc_ready s1 = sc_ready s" by (rule comb_le_ready[OF s1(2)])
  obtain s2 where s2: "fold (combine_outer cf now) items (None, s1) = (None, s2)" "comb_le s1 s2"
      "\<forall>x \<in> set items. \<forall>y \<in> set (sc_ready s1). competing s1 x y \<longrightarrow>
        e_match (entry_at s2 (snd x)) \<or> e_match (entry_at s2 (snd y))"
    using Cons.IH[of s1] lookup_ok_le[OF Cons.prems(1) s1(2)] Cons.prems(2) r by auto
  have "\<forall>y \<in> set (sc_ready s). competing s x y \<longrightarrow> e_match (entry_at s2 (snd x)) \<or> e_match (entry_at s2 (snd y))"
    using s1(3) s2(2) by (auto simp: comb_le_def)
  moreover have "comb_le s s2" by (rule comb_le_trans[OF s1(2) s2(2)])
  moreover have "\<forall>z \<in> set items. \<forall>y \<in> set (sc_ready s). competing s z y \<longrightarrow>
        e_match (entry_at s2 (snd z)) \<or> e_match (entry_at s2 (snd y))"
    using s2(3) by (simp add: r competing_le[OF s1(2)])
  ultimately show ?case using s1(1) s2(1) by auto
qed

lemma combine_correct:
  assumes "sched_ok s" "ready_ok s"
  shows "\<exists>s'. combine cf now s = (None, s') \<and> comb_le s s' \<and>
     (\<forall>x \<in> set (sc_ready s'). \<forall>y \<in> set (sc_ready s'). competing s' x y \<longrightarrow>
        e_match (entry_at s' (snd x)) \<or> e_match (entry_at s' (snd y)))"
proof -
  obtain s' where s': "combine cf now s = (None, s')" "comb_le s s'"
      "\<forall>x \<in> set (sc_ready s). \<forall>y \<in> set (sc_ready s). competing s x y \<longrightarrow>
        e_match (entry_at s' (snd x)) \<or> e_match (entry_at s' (snd y))"
    using combine_loop[OF lookup_okI[OF assms], of "sc_ready s" cf now] unfolding combine_def by auto
  then show ?thesis by (simp add: comb_le_ready competing_le)
qed

subsection \<open>Handing over\<close>

definition trans_inv :: "(string \<times> entry_ref) set \<Rightarrow> sched \<Rightarrow> sched \<Rightarrow> bool" where
  "trans_inv R s s' \<longleftrightarrow>
     sc_pending s' = sc_pending s \<and> sc_ready s' = sc_ready s \<and>
     length (sc_objs s') = length (sc_objs s) \<and> (dwf (sc_schedule s) \<longrightarrow> dwf (sc_schedule s')) \<and>
     (\<forall>a. e_sched_list (entry_at s' a) = e_sched_list (entry_at s a) \<and>
          e_isco (entry_at s' a) = e_isco (entry_at s a) \<and> e_match (entry_at s' a) = e_match (entry_at s a)) \<and>
     (\<forall>k a. dget (sc_schedule s) k = Some a \<longrightarrow> dget (sc_schedule s') k = Some a) \<and>
     (\<forall>k a. dget (sc_schedule s) k = None \<longrightarrow> dget (sc_schedule s') k = Some a \<longrightarrow>
        (k, a) \<in> R \<and> \<not> e_match (entry_at s a) \<and> e_action (entry_at s' a) = Some ''queued'')"

lemma transfer_one_inv:
  assumes inv: "trans_inv R s0 s" and ka: "ka \<in> R" and len: "\<forall>(k, a) \<in> R. a < length (sc_objs s0)"
  shows "trans_inv R s0 (transfer_one ka s)"
proof -
  obtain k a where k: "ka = (k, a)" by (cases ka)
  let ?s1 = "upd_entry a (\<lambda>e. e\<lparr>e_action := Some ''queued''\<rparr>) (s\<lparr>sc_schedule := dset (sc_schedule s) k a\<rparr>)"
  have al: "a < length (sc_objs s)" using inv ka len k by (auto simp: trans_inv_def)
  have "trans_inv R s0 ?s1" if new: "\<not> e_match (entry_at s a)" "dget (sc_schedule s) k = None"
  proof -
    have fields: "\<And>b. e_sched_list (entry_at ?s1 b) = e_sched_list (entry_at s b)"
      "\<And>b. e_isco (entry_at ?s1 b) = e_isco (entry_at s b)"
      "\<And>b. e_match (entry_at ?s1 b) = e_match (entry_at s b)" by (simp_all add: entry_at_upd_field)
    have act: "e_action (entry_at ?s1 b) = Some ''queued''"
      if "b = a \<or> e_action (entry_at s b) = Some ''queued''" for b
      using that al by (cases "b = a") (auto simp: upd_entry_def entry_at_def)
    show ?thesis
      using inv new ka k act unfolding trans_inv_def fields
      by (simp add: dict_simps) (metis option.distinct(1))
  qed
  with inv show ?thesis by (auto simp: transfer_one_def k dict_simps)
qed

lemma transfer_inv:
  assumes "\<forall>(k, a) \<in> set (sc_ready s). a < length (sc_objs s)"
  shows "trans_inv (set (sc_ready s)) s (transfer s)"
  unfolding transfer_def
  by (rule fold_invariant[where Q = "\<lambda>ka. ka \<in> set (sc_ready s)"])
    (simp_all add: transfer_one_inv assms, simp add: trans_inv_def)

subsection \<open>Removal\<close>

lemma purge_flag: "snd (purge mt now ks (s, True))"
  by (induction ks arbitrary: s) (auto split: option.split simp: Let_def)

lemma purge_frame:
  "purge mt now ks (s, b) = (s', b') \<Longrightarrow>
     sc_objs s' = sc_objs s \<and> sc_pending s' = sc_pending s \<and> sc_ready s' = sc_ready s \<and>
     (dwf (sc_schedule s) \<longrightarrow> dwf (sc_schedule s')) \<and> sc_select s' = sc_select s \<and>
     set (sc_schedule s') \<subseteq> set (sc_schedule s) \<and> (\<not> b' \<longrightarrow> s' = s)"
proof (induction ks arbitrary: s b)
  case Nil
  then show ?case by simp
next
  case (Cons k ks)
  show ?case
  proof (cases "dget (sc_schedule s) k")
    case None
    with Cons.prems have "purge mt now ks (s, b) = (s', b')" by simp
    from Cons.IH[OF this] show ?thesis .
  next
    case (Some a)
    let ?e = "entry_at s a"
    let ?gone = "e_action ?e = Some ''done'' \<or> now - (case e_insert ?e of None \<Rightarrow> now | Some t \<Rightarrow> t) \<ge> mt"
    show ?thesis
    proof (cases ?gone)
      case True
      with Cons.prems Some have "purge mt now ks (s\<lparr>sc_schedule := dpop (sc_schedule s) k\<rparr>, True) = (s', b')"
        by (simp add: Let_def)
      note ih = Cons.IH[OF this] and eq = this
      have "b'" using purge_flag[of mt now ks] unfolding eq snd_conv by (metis eq snd_conv)
      moreover have "set (dpop (sc_schedule s) k) \<subseteq> set (sc_schedule s)" by (auto simp: dpop_def AList.delete_eq)
      ultimately show ?thesis using ih by auto
    next
      case False
      with Cons.prems Some have "purge mt now ks (s, b) = (s', b')" by (simp add: Let_def)
      from Cons.IH[OF this] show ?thesis .
    qed
  qed
qed

lemma purge_ok: "sched_ok s \<Longrightarrow> purge mt now ks (s, b) = (s', b') \<Longrightarrow> sched_ok s'"
  using purge_frame[of mt now ks s b s' b'] by (auto simp: sched_ok_def)

lemma purge_keeps:
  assumes "dget (sc_schedule s) k = Some a" "e_insert (entry_at s a) = None"
    and "e_action (entry_at s a) \<noteq> Some ''done''" "0 < mt"
  shows "dget (sc_schedule (fst (purge mt now ks (s, b)))) k = Some a"
  using assms
proof (induction ks arbitrary: s b)
  case Nil
  then show ?case by simp
next
  case (Cons k' ks)
  show ?case
  proof (cases "dget (sc_schedule s) k'")
    case None
    with Cons.IH[OF Cons.prems] show ?thesis by simp
  next
    case (Some a')
    let ?s1 = "s\<lparr>sc_schedule := dpop (sc_schedule s) k'\<rparr>"
    have "dget (sc_schedule (fst (purge mt now ks (?s1, True)))) k = Some a" if "k' \<noteq> k"
      by (rule Cons.IH) (use Cons.prems that in \<open>auto simp: dict_simps\<close>)
    moreover have "dget (sc_schedule (fst (purge mt now ks (s, b)))) k = Some a"
      by (rule Cons.IH[OF Cons.prems])
    moreover have "a' = a" if "k' = k" using Some that Cons.prems(1) by simp
    ultimately show ?thesis using Some Cons.prems by (cases "k' = k") (auto simp: Let_def)
  qed
qed

section \<open>A turn as a whole\<close>

lemma combine_None: "sched_ok s \<Longrightarrow> ready_ok s \<Longrightarrow> combine cf now s = (x, s') \<Longrightarrow> x = None \<and> comb_le s s' \<and>
     (\<forall>x \<in> set (sc_ready s'). \<forall>y \<in> set (sc_ready s'). competing s' x y \<longrightarrow>
        e_match (entry_at s' (snd x)) \<or> e_match (entry_at s' (snd y)))"
  using combine_correct[of s cf now] by auto

text \<open>
  The two ways a turn ends: without new casts in the schedule, or after all of the phases.
  \<open>full_turn\<close> collects what the phases establish on the second way.
\<close>

definition full_turn :: "sched_cfg \<Rightarrow> instant \<Rightarrow> sched \<Rightarrow> sched \<Rightarrow> bool" where
  "full_turn cf now s0 s' \<longleftrightarrow>
     (\<exists>s3 s4. sched_ok s3 \<and> ready_ok s3 \<and> sc_schedule s3 = sc_schedule s0 \<and>
        (\<forall>(k, a) \<in> set (sc_ready s3). instant_of (e_sched_list (entry_at s3 a)) = Inr (floor_minute (now + cf_setup cf))) \<and>
        comb_le s3 s4 \<and>
        (\<forall>x \<in> set (sc_ready s4). \<forall>y \<in> set (sc_ready s4). competing s4 x y \<longrightarrow>
           e_match (entry_at s4 (snd x)) \<or> e_match (entry_at s4 (snd y))) \<and>
        trans_inv (set (sc_ready s4)) s4 s')"

lemma sched_turn_cases:
  assumes "sched_ok s0" "sched_turn cf ev s0 = (x, b, s')"
  shows "sched_ok s' \<and> (full_turn cf (ev_now ev) s0 s' \<or>
           (\<forall>k a. dget (sc_schedule s') k = Some a \<longrightarrow> dget (sc_schedule s0) k = Some a)) \<and>
         (\<forall>k a. dget (sc_schedule (fst (purge (cf_max_scheduled cf) (ev_now ev) (dkeys (sc_schedule s0))
              (s0\<lparr>sc_ready := []\<rparr>, False)))) k = Some a \<longrightarrow> dget (sc_schedule s') k = Some a)"
proof -
  let ?now = "ev_now ev"
  obtain s1 r1 where p: "purge (cf_max_scheduled cf) ?now (dkeys (sc_schedule s0)) (s0\<lparr>sc_ready := []\<rparr>, False) = (s1, r1)"
    by fastforce
  have ok0: "sched_ok (s0\<lparr>sc_ready := []\<rparr>)" using assms(1) by (rule sched_ok_frame) auto
  have ok1: "sched_ok s1" by (rule purge_ok[OF ok0 p])
  note f1 = purge_frame[OF p]
  have sub1: "dget (sc_schedule s0) k = Some a" if "dget (sc_schedule s1) k = Some a" for k a
  proof -
    have "(k, a) \<in> set (sc_schedule s0)" using dget_SomeD[OF that] f1 by auto
    with assms(1) show ?thesis by (auto simp: sched_ok_def intro: dget_in_wf)
  qed
  show ?thesis
  proof (cases r1)
    case True
    obtain s2 where "parse_db (cf_setup cf) ?now s1 = (x, s2)" "s' = s2"
      using assms(2) True p by (auto simp: sched_turn_def split: prod.splits)
    moreover from this(1) have "sc_schedule s2 = sc_schedule s1"
      unfolding parse_db_def by (drule_tac parse_rows_schedule) simp
    ultimately show ?thesis using parse_db_ok[OF ok1] sub1 p by auto
  next
    case False
    with f1 have s1: "s1 = s0\<lparr>sc_ready := []\<rparr>" by simp
    define y where "y = (if ev_poll ev = Inr True
        then (case ev_rows ev of Inl e \<Rightarrow> (Some e, s1) | Inr rows \<Rightarrow> load_db (cf_setup cf) ?now rows s1)
        else (None, s1))"
    obtain x2 s2 where y: "y = (x2, s2)" by (cases y)
    have s2: "sched_ok s2 \<and> sc_schedule s2 = sc_schedule s0 \<and> sc_ready s2 = []"
    proof (cases "\<exists>rows. ev_poll ev = Inr True \<and> ev_rows ev = Inr rows")
      case True
      then obtain rows where "parse_db (cf_setup cf) ?now (s1\<lparr>sc_select := rows\<rparr>) = (x2, s2)"
        using y by (auto simp: y_def load_db_def)
      moreover have "sched_ok (s1\<lparr>sc_select := rows\<rparr>)" by (rule sched_ok_frame[OF ok1]) auto
      moreover have "sc_schedule s2 = sc_schedule s1 \<and> sc_ready s2 = sc_ready s1"
        using calculation(1) unfolding parse_db_def by (drule_tac parse_rows_schedule) simp
      ultimately show ?thesis using parse_db_ok s1 by auto
    next
      case False
      with y ok1 s1 show ?thesis by (auto simp: y_def split: if_splits sum.splits)
    qed
    have turn: "(x, b, s') = (case x2 of Some e \<Rightarrow> (Some e, False, s2)
               | None \<Rightarrow>
                   let (s3, reparse) = pend_loop cf ?now (ev_state ev) s2
                   in if reparse \<and> sc_ready s3 \<noteq> []
                      then (case parse_db (cf_setup cf) ?now s3 of (x, s4) \<Rightarrow> (x, False, s4))
                      else if sc_ready s3 \<noteq> []
                      then (case combine cf ?now s3 of (Some e, s4) \<Rightarrow> (Some e, False, s4)
                            | (None, s4) \<Rightarrow> (None, True, transfer s4))
                      else (None, True, s3))"
      using assms(2) False p y[unfolded y_def] unfolding sched_turn_def Let_def by simp
    show ?thesis
    proof (cases x2)
      case (Some e)
      with turn s2 p s1 show ?thesis by simp
    next
      case None
      obtain s3 r3 where l: "pend_loop cf ?now (ev_state ev) s2 = (s3, r3)" by fastforce
      have inv: "pend_inv (floor_minute (?now + cf_setup cf)) s2 (s3, r3)"
        using pend_loop_inv[of s2 ?now cf "ev_state ev"] s2 l by simp
      then have ok3: "sched_ok s3" "ready_ok s3" "sc_schedule s3 = sc_schedule s0" "sc_ready s3 \<noteq> [] \<longrightarrow> \<not> r3"
        and due: "\<forall>(k, a) \<in> set (sc_ready s3). instant_of (e_sched_list (entry_at s3 a)) = Inr (floor_minute (?now + cf_setup cf))"
        using s2 unfolding pend_inv_def by auto
      show ?thesis
      proof (cases "sc_ready s3 = []")
        case True
        with turn None l ok3 p s1 show ?thesis by simp
      next
        case False
        obtain x4 s4 where c: "combine cf ?now s3 = (x4, s4)" by fastforce
        note c4 = combine_None[OF ok3(1,2) c]
        have s': "s' = transfer s4" using turn None l ok3(4) False c c4 by simp
        have ok4: "sched_ok s4" using c4 by (intro sched_ok_frame[OF ok3(1)]) (auto simp: comb_le_def)
        have "\<forall>(k, a) \<in> set (sc_ready s4). a < length (sc_objs s4)"
          using c4 lookup_ok_le[OF lookup_okI[OF ok3(1,2)], of s4] unfolding lookup_ok_def by fast
        note t = transfer_inv[OF this]
        have "sched_ok s'"
          unfolding s' sched_ok_def
        proof (intro conjI ballI)
          fix z assume z: "z \<in> set (sc_pending (transfer s4)) \<union> set (sc_schedule (transfer s4))"
          obtain k a where ka: "z = (k, a)" by (cases z)
          have wf: "dwf (sc_schedule (transfer s4))" using t ok4 by (simp add: trans_inv_def sched_ok_def)
          have "(k, a) \<in> set (sc_pending s4) \<union> set (sc_schedule s4) \<union> set (sc_ready s4)"
          proof (cases "(k, a) \<in> set (sc_pending (transfer s4))")
            case False
            with z ka wf have "dget (sc_schedule (transfer s4)) k = Some a" by (auto intro: dget_in_wf)
            with t show ?thesis by (cases "dget (sc_schedule s4) k") (auto simp: trans_inv_def dest: dget_SomeD)
          qed (use t in \<open>simp add: trans_inv_def\<close>)
          with ok4 \<open>\<forall>(k, a) \<in> set (sc_ready s4). a < length (sc_objs s4)\<close> t
          show "case z of (k, a) \<Rightarrow> a < length (sc_objs (transfer s4))"
            unfolding ka by (auto simp: sched_ok_def trans_inv_def)
        qed (use t ok4 in \<open>auto simp: trans_inv_def sched_ok_def\<close>)
        moreover have "full_turn cf ?now s0 s'"
          unfolding full_turn_def s' using ok3 due c4 t by blast
        moreover have "dget (sc_schedule s') k = Some a" if "dget (sc_schedule s0) k = Some a" for k a
          using that t ok3 c4 unfolding s' by (simp add: trans_inv_def comb_le_def)
        ultimately show ?thesis using p s1 by simp
      qed
    qed
  qed
qed

text \<open>Removal is the only phase that takes casts out of the schedule.\<close>

lemma sched_turn_keeps:
  assumes "sched_ok s0" "sched_turn cf ev s0 = (x, b, s')"
    and "dget (sc_schedule (fst (purge (cf_max_scheduled cf) (ev_now ev) (dkeys (sc_schedule s0)) (s0\<lparr>sc_ready := []\<rparr>, False)))) k = Some a"
  shows "dget (sc_schedule s') k = Some a"
  using sched_turn_cases[OF assms(1,2)] assms(3) by blast

section \<open>Properties\<close>

text \<open>A regular row and a LISST row for 8:00 and 20:00, both pending for 20:00.\<close>

definition demo_cfg :: sched_cfg where
  "demo_cfg = \<lparr>cf_setup = seconds 180, cf_max_scheduled = seconds 3600, cf_off_freq = seconds 14400\<rparr>"

definition demo_sched :: sched where
  "demo_sched = \<lparr>sc_objs = [new_entry noon_row (Civil 2024 3 1 20 0), new_entry (noon_row\<lparr>r_lisst := True\<rparr>) (Civil 2024 3 1 20 0)],
     sc_pending = [(''1'', 0), (''2'', 1)], sc_ready = [], sc_schedule = [], sc_select = [], sc_last_off = 0\<rparr>"

text \<open>19:57 of the same day, when the casts of 20:00 are due.\<close>

definition demo_env :: sched_env where
  "demo_env = \<lparr>ev_now = march_first + seconds (10 * 3600 + 27 * 60), ev_state = ''on'', ev_poll = Inr False, ev_rows = Inr []\<rparr>"

definition demo_after :: sched where
  "demo_after = snd (snd (sched_turn demo_cfg demo_env demo_sched))"

lemma demo_sched_ok: "sched_ok demo_sched"
  by (simp add: sched_ok_def demo_sched_def dwf_def)

lemma demo_turn: "sched_turn demo_cfg demo_env demo_sched =
    (fst (sched_turn demo_cfg demo_env demo_sched), fst (snd (sched_turn demo_cfg demo_env demo_sched)), demo_after)"
  by (simp add: demo_after_def)

lemma demo_schedule:
  "dget (sc_schedule demo_after) ''1'' = Some 0 \<and> dget (sc_schedule demo_after) ''2'' = None"
  "dget (sc_schedule demo_sched) ''1'' = None"
  "\<not> e_isco (entry_at demo_after 0) \<and> e_lisst (entry_at demo_after 0)"
  by code_simp+

text \<open>
  C3. A cast enters the launcher's schedule only in the minute in which it is due: its
  scheduled time is the present minute plus the setup time. It enters as queued.
\<close>

theorem turn_queues_due:
  assumes "sched_ok s0" "sched_turn cf ev s0 = (x, b, s')"
    and "dget (sc_schedule s') k = Some a" "dget (sc_schedule s0) k = None"
  shows "instant_of (e_sched_list (entry_at s' a)) = Inr (floor_minute (ev_now ev + cf_setup cf)) \<and>
         e_action (entry_at s' a) = Some ''queued''"
proof -
  have "full_turn cf (ev_now ev) s0 s'" using sched_turn_cases[OF assms(1,2)] assms(3,4) by auto
  then obtain s3 s4 where st: "sc_schedule s3 = sc_schedule s0" "comb_le s3 s4"
      "trans_inv (set (sc_ready s4)) s4 s'"
      "\<forall>(k, a) \<in> set (sc_ready s3). instant_of (e_sched_list (entry_at s3 a)) = Inr (floor_minute (ev_now ev + cf_setup cf))"
    unfolding full_turn_def by blast
  then have "(k, a) \<in> set (sc_ready s3)" "e_action (entry_at s' a) = Some ''queued''"
    using assms(3,4) by (auto simp: trans_inv_def comb_le_def)
  with st show ?thesis by (auto simp: trans_inv_def comb_le_def)
qed

theorem turn_queues_due_witness:
  "instant_of (e_sched_list (entry_at demo_after 0)) = Inr (floor_minute (ev_now demo_env + cf_setup demo_cfg)) \<and>
   e_action (entry_at demo_after 0) = Some ''queued''"
  using turn_queues_due[OF demo_sched_ok demo_turn] demo_schedule by blast

text \<open>
  Casts due together are combined: of the casts one turn adds to the schedule, at most one
  is not an ISCO cast, so that the launcher never meets two of them unless an older one waits.
\<close>

theorem turn_one_regular:
  assumes "sched_ok s0" "sched_turn cf ev s0 = (x, b, s')"
    and "dget (sc_schedule s') k = Some a" "dget (sc_schedule s0) k = None" "\<not> e_isco (entry_at s' a)"
    and "dget (sc_schedule s') l = Some c" "dget (sc_schedule s0) l = None" "\<not> e_isco (entry_at s' c)"
  shows "k = l"
proof (rule ccontr)
  assume kl: "k \<noteq> l"
  have "full_turn cf (ev_now ev) s0 s'" using sched_turn_cases[OF assms(1,2)] assms(3,4) by auto
  then obtain s3 s4 where st: "sc_schedule s3 = sc_schedule s0" "comb_le s3 s4"
      "trans_inv (set (sc_ready s4)) s4 s'"
      "\<forall>(k, a) \<in> set (sc_ready s3). instant_of (e_sched_list (entry_at s3 a)) = Inr (floor_minute (ev_now ev + cf_setup cf))"
      "\<forall>x \<in> set (sc_ready s4). \<forall>y \<in> set (sc_ready s4). competing s4 x y \<longrightarrow>
           e_match (entry_at s4 (snd x)) \<or> e_match (entry_at s4 (snd y))"
    unfolding full_turn_def by blast
  then have r: "(k, a) \<in> set (sc_ready s4)" "(l, c) \<in> set (sc_ready s4)"
      "\<not> e_match (entry_at s4 a)" "\<not> e_match (entry_at s4 c)"
      "\<not> e_isco (entry_at s4 a)" "\<not> e_isco (entry_at s4 c)"
    using assms(3-8) by (auto simp: trans_inv_def comb_le_def)
  then have "e_sched_list (entry_at s4 a) = e_sched_list (entry_at s4 c)"
    using st(2,4) by (auto simp: comb_le_def intro: instant_of_inj)
  with r kl have "competing s4 (k, a) (l, c)" by (simp add: competing_def)
  with st(5) r show False by fastforce
qed

theorem turn_one_regular_witness: "''1'' = ''1'' \<and> dget (sc_schedule demo_after) ''1'' = Some 0"
  using turn_one_regular[OF demo_sched_ok demo_turn, of "''1''" 0 "''1''" 0] demo_schedule by simp

text \<open>
  The limit MAX_SCHEDULED_TIME does not apply to a cast that was not merged with another
  one: without an insert time it stays in the schedule, however late it is, until it is done.
\<close>

theorem unmerged_never_expires:
  assumes "sched_ok s0" "sched_turn cf ev s0 = (x, b, s')" "0 < cf_max_scheduled cf"
    and "dget (sc_schedule s0) k = Some a" "e_insert (entry_at s0 a) = None"
    and "e_action (entry_at s0 a) \<noteq> Some ''done''"
  shows "dget (sc_schedule s') k = Some a"
  using sched_turn_keeps[OF assms(1,2)] purge_keeps[of "s0\<lparr>sc_ready := []\<rparr>" k a "cf_max_scheduled cf"] assms(3-6)
  by simp

definition late_sched :: sched where
  "late_sched = \<lparr>sc_objs = [(new_entry noon_row (Civil 2024 2 1 20 0))\<lparr>e_action := Some ''queued''\<rparr>],
     sc_pending = [(''1'', 0)], sc_ready = [], sc_schedule = [(''1'', 0)], sc_select = [], sc_last_off = 0\<rparr>"

theorem unmerged_never_expires_witness:
  "dget (sc_schedule (snd (snd (sched_turn demo_cfg demo_env late_sched)))) ''1'' = Some 0"
  by (rule unmerged_never_expires[where ?s0.0 = late_sched and cf = demo_cfg and ev = demo_env
        and x = "fst (sched_turn demo_cfg demo_env late_sched)"
        and b = "fst (snd (sched_turn demo_cfg demo_env late_sched))"])
    (simp_all add: late_sched_def sched_ok_def dwf_def new_entry_def entry_at_def demo_cfg_def seconds_def)

text \<open>
  The second re-parse of \<open>run\<close> is dead: when the loop over the pending casts leaves the
  flag set, it has found nothing to do, so that only a cast that is done or a change of the
  table ever moves the schedule on to the next time of a row.
\<close>

theorem second_reparse_dead:
  assumes "sched_ok s" "sc_ready s = []" "pend_loop cf now state s = (s', reparse)"
  shows "\<not> (reparse \<and> sc_ready s' \<noteq> [])"
  using pend_loop_inv[OF assms(1,2), of now cf state] assms(3) by (auto simp: pend_inv_def)

lemma demo_sched_ready: "sc_ready demo_sched = []"
  by (simp add: demo_sched_def)

theorem second_reparse_dead_witness:
  "\<not> (snd (pend_loop demo_cfg (ev_now demo_env) ''on'' demo_sched) \<and>
      sc_ready (fst (pend_loop demo_cfg (ev_now demo_env) ''on'' demo_sched)) \<noteq> [])"
  by (rule second_reparse_dead[OF demo_sched_ok demo_sched_ready]) simp

end
