(* ===== verification/Launcher.thy ===== *)
theory Launcher
  imports Sched "HOL-Library.Sublist" "HOL-Library.List_Lexorder" "HOL-Library.Char_ord"
    "HOL-Library.Product_Lexorder" "HOL-Library.Option_ord"
begin

text \<open>
  The launcher thread of src/python/avp_sched.py: the class \<open>AVPScheduleStatus\<close>, which mirrors
  the schedule switch kept in the database, and one turn of \<open>AVPLauncher.run\<close>, which takes the
  queued casts out of the shared schedule, orders them, and runs them one after the other with
  \<open>do_cast\<close>. A cast takes minutes, and the scheduler thread goes on meanwhile: the function
  \<open>cast\<close> that stands for \<open>scheduled_cast\<close> therefore also gets, and may change, the state of
  the scheduler.
\<close>

section \<open>The schedule switch\<close>

definition valid_states :: "string list" where
  "valid_states = [''off'', ''on'', ''paused'']"

record sched_status =
  st_state :: string
  st_cast_status :: string
  st_change_time :: "instant option"
  st_resume :: instant
  st_pause :: timespan

text \<open>
  \<open>_get_state\<close>: what the poll and the two queries return is given; a query that raises is
  caught. The time column may be null.
\<close>

definition get_state ::
  "bool \<Rightarrow> (string \<times> instant option) res \<Rightarrow> string res \<Rightarrow> instant \<Rightarrow> sched_status \<Rightarrow> sched_status" where
  "get_state poll sel cast_sel now st =
     (if poll \<or> st_state st \<notin> set valid_states then
        (let st1 =
           (case sel of
              Inr (db_state, db_time) \<Rightarrow>
                if db_state \<in> set valid_states then
                  st\<lparr>st_change_time := db_time,
                     st_resume := (if db_state \<noteq> st_state st \<and> db_state = ''paused''
                                   then (case db_time of Some t \<Rightarrow> t + st_pause st | None \<Rightarrow> now + st_pause st)
                                   else st_resume st),
                     st_state := db_state\<rparr>
                else st\<lparr>st_state := ''off''\<rparr>
            | Inl e \<Rightarrow> st\<lparr>st_state := ''off''\<rparr>)
         in (case cast_sel of Inr c \<Rightarrow> st1\<lparr>st_cast_status := c\<rparr> | Inl e \<Rightarrow> st1))
      else st)"

text \<open>\<open>_set_state\<close>: the new status and the values written to the database, if any are.\<close>

definition set_state :: "string \<Rightarrow> instant \<Rightarrow> sched_status \<Rightarrow> sched_status \<times> (string \<times> instant) option" where
  "set_state v now st =
     (if v \<in> set valid_states then
        ((if v = ''on'' then st\<lparr>st_resume := now\<rparr>
          else if v = ''paused'' then st\<lparr>st_resume := now + st_pause st\<rparr>
          else st), Some (v, now))
      else (st, None))"

section \<open>Casts\<close>

text \<open>
  The keyword arguments of a cast. The three entries that only an ISCO cast has (\<open>pre_cal\<close>,
  which is False, the bottle and the volume) are one optional pair.
\<close>

record castargs =
  ca_wipe :: bool
  ca_park_pos :: string
  ca_lisst :: bool
  ca_isco :: bool
  ca_bottle_volume :: "(int option \<times> int option) option"

record cast_request =
  cr_entry :: string
  cr_depth :: rat
  cr_time :: instant
  cr_args :: castargs

text \<open>
  How a cast ends: an exception of \<open>pre_config\<close> leaves the handler of \<open>do_cast\<close>, one of
  \<open>start\<close> does not.
\<close>

datatype cast_end = PreConfigRaised | StartRaised | CastReturned

type_synonym 'w cast_fun = "cast_request \<Rightarrow> sched \<times> 'w \<Rightarrow> cast_end \<times> sched \<times> 'w"

definition set_action :: "string \<Rightarrow> string \<Rightarrow> sched \<Rightarrow> sched res" where
  "set_action k v s =
     (case dget (sc_schedule s) k of None \<Rightarrow> Inl (KeyError k)
      | Some a \<Rightarrow> Inr (upd_entry a (\<lambda>e. e\<lparr>e_action := Some v\<rparr>) s))"

definition set_status :: "string \<Rightarrow> string \<Rightarrow> sched \<Rightarrow> sched res" where
  "set_status k v s =
     (case dget (sc_pending s) k of None \<Rightarrow> Inl (KeyError k)
      | Some a \<Rightarrow> Inr (upd_entry a (\<lambda>e. e\<lparr>e_sched_status := Some v\<rparr>) s))"

text \<open>
  \<open>do_cast\<close>. Every exception is caught at its end, which keeps what has been assigned before.
  The result is the new state and whether the cast was started.
\<close>

definition do_cast :: "bool \<Rightarrow> 'w cast_fun \<Rightarrow> cast_request \<Rightarrow> sched \<times> 'w \<Rightarrow> bool \<times> sched \<times> 'w" where
  "do_cast read_only cast rq sw =
     (case sw of (s, w) \<Rightarrow>
        case set_action (cr_entry rq) ''casting'' s of Inl e \<Rightarrow> (False, s, w)
        | Inr s1 \<Rightarrow>
          (case set_status (cr_entry rq) ''acting'' s1 of Inl e \<Rightarrow> (False, s1, w)
           | Inr s2 \<Rightarrow>
             (let (ended, s3, w3) = (if read_only then (CastReturned, s2, w) else cast rq (s2, w))
              in if ended = PreConfigRaised then (\<not> read_only, s3, w3)
                 else (case set_action (cr_entry rq) ''done'' s3 of
                         Inl e \<Rightarrow> (\<not> read_only, s3, w3)
                       | Inr s4 \<Rightarrow> (\<not> read_only, s4, w3)))))"

section \<open>Ordering the casts\<close>

type_synonym depth_entry = "rat option \<times> string"

text \<open>
  \<open>isco_depth_entry.sort(reverse=True,key=Noneto99)\<close>. The key function gets the pair of depth
  and entry, which is never None, and returns it: pairs are compared, and a missing depth with
  a depth raises TypeError. Every sort compares the two kinds when both occur.
\<close>

definition sort_isco :: "depth_entry list \<Rightarrow> depth_entry list res" where
  "sort_isco ds =
     (if (\<exists>d \<in> set ds. fst d = None) \<and> (\<exists>d \<in> set ds. fst d \<noteq> None) then Inl TypeError
      else Inr (rev (sort ds)))"

definition actionable :: "sched \<Rightarrow> (string \<times> entry_ref) list" where
  "actionable s = filter (\<lambda>(k, a). e_action (entry_at s a) = Some ''queued'') (sc_schedule s)"

definition set_statuses :: "string \<Rightarrow> string list \<Rightarrow> sched \<Rightarrow> pyexn option \<times> sched" where
  "set_statuses v ks s =
     fold (\<lambda>k xs. case xs of (Some x, s) \<Rightarrow> (Some x, s)
        | (None, s) \<Rightarrow> (case set_status k v s of Inl e \<Rightarrow> (Some e, s) | Inr s1 \<Rightarrow> (None, s1))) ks (None, s)"

definition set_actions :: "string \<Rightarrow> string list \<Rightarrow> sched \<Rightarrow> pyexn option \<times> sched" where
  "set_actions v ks s =
     fold (\<lambda>k xs. case xs of (Some x, s) \<Rightarrow> (Some x, s)
        | (None, s) \<Rightarrow> (case set_action k v s of Inl e \<Rightarrow> (Some e, s) | Inr s1 \<Rightarrow> (None, s1))) ks (None, s)"

text \<open>
  The list of the casts to do, the non-ISCO cast first. An exception here ends the thread.
\<close>

definition depth_list :: "(string \<times> entry_ref) list \<Rightarrow> sched \<Rightarrow> pyexn option \<times> depth_entry list \<times> sched" where
  "depth_list act s =
     (let non_isco = filter (\<lambda>(k, a). \<not> e_isco (entry_at s a)) act;
          isco = filter (\<lambda>(k, a). e_isco (entry_at s a)) act;
          (x, first, s1) =
            (case non_isco of
               [] \<Rightarrow> (None, [], s)
             | [(k, a)] \<Rightarrow> (case set_statuses ''processed'' [k] s of (x, s') \<Rightarrow> (x, [(e_depth (entry_at s a), k)], s'))
             | _ \<Rightarrow> (case set_actions ''done'' (map fst non_isco) s of (x, s') \<Rightarrow> (x, [], s')))
      in case x of Some e \<Rightarrow> (Some e, [], s1)
         | None \<Rightarrow>
             (case set_statuses ''processed'' (map fst isco) s1 of
                (Some e, s2) \<Rightarrow> (Some e, [], s2)
              | (None, s2) \<Rightarrow>
                  (case sort_isco (map (\<lambda>(k, a). (e_depth (entry_at s2 a), k)) isco) of
                     Inl e \<Rightarrow> (Some e, [], s2)
                   | Inr ds \<Rightarrow> (None, first @ ds, s2))))"

definition make_args :: "nat \<Rightarrow> nat \<Rightarrow> entry \<Rightarrow> castargs" where
  "make_args todo n_done e =
     \<lparr>ca_wipe = (n_done = 0),
      ca_park_pos = (if todo = 1 then ''default'' else ''bottom''),
      ca_lisst = e_lisst e, ca_isco = e_isco e,
      ca_bottle_volume = (if e_isco e then Some (e_bottle e, e_volume e) else None)\<rparr>"

text \<open>\<open>None not in castargs.values()\<close>\<close>

fun args_ok :: "castargs \<Rightarrow> bool" where
  "args_ok ca = (case ca_bottle_volume ca of Some (b, v) \<Rightarrow> b \<noteq> None \<and> v \<noteq> None | None \<Rightarrow> True)"

text \<open>\<open>cast_cron = CronTime(date_list=sched_list)\<close> and its \<open>date_time\<close>.\<close>

definition cast_time_of :: "instant \<Rightarrow> civil \<Rightarrow> instant" where
  "cast_time_of now c =
     ct_date_time (cron_time_init now None
       [IntV (cyear c), IntV (cmonth c), IntV (cday c), IntV (chour c), IntV (cminute c)])"

text \<open>A missing depth becomes 999.4.\<close>

definition depth_value :: "rat option \<Rightarrow> rat" where
  "depth_value d = (case d of None \<Rightarrow> 9994 / 10 | Some q \<Rightarrow> q)"

definition request_of :: "instant \<Rightarrow> nat \<Rightarrow> nat \<Rightarrow> entry \<Rightarrow> depth_entry \<Rightarrow> cast_request" where
  "request_of now todo n_done e dk =
     \<lparr>cr_entry = snd dk, cr_depth = depth_value (fst dk),
      cr_time = cast_time_of now (e_sched_list e), cr_args = make_args todo n_done e\<rparr>"

text \<open>
  The loop over the ordered casts, with the casts left to do and those done counted as the code
  counts them. It returns the requests that went to \<open>do_cast\<close>, in their order.
\<close>

fun launch_loop ::
  "bool \<Rightarrow> 'w cast_fun \<Rightarrow> instant \<Rightarrow> (string \<times> entry_ref) list \<Rightarrow> depth_entry list \<Rightarrow> nat \<Rightarrow> nat \<Rightarrow>
     sched \<times> 'w \<Rightarrow> cast_request list \<times> sched \<times> 'w" where
  "launch_loop ro cast now act [] todo n_done sw = ([], sw)"
| "launch_loop ro cast now act (dk # ds) todo n_done sw =
     (case dget act (snd dk) of
        None \<Rightarrow> ([], sw)
      | Some a \<Rightarrow>
          (let rq = request_of now todo n_done (entry_at (fst sw) a) dk
           in if args_ok (cr_args rq)
              then (case launch_loop ro cast now act ds (todo - 1) (n_done + 1) (snd (do_cast ro cast rq sw)) of
                      (rqs, sw2) \<Rightarrow> (rq # rqs, sw2))
              else launch_loop ro cast now act ds (todo - 1) (n_done + 1) sw))"

section \<open>One turn of run\<close>

record launcher =
  la_state :: string
  la_needs_cal :: bool

text \<open>
  What a turn does: the exception that ends the thread, the new state of the thread and of the
  shared schedule, the requests for casts, the value written to the schedule switch, and
  whether it calibrates. \<open>r0\<close> and \<open>r2\<close> are the readings of the switch that decide.
\<close>

record 'w launch_result =
  lr_exn :: "pyexn option"
  lr_launcher :: launcher
  lr_sched :: "sched \<times> 'w"
  lr_requests :: "cast_request list"
  lr_switch :: "string option"
  lr_calibrate :: bool

definition launch_casts :: "bool \<Rightarrow> 'w cast_fun \<Rightarrow> instant \<Rightarrow> sched \<times> 'w \<Rightarrow>
    pyexn option \<times> cast_request list \<times> sched \<times> 'w" where
  "launch_casts ro cast now sw =
     (let act = actionable (fst sw)
      in if act = [] then (None, [], sw)
         else (case depth_list act (fst sw) of
                 (Some e, ds, s1) \<Rightarrow> (Some e, [], (s1, snd sw))
               | (None, ds, s1) \<Rightarrow>
                   (case launch_loop ro cast now act ds (length act) 0 (s1, snd sw) of
                      (rqs, sw2) \<Rightarrow> (None, rqs, sw2))))"

definition launcher_turn ::
  "bool \<Rightarrow> 'w cast_fun \<Rightarrow> instant \<Rightarrow> string \<Rightarrow> string \<Rightarrow> instant \<Rightarrow> launcher \<Rightarrow> sched \<times> 'w \<Rightarrow> 'w launch_result" where
  "launcher_turn ro cast now r0 r2 resume la sw =
     (let la1 = (if la_state la \<noteq> r0 then la\<lparr>la_state := r2\<rparr> else la);
          idle = \<lparr>lr_exn = None, lr_launcher = la1, lr_sched = sw, lr_requests = [], lr_switch = None, lr_calibrate = False\<rparr>
      in if la_state la1 = ''on'' then
           (if la_needs_cal la1 then idle\<lparr>lr_launcher := la1\<lparr>la_needs_cal := False\<rparr>, lr_calibrate := True\<rparr>
            else (case launch_casts ro cast now sw of (x, rqs, sw1) \<Rightarrow>
                    idle\<lparr>lr_exn := x, lr_sched := sw1, lr_requests := rqs\<rparr>))
         else if la_state la1 = ''paused'' \<and> resume \<le> now then idle\<lparr>lr_switch := Some ''on''\<rparr>
         else idle)"

definition launcher_delay :: int where
  "launcher_delay = 5"

definition launcher_sleep :: "instant \<Rightarrow> int" where
  "launcher_sleep now =
     (let t = launcher_delay - second_of now in if t \<le> 0 then 60 + t else t)"

section \<open>Lemmas\<close>

lemma make_args_simps [simp]:
  "ca_wipe (make_args todo n e) = (n = 0)"
  "ca_park_pos (make_args todo n e) = (if todo = 1 then ''default'' else ''bottom'')"
  by (simp_all add: make_args_def)

lemma request_of_simps [simp]:
  "cr_entry (request_of now todo n e dk) = snd dk"
  "cr_depth (request_of now todo n e dk) = depth_value (fst dk)"
  "cr_args (request_of now todo n e dk) = make_args todo n e"
  by (simp_all add: request_of_def)

text \<open>What happens with the first cast of the list.\<close>

lemma launch_loop_cases:
  assumes "launch_loop ro cast now act (dk # ds) todo n sw = (rqs, sw2)"
  obtains "rqs = []"
  | e rs sw1 where "rqs = request_of now todo n e dk # rs"
      "launch_loop ro cast now act ds (todo - 1) (n + 1) sw1 = (rs, sw2)"
  | "launch_loop ro cast now act ds (todo - 1) (n + 1) sw = (rqs, sw2)"
  using assms
  by (auto simp: Let_def simp del: args_ok.simps split: option.splits if_splits prod.splits) (metis prod.collapse)

lemma launch_loop_subseq:
  "launch_loop ro cast now act ds todo n sw = (rqs, sw2) \<Longrightarrow>
     subseq (map (\<lambda>r. (cr_depth r, cr_entry r)) rqs) (map (\<lambda>dk. (depth_value (fst dk), snd dk)) ds)"
proof (induction ds arbitrary: todo n sw rqs)
  case Nil
  then show ?case by simp
next
  case (Cons x ds)
  from Cons.prems show ?case
  proof (cases rule: launch_loop_cases)
    case (2 e rs sw1)
    with Cons.IH[OF 2(2)] show ?thesis by simp
  next
    case 3
    from Cons.IH[OF 3] show ?thesis by (simp add: list_emb_Cons)
  qed simp
qed

text \<open>
  Where the casts end and which of them wipes: all but the last executed one stay at the
  bottom, and if the counter exceeds the casts of the list, so does the last one.
\<close>

lemma launch_loop_park:
  "launch_loop ro cast now act ds todo n sw = (rqs, sw2) \<Longrightarrow> length ds \<le> todo \<Longrightarrow>
     (\<forall>r \<in> set (butlast rqs). ca_park_pos (cr_args r) = ''bottom'') \<and>
     (length ds < todo \<longrightarrow> (\<forall>r \<in> set rqs. ca_park_pos (cr_args r) = ''bottom'')) \<and>
     (0 < n \<longrightarrow> (\<forall>r \<in> set rqs. \<not> ca_wipe (cr_args r))) \<and>
     (\<forall>r \<in> set (tl rqs). \<not> ca_wipe (cr_args r)) \<and> length rqs \<le> length ds \<and>
     (rqs \<noteq> [] \<longrightarrow> length rqs = length ds \<longrightarrow>
        (ca_wipe (cr_args (hd rqs)) \<longleftrightarrow> n = 0) \<and>
        (length ds = todo \<longrightarrow> ca_park_pos (cr_args (last rqs)) = ''default''))"
proof (induction ds arbitrary: todo n sw rqs)
  case Nil
  then show ?case by simp
next
  case (Cons x ds)
  have le: "length ds \<le> todo - 1" and lt: "length ds < todo - 1 \<longleftrightarrow> length (x # ds) < todo"
    using Cons.prems(2) by auto
  from Cons.prems(1) show ?case
  proof (cases rule: launch_loop_cases)
    case (2 e rs sw1)
    note ih = Cons.IH[OF 2(2) le]
    show ?thesis
    proof (cases "rs = []")
      case True
      with 2(1) Cons.prems(2) show ?thesis by auto
    next
      case False
      with ih Cons.prems(2) have "todo \<noteq> 1" by auto
      with False ih lt show ?thesis unfolding 2(1) by auto
    qed
  next
    case 3
    from Cons.IH[OF this le] lt show ?thesis by (cases rqs) auto
  qed simp
qed

lemma set_action_frame:
  "set_action k v s = Inr s' \<Longrightarrow> sc_schedule s' = sc_schedule s \<and> sc_pending s' = sc_pending s \<and>
     (\<forall>a. e_isco (entry_at s' a) = e_isco (entry_at s a) \<and> e_depth (entry_at s' a) = e_depth (entry_at s a))"
  by (auto simp: set_action_def entry_at_upd_field split: option.splits)

lemma set_status_frame:
  "set_status k v s = Inr s' \<Longrightarrow> sc_schedule s' = sc_schedule s \<and> sc_pending s' = sc_pending s \<and>
     (\<forall>a. e_isco (entry_at s' a) = e_isco (entry_at s a) \<and> e_depth (entry_at s' a) = e_depth (entry_at s a) \<and>
          e_action (entry_at s' a) = e_action (entry_at s a))"
  by (auto simp: set_status_def entry_at_upd_field split: option.splits)

lemma set_statuses_simps [simp]:
  "set_statuses v [] s = (None, s)"
  "set_statuses v [k] s = (case set_status k v s of Inl e \<Rightarrow> (Some e, s) | Inr s1 \<Rightarrow> (None, s1))"
  by (simp_all add: set_statuses_def)

text \<open>The list of casts: at most one non-ISCO cast, first, then the ISCO casts, deepest first.\<close>

lemma sort_isco_desc:
  "sort_isco ds = Inr es \<Longrightarrow> sorted_wrt (\<ge>) (map (\<lambda>dk. depth_value (fst dk)) es) \<and> set es = set ds \<and> length es = length ds"
proof -
  assume s: "sort_isco ds = Inr es"
  then have es: "es = rev (sort ds)" and kind: "(\<forall>d \<in> set ds. fst d \<noteq> None) \<or> (\<forall>d \<in> set ds. fst d = None)"
    by (auto simp: sort_isco_def split: if_splits)
  have "sorted_wrt (\<le>) (sort ds)" by simp
  then have "sorted_wrt (\<lambda>x y. y \<le> x) es" unfolding es by (simp add: sorted_wrt_rev)
  then have "sorted_wrt (\<lambda>x y. depth_value (fst y) \<le> depth_value (fst x)) es"
    by (rule sorted_wrt_mono_rel[rotated])
      (use kind in \<open>auto simp: es depth_value_def less_eq_prod_def split: option.splits\<close>)
  then show ?thesis by (simp add: sorted_wrt_map es)
qed

lemma depth_list_correct:
  assumes "depth_list act s = (None, ds, s')"
  shows "\<exists>first iscos. ds = first @ iscos \<and>
     (first = [] \<or> (\<exists>k a. filter (\<lambda>(k, a). \<not> e_isco (entry_at s a)) act = [(k, a)] \<and> first = [(e_depth (entry_at s a), k)])) \<and>
     (length (filter (\<lambda>(k, a). \<not> e_isco (entry_at s a)) act) \<noteq> 1 \<longrightarrow> first = []) \<and>
     set (map snd iscos) = set (map fst (filter (\<lambda>(k, a). e_isco (entry_at s a)) act)) \<and>
     sorted_wrt (\<ge>) (map (\<lambda>dk. depth_value (fst dk)) iscos) \<and>
     length iscos = length (filter (\<lambda>(k, a). e_isco (entry_at s a)) act) \<and>
     length first = (if length (filter (\<lambda>(k, a). \<not> e_isco (entry_at s a)) act) = 1 then 1 else 0)"
proof -
  let ?n = "filter (\<lambda>(k, a). \<not> e_isco (entry_at s a)) act"
    and ?i = "filter (\<lambda>(k, a). e_isco (entry_at s a)) act"
  define fst3 where "fst3 = (case ?n of
               [] \<Rightarrow> (None, [], s)
             | [(k, a)] \<Rightarrow> (case set_statuses ''processed'' [k] s of (x, s') \<Rightarrow> (x, [(e_depth (entry_at s a), k)], s'))
             | _ \<Rightarrow> (case set_actions ''done'' (map fst ?n) s of (x, s') \<Rightarrow> (x, [], s')))"
  obtain x first s1 where f3: "fst3 = (x, first, s1)" by (cases fst3)
  have first: "first = (case ?n of [(k, a)] \<Rightarrow> [(e_depth (entry_at s a), k)] | _ \<Rightarrow> [])"
    using f3 unfolding fst3_def by (auto split: list.splits prod.splits)
  have x: "x = None" using assms f3 unfolding depth_list_def fst3_def by (auto simp: Let_def split: option.splits)
  obtain y s2 where st: "set_statuses ''processed'' (map fst ?i) s1 = (y, s2)" by fastforce
  have d: "(case y of Some e \<Rightarrow> (Some e, [], s2)
              | None \<Rightarrow>
                  (case sort_isco (map (\<lambda>(k, a). (e_depth (entry_at s2 a), k)) ?i) of
                     Inl e \<Rightarrow> (Some e, [], s2)
                   | Inr ds \<Rightarrow> (None, first @ ds, s2))) = (None, ds, s')"
    using assms f3 x st unfolding depth_list_def fst3_def by (simp split: option.splits)
  then obtain es where es: "sort_isco (map (\<lambda>(k, a). (e_depth (entry_at s2 a), k)) ?i) = Inr es" "ds = first @ es"
    by (auto split: option.splits sum.splits)
  have img: "set (map snd es) = set (map fst ?i)"
    using sort_isco_desc[OF es(1)] by (force simp: image_iff)
  show ?thesis
    using sort_isco_desc[OF es(1)] es(2) img first
    by (intro exI[of _ first] exI[of _ es]) (auto split: list.splits prod.splits)
qed

text \<open>The two ways \<open>launch_casts\<close> ends without an exception.\<close>

lemma launch_casts_cases:
  assumes "launch_casts ro cast now sw = (None, rqs, sw')"
  obtains "actionable (fst sw) = []" "rqs = []"
  | ds s1 where "depth_list (actionable (fst sw)) (fst sw) = (None, ds, s1)"
      "launch_loop ro cast now (actionable (fst sw)) ds (length (actionable (fst sw))) 0 (s1, snd sw) = (rqs, sw')"
  using assms unfolding launch_casts_def Let_def
  by (auto split: if_splits prod.splits option.splits)

lemma actionable_split:
  "length act = length (filter (\<lambda>(k, a). \<not> e_isco (entry_at s a)) act) + length (filter (\<lambda>(k, a). e_isco (entry_at s a)) act)"
  using sum_length_filter_compl[of "\<lambda>(k, a). \<not> e_isco (entry_at s a)" act] by (simp add: case_prod_beta')

text \<open>The same as a plan of depths and entries.\<close>

lemma depth_list_plan:
  assumes "depth_list act s = (None, ds, s')"
  shows "\<exists>regular iscos. map (\<lambda>dk. (depth_value (fst dk), snd dk)) ds = regular @ iscos \<and>
     length regular \<le> 1 \<and> sorted_wrt (\<ge>) (map fst iscos) \<and>
     (\<forall>k \<in> set (map snd regular). \<exists>a. (k, a) \<in> set act \<and> \<not> e_isco (entry_at s a)) \<and>
     (\<forall>k \<in> set (map snd iscos). \<exists>a. (k, a) \<in> set act \<and> e_isco (entry_at s a))"
proof -
  let ?v = "map (\<lambda>dk. (depth_value (fst dk), snd dk))"
  from depth_list_correct[OF assms] obtain first iscos where
    g: "ds = first @ iscos" "sorted_wrt (\<ge>) (map (\<lambda>dk. depth_value (fst dk)) iscos)"
      "set (map snd iscos) = set (map fst (filter (\<lambda>(k, a). e_isco (entry_at s a)) act))"
      "first = [] \<or> (\<exists>k a. filter (\<lambda>(k, a). \<not> e_isco (entry_at s a)) act = [(k, a)] \<and> first = [(e_depth (entry_at s a), k)])"
    by blast
  from g(4) have reg: "length first \<le> 1 \<and> (\<forall>k \<in> set (map snd first). \<exists>a. (k, a) \<in> set act \<and> \<not> e_isco (entry_at s a))"
  proof
    assume "\<exists>k a. filter (\<lambda>(k, a). \<not> e_isco (entry_at s a)) act = [(k, a)] \<and> first = [(e_depth (entry_at s a), k)]"
    then obtain k a where ka: "filter (\<lambda>(k, a). \<not> e_isco (entry_at s a)) act = [(k, a)]"
      "first = [(e_depth (entry_at s a), k)]" by blast
    from ka(1) have "(k, a) \<in> set (filter (\<lambda>(k, a). \<not> e_isco (entry_at s a)) act)" by simp
    with ka(2) show ?thesis by auto
  qed simp
  have snds: "map snd (?v xs) = map snd xs" for xs :: "depth_entry list" by simp
  have "\<forall>k \<in> set (map snd iscos). \<exists>a. (k, a) \<in> set act \<and> e_isco (entry_at s a)" unfolding g(3) by auto
  moreover have "sorted_wrt (\<ge>) (map fst (?v iscos))" using g(2) by (simp add: comp_def)
  moreover have "?v ds = ?v first @ ?v iscos" using g(1) by simp
  ultimately show ?thesis using reg
    by - (rule exI[of _ "?v first"], rule exI[of _ "?v iscos"], simp only: snds length_map simp_thms, blast)
qed

section \<open>Properties\<close>

text \<open>One regular cast and two ISCO casts of different depths are queued.\<close>

definition three_casts :: sched where
  "three_casts = \<lparr>sc_objs =
       [(new_entry (noon_row\<lparr>r_isco := True, r_bottle := Some 1, r_volume := Some 500, r_depth := Some 3\<rparr>) (Civil 2024 3 1 20 0))
          \<lparr>e_action := Some ''queued''\<rparr>,
        (new_entry noon_row (Civil 2024 3 1 20 0))\<lparr>e_action := Some ''queued''\<rparr>,
        (new_entry (noon_row\<lparr>r_isco := True, r_bottle := Some 2, r_volume := Some 500, r_depth := Some 7\<rparr>) (Civil 2024 3 1 20 0))
          \<lparr>e_action := Some ''queued''\<rparr>],
     sc_pending = [(''1'', 0), (''2'', 1), (''3'', 2)], sc_ready = [],
     sc_schedule = [(''1'', 0), (''2'', 1), (''3'', 2)], sc_select = [], sc_last_off = 0\<rparr>"

definition calm_cast :: "unit cast_fun" where
  "calm_cast rq sw = (CastReturned, sw)"

definition three_result :: "pyexn option \<times> cast_request list \<times> sched \<times> unit" where
  "three_result = launch_casts False calm_cast march_first (three_casts, ())"

lemma three_result_eval:
  "fst three_result = None" "map cr_entry (fst (snd three_result)) = [''2'', ''3'', ''1'']"
  by code_simp+

lemma three_casts_launch:
  "launch_casts False calm_cast march_first (three_casts, ()) = (None, fst (snd three_result), snd (snd three_result))"
  unfolding three_result_def[symmetric] by (rule triple_eqI[OF three_result_eval(1)])

text \<open>
  C4. The casts a turn of the launcher does are, in this order, at most one cast that is not an
  ISCO cast, and then ISCO casts from the deepest to the shallowest, all of them queued before.
\<close>

theorem launch_order:
  assumes "launch_casts ro cast now (s, w) = (None, rqs, sw')"
  shows "\<exists>regular iscos. subseq (map (\<lambda>r. (cr_depth r, cr_entry r)) rqs) (regular @ iscos) \<and>
     length regular \<le> 1 \<and> sorted_wrt (\<ge>) (map fst iscos) \<and>
     (\<forall>k \<in> set (map snd regular). \<exists>a. (k, a) \<in> set (actionable s) \<and> \<not> e_isco (entry_at s a)) \<and>
     (\<forall>k \<in> set (map snd iscos). \<exists>a. (k, a) \<in> set (actionable s) \<and> e_isco (entry_at s a))"
  using assms
proof (cases rule: launch_casts_cases)
  case 1
  then show ?thesis by (intro exI[of _ "[]"]) simp
next
  case (2 ds s1)
  then have d: "depth_list (actionable s) s = (None, ds, s1)" by simp
  from depth_list_plan[OF d] obtain regular iscos where p:
    "map (\<lambda>dk. (depth_value (fst dk), snd dk)) ds = regular @ iscos"
    "length regular \<le> 1 \<and> sorted_wrt (\<ge>) (map fst iscos) \<and>
     (\<forall>k \<in> set (map snd regular). \<exists>a. (k, a) \<in> set (actionable s) \<and> \<not> e_isco (entry_at s a)) \<and>
     (\<forall>k \<in> set (map snd iscos). \<exists>a. (k, a) \<in> set (actionable s) \<and> e_isco (entry_at s a))" by blast
  from launch_loop_subseq[OF 2(2)] have "subseq (map (\<lambda>r. (cr_depth r, cr_entry r)) rqs) (regular @ iscos)"
    unfolding p(1) .
  with p(2) show ?thesis by blast
qed

theorem launch_order_witness:
  "\<exists>regular iscos. subseq (map (\<lambda>r. (cr_depth r, cr_entry r)) (fst (snd three_result))) (regular @ iscos) \<and>
     length regular \<le> 1 \<and> sorted_wrt (\<ge>) (map fst iscos)"
  using launch_order[OF three_casts_launch] by blast

text \<open>
  C5. The first cast that is not skipped-over wipes the sonde only if it leads the list, no later
  one wipes, and every cast but the last one leaves the package at the bottom. When no cast is
  skipped and at most one queued cast is not an ISCO cast, the first one wipes and the last one
  returns to the parking position.
\<close>

theorem launch_wipe_park:
  assumes "launch_casts ro cast now (s, w) = (None, rqs, sw')" "rqs \<noteq> []"
  shows "(\<forall>r \<in> set (butlast rqs). ca_park_pos (cr_args r) = ''bottom'') \<and>
     (\<forall>r \<in> set (tl rqs). \<not> ca_wipe (cr_args r)) \<and>
     (length rqs = length (actionable s) \<longrightarrow>
        ca_wipe (cr_args (hd rqs)) \<and> ca_park_pos (cr_args (last rqs)) = ''default'')"
  using assms(1)
proof (cases rule: launch_casts_cases)
  case 1
  with assms(2) show ?thesis by simp
next
  case (2 ds s1)
  then have "depth_list (actionable s) s = (None, ds, s1)" by simp
  from depth_list_correct[OF this] actionable_split[of "actionable s" s]
  have len: "length ds \<le> length (actionable (fst (s, w)))" by auto
  from launch_loop_park[OF 2(2) len] assms(2) len show ?thesis by auto
qed

theorem launch_wipe_park_witness:
  "ca_wipe (cr_args (hd (fst (snd three_result)))) \<and>
   ca_park_pos (cr_args (last (fst (snd three_result)))) = ''default''"
proof -
  have ne: "fst (snd three_result) \<noteq> []" using three_result_eval(2) by auto
  have "length (fst (snd three_result)) = length (actionable three_casts)"
    using arg_cong[OF three_result_eval(2), of length] by (simp add: three_casts_def actionable_def entry_at_def)
  with launch_wipe_park[OF three_casts_launch ne] show ?thesis by blast
qed

text \<open>
  When two or more queued casts are not ISCO casts, they are skipped but still counted: no
  cast of this turn returns to the parking position, so after its ISCO casts the package stays
  at the bottom.
\<close>

theorem too_many_stay_down:
  assumes "launch_casts ro cast now (s, w) = (None, rqs, sw')"
    and "2 \<le> length (filter (\<lambda>(k, a). \<not> e_isco (entry_at s a)) (actionable s))"
  shows "\<forall>r \<in> set rqs. ca_park_pos (cr_args r) = ''bottom''"
  using assms(1)
proof (cases rule: launch_casts_cases)
  case (2 ds s1)
  then have "depth_list (actionable s) s = (None, ds, s1)" by simp
  from depth_list_correct[OF this] actionable_split[of "actionable s" s] assms(2)
  have len: "length ds < length (actionable (fst (s, w)))" by auto
  from launch_loop_park[OF 2(2)] len show ?thesis by auto
qed simp

definition two_regular :: sched where
  "two_regular = three_casts\<lparr>sc_objs := (sc_objs three_casts)[2 := (sc_objs three_casts ! 2)\<lparr>e_isco := False\<rparr>]\<rparr>"

definition two_result :: "pyexn option \<times> cast_request list \<times> sched \<times> unit" where
  "two_result = launch_casts False calm_cast march_first (two_regular, ())"

lemma two_result_eval: "fst two_result = None" "length (fst (snd two_result)) = 1"
  by code_simp+

lemma two_regular_launch:
  "launch_casts False calm_cast march_first (two_regular, ()) = (None, fst (snd two_result), snd (snd two_result))"
  unfolding two_result_def[symmetric] by (rule triple_eqI[OF two_result_eval(1)])

lemma two_regular_count: "length (filter (\<lambda>(k, a). \<not> e_isco (entry_at two_regular a)) (actionable two_regular)) = 2"
  by code_simp

theorem too_many_stay_down_witness:
  "ca_park_pos (cr_args (hd (fst (snd two_result)))) = ''bottom''"
proof -
  have "fst (snd two_result) \<noteq> []" using two_result_eval(2) by auto
  with too_many_stay_down[OF two_regular_launch] two_regular_count show ?thesis by simp
qed

text \<open>
  A queued cast whose row has been deleted from the table in the meantime, so that
  \<open>pending\<close> no longer has its entry, ends the launcher thread with KeyError.
\<close>

theorem deleted_row_ends_launcher:
  assumes "filter (\<lambda>(k, a). \<not> e_isco (entry_at s a)) (actionable s) = [(k, a)]" "dget (sc_pending s) k = None"
  shows "fst (launch_casts ro cast now (s, w)) = Some (KeyError k)"
proof -
  have "actionable s \<noteq> []" using assms(1) by auto
  with assms show ?thesis by (simp add: launch_casts_def depth_list_def set_status_def Let_def)
qed

theorem deleted_row_ends_launcher_witness:
  "fst (launch_casts False calm_cast march_first (three_casts\<lparr>sc_pending := []\<rparr>, ())) = Some (KeyError ''2'')"
  by (rule deleted_row_ends_launcher[where a = 1]) (simp_all add: actionable_def three_casts_def entry_at_def new_entry_def noon_row_def)

text \<open>
  A cast that is in the schedule and in \<open>pending\<close> ends as done, if the scheduler keeps its
  schedule entry and \<open>pre_config\<close> does not raise, whatever \<open>start\<close> does.
\<close>

theorem do_cast_done:
  assumes "dget (sc_schedule s) (cr_entry rq) = Some a" "dget (sc_pending s) (cr_entry rq) \<noteq> None"
    and "\<And>s w. fst (cast rq (s, w)) \<noteq> PreConfigRaised"
    and "\<And>s w. dget (sc_schedule (fst (snd (cast rq (s, w))))) (cr_entry rq) = dget (sc_schedule s) (cr_entry rq)"
    and "\<And>s w. length (sc_objs s) \<le> length (sc_objs (fst (snd (cast rq (s, w)))))"
    and "a < length (sc_objs s)"
  shows "fst (do_cast False cast rq (s, w)) \<and>
    e_action (entry_at (fst (snd (do_cast False cast rq (s, w)))) a) = Some ''done''"
proof -
  obtain p where p: "dget (sc_pending s) (cr_entry rq) = Some p" using assms(2) by blast
  let ?s2 = "upd_entry p (\<lambda>e. e\<lparr>e_sched_status := Some ''acting''\<rparr>) (upd_entry a (\<lambda>e. e\<lparr>e_action := Some ''casting''\<rparr>) s)"
  obtain ended s3 w3 where c: "cast rq (?s2, w) = (ended, s3, w3)" by (metis prod_cases3)
  have "ended \<noteq> PreConfigRaised" "dget (sc_schedule s3) (cr_entry rq) = Some a" "a < length (sc_objs s3)"
    using assms(3)[of ?s2 w] assms(4)[of ?s2 w] assms(5)[of ?s2 w] assms(1,6) c by simp_all
  with assms(1) p c show ?thesis
    by (auto simp: do_cast_def set_action_def set_status_def entry_at_upd)
qed

theorem do_cast_done_witness:
  "e_action (entry_at (fst (snd (do_cast False calm_cast
     (request_of march_first 1 0 (entry_at three_casts 1) (Some 5, ''2'')) (three_casts, ())))) 1) = Some ''done''"
  by (rule conjunct2[OF do_cast_done]) (simp_all add: three_casts_def calm_cast_def)

text \<open>
  The schedule switch fails safe: after a reading it is one of off, on and paused, and it is
  off when the database could not be asked or holds anything else.
\<close>

theorem get_state_valid:
  "st_state (get_state poll sel cast_sel now st) \<in> set valid_states \<and>
   (st_state (get_state True sel cast_sel now st) =
      (case sel of Inr (v, t) \<Rightarrow> if v \<in> set valid_states then v else ''off'' | Inl e \<Rightarrow> ''off''))"
  by (auto simp: get_state_def Let_def valid_states_def split: sum.splits prod.splits)

end
