(* ===== verification/Util.thy ===== *)
theory Util
  imports Calendar
begin

text \<open>
  Shared helpers of the clients, src/python/avp_util.py, and the time stamps of the brokers
  (\<open>get_date_time\<close> of src/python/avp_broker.py): reading booleans, numbers and times out of what
  the brokers send, searching nested dictionaries, and the context object that starts and stops
  the broker clients.
\<close>

section \<open>Strings\<close>

definition is_upper :: "char \<Rightarrow> bool" where
  "is_upper c \<longleftrightarrow> 65 \<le> (of_char c :: nat) \<and> (of_char c :: nat) \<le> 90"

definition is_lower :: "char \<Rightarrow> bool" where
  "is_lower c \<longleftrightarrow> 97 \<le> (of_char c :: nat) \<and> (of_char c :: nat) \<le> 122"

definition to_upper :: "char \<Rightarrow> char" where
  "to_upper c = (if is_lower c then char_of (of_char c - 32 :: nat) else c)"

definition to_lower :: "char \<Rightarrow> char" where
  "to_lower c = (if is_upper c then char_of (of_char c + 32 :: nat) else c)"

text \<open>\<open>s.title()\<close>: the first letter of each run of letters is upper case, the others lower case.\<close>

fun title_from :: "bool \<Rightarrow> string \<Rightarrow> string" where
  "title_from in_word [] = []"
| "title_from in_word (c # cs) =
     (if is_upper c \<or> is_lower c
      then (if in_word then to_lower c else to_upper c) # title_from True cs
      else c # title_from False cs)"

definition title :: "string \<Rightarrow> string" where
  "title s = title_from False s"

text \<open>
  \<open>float(s)\<close>: a decimal numeral with an optional fraction and exponent, or one of the names of
  the infinities and of nan. Values are exact.
\<close>

datatype flt = Fin rat | NonFin

definition digit_part :: "string \<Rightarrow> int option" where
  "digit_part s = (if s = [] then Some 0 else digits_val 0 False s)"

definition signed :: "string \<Rightarrow> bool \<times> string" where
  "signed s = (case s of c # cs \<Rightarrow> if c = CHR ''-'' then (True, cs) else if c = CHR ''+'' then (False, cs) else (False, s)
               | [] \<Rightarrow> (False, s))"

definition mantissa_of :: "string \<Rightarrow> rat option" where
  "mantissa_of m =
     (case split_on (CHR ''.'') m of
        [i] \<Rightarrow> map_option of_int (digits_val 0 False i)
      | [i, f] \<Rightarrow>
          (if i = [] \<and> f = [] then None
           else (case (digit_part i, digit_part f) of
                   (Some a, Some b) \<Rightarrow> Some (of_int a + of_int b / 10 ^ length (filter is_digit f))
                 | _ \<Rightarrow> None))
      | _ \<Rightarrow> None)"

definition float_of_string :: "string \<Rightarrow> flt res" where
  "float_of_string s =
     (let (neg, t) = signed (map to_lower (strip s));
          sg = (\<lambda>q. if neg then - q else q)
      in if t = ''inf'' \<or> t = ''infinity'' \<or> t = ''nan'' then Inr NonFin
         else (case split_on (CHR ''e'') t of
                 [m] \<Rightarrow> (case mantissa_of m of Some q \<Rightarrow> Inr (Fin (sg q)) | None \<Rightarrow> Inl ValueError)
               | [m, x] \<Rightarrow>
                   (case signed x of (xn, xd) \<Rightarrow>
                      case (mantissa_of m, digits_val 0 False xd) of
                        (Some q, Some k) \<Rightarrow> Inr (Fin (sg (if xn then q / 10 ^ nat k else q * 10 ^ nat k)))
                      | _ \<Rightarrow> Inl ValueError)
               | _ \<Rightarrow> Inl ValueError))"

text \<open>\<open>int(x)\<close> of a float cuts off towards zero.\<close>

definition trunc :: "rat \<Rightarrow> int" where
  "trunc q = (if q < 0 then - \<lfloor>- q\<rfloor> else \<lfloor>q\<rfloor>)"

text \<open>\<open>int(v)\<close> of a value of the configuration.\<close>

fun py_int :: "pyval \<Rightarrow> int res" where
  "py_int (PInt i) = Inr i"
| "py_int (PBool b) = Inr (if b then 1 else 0)"
| "py_int (PFloat q) = Inr (trunc q)"
| "py_int (PStr s) = int_of_string s"
| "py_int _ = Inl TypeError"

section \<open>t_or_f\<close>

fun t_or_f :: "pyval \<Rightarrow> bool option" where
  "t_or_f (PBool b) = Some b"
| "t_or_f (PStr s) =
     (if title s \<in> {''False'', ''F'', ''No'', ''N''} then Some False
      else if title s \<in> {''True'', ''T'', ''Yes'', ''Y''} then Some True
      else (case float_of_string s of
              Inr (Fin q) \<Rightarrow> if q \<noteq> 0 then Some True else None
            | Inr NonFin \<Rightarrow> Some True
            | Inl e \<Rightarrow> None))"
| "t_or_f (PInt i) = (if i \<noteq> 0 then Some True else None)"
| "t_or_f (PFloat q) = (if q \<noteq> 0 then Some True else None)"
| "t_or_f _ = None"

section \<open>Time stamps\<close>

text \<open>
  \<open>strptime\<close> with the format \<open>%Y%m%d%H%M%S\<close>. Its regular expression has several alternatives per
  field and backtracks; a field returns its readings of a string, the preferred one first.
\<close>

type_synonym field_parser = "string \<Rightarrow> (int \<times> string) list"

definition two_digits :: "(int \<Rightarrow> bool) \<Rightarrow> field_parser" where
  "two_digits ok s =
     (case s of a # b # r \<Rightarrow>
        (let v = 10 * digit_val a + digit_val b in if is_digit a \<and> is_digit b \<and> ok v then [(v, r)] else [])
      | _ \<Rightarrow> [])"

definition one_digit :: "int \<Rightarrow> field_parser" where
  "one_digit low s =
     (case s of a # r \<Rightarrow> if is_digit a \<and> low \<le> digit_val a then [(digit_val a, r)] else [] | [] \<Rightarrow> [])"

definition year_field :: field_parser where
  "year_field s =
     (case s of a # b # c # d # r \<Rightarrow>
        if is_digit a \<and> is_digit b \<and> is_digit c \<and> is_digit d
        then [(1000 * digit_val a + 100 * digit_val b + 10 * digit_val c + digit_val d, r)] else []
      | _ \<Rightarrow> [])"

definition month_field :: field_parser where
  "month_field s = two_digits (\<lambda>v. 1 \<le> v \<and> v \<le> 12) s @ one_digit 1 s"

definition day_field :: field_parser where
  "day_field s = two_digits (\<lambda>v. 1 \<le> v \<and> v \<le> 31) s @ one_digit 1 s @
     (case s of a # r \<Rightarrow> if a = CHR '' '' then one_digit 1 r else [] | [] \<Rightarrow> [])"

definition hour_field :: field_parser where
  "hour_field s = two_digits (\<lambda>v. v \<le> 23) s @ one_digit 0 s"

definition minute_field :: field_parser where
  "minute_field s = two_digits (\<lambda>v. v \<le> 59) s @ one_digit 0 s"

definition second_field :: field_parser where
  "second_field s = two_digits (\<lambda>v. v \<le> 61) s @ one_digit 0 s"

text \<open>All readings of the whole string, in the order the backtracking finds them.\<close>

fun parse_fields :: "field_parser list \<Rightarrow> string \<Rightarrow> int list list" where
  "parse_fields [] s = (if s = [] then [[]] else [])"
| "parse_fields (f # fs) s = concat (map (\<lambda>(v, r). map ((#) v) (parse_fields fs r)) (f s))"

definition strptime :: "string \<Rightarrow> instant res" where
  "strptime s =
     (case parse_fields [year_field, month_field, day_field, hour_field, minute_field, second_field] s of
        [y, m, d, h, mi, sec] # _ \<Rightarrow>
          (if sec < 60 then res_bind (instant_of (Civil y m d h mi)) (\<lambda>t. Inr (t + seconds sec)) else Inl ValueError)
      | _ \<Rightarrow> Inl ValueError)"

text \<open>\<open>str(long_time)\<close>; the text of a float always has a point or an exponent, which no field accepts.\<close>

fun str_of :: "pyval \<Rightarrow> string option" where
  "str_of (PStr s) = Some s"
| "str_of (PInt i) = Some (int_to_string i)"
| "str_of _ = None"

text \<open>
  The fourteen digits of the date and time, then milliseconds. Every exception gives None, and
  so does everything that is false.
\<close>

definition get_date_time :: "pyval \<Rightarrow> instant option" where
  "get_date_time v =
     (if truthy v then
        (case str_of v of None \<Rightarrow> None
         | Some s \<Rightarrow>
             (let ts = drop 14 s
              in case (if ts = [] then Inr 0 else int_of_string ts) of
                   Inl e \<Rightarrow> None
                 | Inr ms \<Rightarrow> (case strptime (take 14 s) of Inl e \<Rightarrow> None | Inr t \<Rightarrow> Some (t + ms * 1000))))
      else None)"

section \<open>traverse_tree\<close>

text \<open>
  The value under the first occurrence of a key, nested dictionaries being searched where they
  stand; an answer from a nested dictionary counts only if it is true. The last argument is the
  answer so far.
\<close>

fun traverse_items :: "(string \<times> pyval) list \<Rightarrow> string \<Rightarrow> pyval \<Rightarrow> pyval" where
  "traverse_items [] key answer = answer"
| "traverse_items ((k, v) # kvs) key answer =
     (if k = key then v
      else (case v of
              PDict d \<Rightarrow> (let a = traverse_items d key PNone in if truthy a then a else traverse_items kvs key a)
            | _ \<Rightarrow> traverse_items kvs key PNone))"

fun traverse_tree :: "pyval \<Rightarrow> string \<Rightarrow> pyval" where
  "traverse_tree (PDict d) key = traverse_items d key PNone"
| "traverse_tree v key = v"

section \<open>AVPContext\<close>

text \<open>
  The list of configured brokers is fixed; \<open>attrs\<close> are the attributes that hold client objects.
  Constructing a client is a parameter: it raises, or returns whether it is connectedected.
\<close>

record broker_info =
  bi_instance :: string
  bi_class :: "string option"

record context_obj =
  cx_config :: "broker_info list"
  cx_brokers :: "string list"
  cx_attrs :: "string list"

type_synonym 'w construct = "string \<Rightarrow> string \<Rightarrow> 'w \<Rightarrow> bool res \<times> 'w"

text \<open>\<open>shutdown\<close>: the clients are unsubscribed and disconnected in reverse order of the configuration.\<close>

definition shutdown_one :: "string list \<Rightarrow> broker_info \<Rightarrow> context_obj \<times> string list \<Rightarrow> context_obj \<times> string list" where
  "shutdown_one args info cl =
     (case cl of (cx, gone) \<Rightarrow>
        let n = bi_instance info
        in if (n \<in> set args \<or> ''all'' \<in> set args) \<and> n \<in> set (cx_attrs cx)
           then (cx\<lparr>cx_brokers := remove1 n (cx_brokers cx)\<rparr>, gone @ [n])
           else (cx, gone))"

definition shutdown_context :: "string list \<Rightarrow> context_obj \<Rightarrow> context_obj \<times> string list" where
  "shutdown_context args cx = fold (shutdown_one args) (rev (cx_config cx)) (cx, [])"

definition start_broker :: "'w construct \<Rightarrow> broker_info \<Rightarrow> context_obj \<times> 'w \<Rightarrow> pyexn option \<times> context_obj \<times> 'w" where
  "start_broker mk info cw =
     (case cw of (cx, w) \<Rightarrow>
        if bi_instance info \<in> set (cx_brokers cx) then (None, cx, w)
        else (case bi_class info of None \<Rightarrow> (None, cx, w)
              | Some cl \<Rightarrow>
                  (case mk (bi_instance info) cl w of
                     (Inl e, w1) \<Rightarrow> (Some e, cx, w1)
                   | (Inr conn, w1) \<Rightarrow>
                       (let cx1 = cx\<lparr>cx_attrs := List.insert (bi_instance info) (cx_attrs cx),
                                     cx_brokers := cx_brokers cx @ [bi_instance info]\<rparr>
                        in (None, if conn then cx1 else fst (shutdown_context [bi_instance info] cx1), w1)))))"

text \<open>\<open>startup\<close>: one retry after AttributeError; any other exception leaves the loop.\<close>

fun startup :: "'w construct \<Rightarrow> string list \<Rightarrow> broker_info list \<Rightarrow> context_obj \<times> 'w \<Rightarrow> pyexn option \<times> context_obj \<times> 'w" where
  "startup mk names [] cw = (None, cw)"
| "startup mk names (info # infos) cw =
     (if bi_instance info \<in> set names \<or> ''all'' \<in> set names then
        (let (x, cw1) = start_broker mk info cw;
             (x2, cw2) = (if x = Some AttributeError then start_broker mk info cw1 else (x, cw1))
         in if x2 = None \<or> x2 = Some AttributeError then startup mk names infos cw2 else (x2, cw2))
      else startup mk names infos cw)"

section \<open>Lemmas\<close>

subsection \<open>Letters\<close>

lemma char_cases_le: "(of_char c :: nat) < 256"
  by (metis of_char_mod_256 mod_less_divisor zero_less_numeral)

lemma of_char_char_of_less: "n < 256 \<Longrightarrow> (of_char (char_of (n :: nat)) :: nat) = n"
  by (simp add: of_char_of)

lemma to_lower_idem [simp]: "to_lower (to_lower c) = to_lower c"
  using char_cases_le[of c] by (auto simp: to_lower_def is_upper_def of_char_char_of_less)

lemma to_lower_other [simp]: "\<not> is_upper c \<Longrightarrow> to_lower c = c"
  by (simp add: to_lower_def)

lemma to_lower_letter:
  "is_upper (to_lower c) \<or> is_lower (to_lower c) \<longleftrightarrow> is_upper c \<or> is_lower c"
  using char_cases_le[of c] by (auto simp: to_lower_def is_upper_def is_lower_def of_char_char_of_less)

lemma to_upper_lower: "to_upper (to_lower c) = to_upper c"
  using char_cases_le[of c]
  by (auto simp: to_lower_def to_upper_def is_upper_def is_lower_def of_char_char_of_less)

lemma title_from_lower: "title_from w (map to_lower s) = title_from w s"
  by (induction w s rule: title_from.induct) (auto simp: to_upper_lower to_lower_letter)

lemma blank_lower: "is_blank (to_lower c) = is_blank c"
  using char_cases_le[of c] by (auto simp: to_lower_def is_upper_def is_blank_def of_char_char_of_less Let_def)

lemma dropWhile_map_lower: "dropWhile is_blank (map to_lower s) = map to_lower (dropWhile is_blank s)"
  by (simp add: dropWhile_map comp_def blank_lower)

lemma strip_lower: "strip (map to_lower s) = map to_lower (strip s)"
  by (simp add: strip_def dropWhile_map_lower rev_map)

lemma float_lower: "float_of_string (map to_lower s) = float_of_string s"
  by (simp add: float_of_string_def strip_lower comp_def)

subsection \<open>Digits\<close>

definition pad2 :: "int \<Rightarrow> string" where
  "pad2 n = [digit_char (nat (n div 10)), digit_char (nat (n mod 10))]"

definition pad3 :: "int \<Rightarrow> string" where
  "pad3 n = digit_char (nat (n div 100)) # pad2 (n mod 100)"

definition pad4 :: "int \<Rightarrow> string" where
  "pad4 n = digit_char (nat (n div 1000)) # pad3 (n mod 1000)"

lemma digit_char_digit: "n < 10 \<Longrightarrow> is_digit (digit_char n) \<and> digit_val (digit_char n) = int n"
  by (simp add: is_digit_def digit_val_def of_char_of)

lemma pad_digit:
  assumes "0 \<le> n" "n < 10 * k" "0 < (k::int)"
  shows "is_digit (digit_char (nat (n div k)))" "digit_val (digit_char (nat (n div k))) = n div k"
proof -
  have "0 \<le> n div k" using assms by (simp add: pos_imp_zdiv_nonneg_iff)
  moreover have "n div k < 10"
  proof -
    have "k * (n div k) \<le> n" using assms(3) pos_mod_sign[of k n] by (simp add: minus_mod_eq_mult_div[symmetric])
    with assms(2) have "k * (n div k) < k * 10" by simp
    with assms(3) show ?thesis by simp
  qed
  ultimately show "is_digit (digit_char (nat (n div k)))" "digit_val (digit_char (nat (n div k))) = n div k"
    using digit_char_digit[of "nat (n div k)"] by auto
qed

definition digit_of :: "char \<Rightarrow> int \<Rightarrow> bool" where
  "digit_of c v \<longleftrightarrow> is_digit c \<and> digit_val c = v"

lemma digit_of_pad: "0 \<le> n \<Longrightarrow> n < 10 * k \<Longrightarrow> 0 < k \<Longrightarrow> digit_of (digit_char (nat (n div k))) (n div k)"
  unfolding digit_of_def using pad_digit by blast

lemma digit_of_last: "0 \<le> n \<Longrightarrow> n < 10 \<Longrightarrow> digit_of (digit_char (nat n)) n"
  using digit_of_pad[of n 1] by simp

lemma pad2_digits:
  assumes "0 \<le> n" "n < 100"
  obtains a b where "pad2 n = [a, b]" "digit_of a (n div 10)" "digit_of b (n mod 10)"
  using digit_of_pad[of n 10] digit_of_last[of "n mod 10"] assms unfolding pad2_def by auto

lemma pad3_digits:
  assumes "0 \<le> n" "n < 1000"
  obtains a b c where "pad3 n = [a, b, c]" "is_digit a" "is_digit b" "is_digit c"
    "100 * digit_val a + 10 * digit_val b + digit_val c = n"
proof -
  define r where "r = n mod 100"
  have r: "0 \<le> r" "r < 100" by (simp_all add: r_def)
  obtain b c where bc: "pad2 r = [b, c]" "digit_of b (r div 10)" "digit_of c (r mod 10)" by (rule pad2_digits[OF r])
  have a: "digit_of (digit_char (nat (n div 100))) (n div 100)" using digit_of_pad[of n 100] assms by simp
  have "100 * (n div 100) + 10 * (r div 10) + r mod 10 = n"
    using mult_div_mod_eq[of 100 n] mult_div_mod_eq[of 10 r] unfolding r_def by linarith
  with a bc that show thesis unfolding pad3_def r_def[symmetric] by (simp add: digit_of_def)
qed

lemma pad4_digits:
  assumes "0 \<le> n" "n < 10000"
  obtains a b c d where "pad4 n = [a, b, c, d]" "is_digit a" "is_digit b" "is_digit c" "is_digit d"
    "1000 * digit_val a + 100 * digit_val b + 10 * digit_val c + digit_val d = n"
proof -
  define r where "r = n mod 1000"
  have r: "0 \<le> r" "r < 1000" by (simp_all add: r_def)
  obtain b c d where bcd: "pad3 r = [b, c, d]" "is_digit b" "is_digit c" "is_digit d"
    "100 * digit_val b + 10 * digit_val c + digit_val d = r" by (rule pad3_digits[OF r])
  have a: "digit_of (digit_char (nat (n div 1000))) (n div 1000)" using digit_of_pad[of n 1000] assms by simp
  have "1000 * (n div 1000) + (100 * digit_val b + 10 * digit_val c + digit_val d) = n"
    using mult_div_mod_eq[of 1000 n] bcd(5) unfolding r_def by linarith
  with a bcd that show thesis unfolding pad4_def r_def[symmetric] by (simp add: digit_of_def)
qed

lemma two_digits_pad2:
  assumes "0 \<le> n" "n < 100" "ok n"
  shows "two_digits ok (pad2 n @ r) = [(n, r)]"
proof -
  obtain a b where "pad2 n = [a, b]" "digit_of a (n div 10)" "digit_of b (n mod 10)"
    by (rule pad2_digits[OF assms(1,2)])
  then show ?thesis using assms(3) by (simp add: two_digits_def digit_of_def)
qed

lemma year_pad4:
  assumes "0 \<le> n" "n < 10000"
  shows "year_field (pad4 n @ r) = [(n, r)]"
proof -
  obtain a b c d where "pad4 n = [a, b, c, d]" "is_digit a" "is_digit b" "is_digit c" "is_digit d"
    "1000 * digit_val a + 100 * digit_val b + 10 * digit_val c + digit_val d = n"
    by (rule pad4_digits[OF assms])
  then show ?thesis by (simp add: year_field_def)
qed

text \<open>A field whose preferred reading is the one wanted leads to it.\<close>

definition leads :: "field_parser \<Rightarrow> int \<Rightarrow> string \<Rightarrow> string \<Rightarrow> bool" where
  "leads f v s r \<longleftrightarrow> (\<exists>alts. f s = (v, r) # alts)"

definition first_parse :: "field_parser list \<Rightarrow> string \<Rightarrow> int list \<Rightarrow> bool" where
  "first_parse fs s x \<longleftrightarrow> (\<exists>xs. parse_fields fs s = x # xs)"

lemma first_parse_Nil: "first_parse [] [] []"
  by (simp add: first_parse_def)

lemma first_parse_Cons: "leads f v s r \<Longrightarrow> first_parse fs r x \<Longrightarrow> first_parse (f # fs) s (v # x)"
  by (auto simp: leads_def first_parse_def)

lemma leads_fields:
  "0 \<le> y \<Longrightarrow> y < 10000 \<Longrightarrow> leads year_field y (pad4 y @ r) r"
  "1 \<le> m \<Longrightarrow> m \<le> 12 \<Longrightarrow> leads month_field m (pad2 m @ r) r"
  "1 \<le> d \<Longrightarrow> d \<le> 31 \<Longrightarrow> leads day_field d (pad2 d @ r) r"
  "0 \<le> h \<Longrightarrow> h \<le> 23 \<Longrightarrow> leads hour_field h (pad2 h @ r) r"
  "0 \<le> mi \<Longrightarrow> mi \<le> 59 \<Longrightarrow> leads minute_field mi (pad2 mi @ r) r"
  "0 \<le> sec \<Longrightarrow> sec \<le> 61 \<Longrightarrow> leads second_field sec (pad2 sec @ r) r"
  by (simp_all add: leads_def year_pad4 month_field_def day_field_def hour_field_def minute_field_def
      second_field_def two_digits_pad2)

text \<open>The stamp the brokers send: date, time and milliseconds, all digits.\<close>

definition stamp :: "civil \<Rightarrow> int \<Rightarrow> int \<Rightarrow> string" where
  "stamp c sec ms =
     pad4 (cyear c) @ pad2 (cmonth c) @ pad2 (cday c) @ pad2 (chour c) @ pad2 (cminute c) @ pad2 sec @ pad3 ms"

lemma strptime_stamp:
  assumes "valid_civil (Civil y m d h mi)" "0 \<le> sec" "sec < 60"
  shows "strptime (pad4 y @ pad2 m @ pad2 d @ pad2 h @ pad2 mi @ pad2 sec) =
     res_bind (instant_of (Civil y m d h mi)) (\<lambda>t. Inr (t + seconds sec))"
proof -
  have v: "1 \<le> y" "y \<le> 9999" "1 \<le> m" "m \<le> 12" "1 \<le> d" "d \<le> 31" "0 \<le> h" "h < 24" "0 \<le> mi" "mi < 60"
    using assms(1) days_in_month_bounds(2)[of y m] by (auto simp: valid_civil_def valid_date_def)
  have l: "\<And>r. leads year_field y (pad4 y @ r) r" "\<And>r. leads month_field m (pad2 m @ r) r"
    "\<And>r. leads day_field d (pad2 d @ r) r" "\<And>r. leads hour_field h (pad2 h @ r) r"
    "\<And>r. leads minute_field mi (pad2 mi @ r) r" "\<And>r. leads second_field sec (pad2 sec @ r) r"
    using v assms by (simp_all add: leads_fields)
  have "first_parse [year_field, month_field, day_field, hour_field, minute_field, second_field]
      (pad4 y @ pad2 m @ pad2 d @ pad2 h @ pad2 mi @ pad2 sec @ []) [y, m, d, h, mi, sec]"
    by (rule first_parse_Cons[OF l(1)], rule first_parse_Cons[OF l(2)], rule first_parse_Cons[OF l(3)],
        rule first_parse_Cons[OF l(4)], rule first_parse_Cons[OF l(5)], rule first_parse_Cons[OF l(6)],
        rule first_parse_Nil)
  then show ?thesis using assms by (auto simp: strptime_def first_parse_def simp del: parse_fields.simps)
qed

lemma digit_not_blank: "is_digit c \<Longrightarrow> \<not> is_blank c \<and> c \<noteq> CHR ''-'' \<and> c \<noteq> CHR ''+'' \<and> c \<noteq> CHR ''_''"
  by (auto simp: is_digit_def is_blank_def Let_def)

lemma int_of_three_digits:
  assumes "is_digit a" "is_digit b" "is_digit c"
  shows "int_of_string [a, b, c] = Inr (100 * digit_val a + 10 * digit_val b + digit_val c)"
  using assms digit_not_blank[of a] digit_not_blank[of b] digit_not_blank[of c]
  by (simp add: int_of_string_def strip_def)

lemma int_of_pad3:
  assumes "0 \<le> n" "n < 1000"
  shows "int_of_string (pad3 n) = Inr n"
proof -
  obtain a b c where "pad3 n = [a, b, c]" "is_digit a" "is_digit b" "is_digit c"
    "100 * digit_val a + 10 * digit_val b + digit_val c = n"
    by (rule pad3_digits[OF assms])
  then show ?thesis by (simp add: int_of_three_digits)
qed

lemma pad_length [simp]: "length (pad2 n) = 2" "length (pad3 n) = 3" "length (pad4 n) = 4"
  by (simp_all add: pad2_def pad3_def pad4_def)

subsection \<open>The context\<close>

definition context_ok :: "context_obj \<Rightarrow> bool" where
  "context_ok cx \<longleftrightarrow> distinct (cx_brokers cx) \<and> set (cx_brokers cx) \<subseteq> set (cx_attrs cx) \<and>
     set (cx_brokers cx) \<subseteq> set (map bi_instance (cx_config cx))"

lemma shutdown_one_eq:
  "shutdown_one args info (cx, gone) =
     (if (bi_instance info \<in> set args \<or> ''all'' \<in> set args) \<and> bi_instance info \<in> set (cx_attrs cx)
      then (cx\<lparr>cx_brokers := remove1 (bi_instance info) (cx_brokers cx)\<rparr>, gone @ [bi_instance info])
      else (cx, gone))"
  by (simp add: shutdown_one_def Let_def)

lemma shutdown_fold:
  "fold (shutdown_one args) infos (cx, gone) = (cx', gone') \<Longrightarrow>
     cx_config cx' = cx_config cx \<and> cx_attrs cx' = cx_attrs cx \<and>
     (distinct (cx_brokers cx) \<longrightarrow> distinct (cx_brokers cx') \<and>
        set (cx_brokers cx') = set (cx_brokers cx) -
          {n \<in> set (map bi_instance infos). (n \<in> set args \<or> ''all'' \<in> set args) \<and> n \<in> set (cx_attrs cx)}) \<and>
     gone' = gone @ filter (\<lambda>n. (n \<in> set args \<or> ''all'' \<in> set args) \<and> n \<in> set (cx_attrs cx)) (map bi_instance infos)"
proof (induction infos arbitrary: cx gone)
  case (Cons info infos)
  let ?n = "bi_instance info"
  let ?hit = "(?n \<in> set args \<or> ''all'' \<in> set args) \<and> ?n \<in> set (cx_attrs cx)"
  show ?case
  proof (cases ?hit)
    case True
    let ?cx1 = "cx\<lparr>cx_brokers := remove1 ?n (cx_brokers cx)\<rparr>"
    have "fold (shutdown_one args) infos (?cx1, gone @ [?n]) = (cx', gone')"
      using Cons.prems True by (simp add: shutdown_one_eq)
    from Cons.IH[OF this] True show ?thesis by auto
  next
    case False
    have "fold (shutdown_one args) infos (cx, gone) = (cx', gone')"
      using Cons.prems False by (simp add: shutdown_one_eq)
    from Cons.IH[OF this] False show ?thesis by auto
  qed
qed simp

lemma shutdown_context_ok:
  assumes "context_ok cx"
  shows "context_ok (fst (shutdown_context args cx)) \<and> cx_config (fst (shutdown_context args cx)) = cx_config cx"
proof -
  obtain cx' gone where s: "shutdown_context args cx = (cx', gone)" by fastforce
  note f = shutdown_fold[OF this[unfolded shutdown_context_def]]
  have d: "distinct (cx_brokers cx)" using assms by (simp add: context_ok_def)
  have "distinct (cx_brokers cx')" "cx_config cx' = cx_config cx" "cx_attrs cx' = cx_attrs cx"
    using f d by simp_all
  moreover have "set (cx_brokers cx') \<subseteq> set (cx_brokers cx)" using f d by simp
  ultimately show ?thesis using assms unfolding s context_ok_def by (metis fst_conv subset_trans)
qed

lemma start_broker_ok:
  assumes "context_ok cx" "info \<in> set (cx_config cx)" "start_broker mk info (cx, w) = (x, cx', w')"
  shows "context_ok cx' \<and> cx_config cx' = cx_config cx"
proof -
  let ?n = "bi_instance info"
  let ?cx1 = "cx\<lparr>cx_attrs := List.insert ?n (cx_attrs cx), cx_brokers := cx_brokers cx @ [?n]\<rparr>"
  have "context_ok ?cx1" if "?n \<notin> set (cx_brokers cx)" using assms(1,2) that by (auto simp: context_ok_def)
  then show ?thesis using assms shutdown_context_ok[of ?cx1 "[?n]"]
    by (auto simp: start_broker_def Let_def split: if_splits option.splits prod.splits sum.splits)
qed

lemma startup_ok:
  "context_ok cx \<Longrightarrow> set infos \<subseteq> set (cx_config cx) \<Longrightarrow> startup mk names infos (cx, w) = (x, cx', w') \<Longrightarrow>
     context_ok cx' \<and> cx_config cx' = cx_config cx"
proof (induction infos arbitrary: cx w)
  case (Cons info infos)
  obtain x1 cx1 w1 where s1: "start_broker mk info (cx, w) = (x1, cx1, w1)" by (rule prod_cases3)
  obtain x2 cx2 w2 where s2: "start_broker mk info (cx1, w1) = (x2, cx2, w2)" by (rule prod_cases3)
  have ok1: "context_ok cx1 \<and> cx_config cx1 = cx_config cx"
    using start_broker_ok[OF Cons.prems(1) _ s1] Cons.prems(2) by simp
  have ok2: "context_ok cx2 \<and> cx_config cx2 = cx_config cx"
    using start_broker_ok[OF _ _ s2] ok1 Cons.prems(2) by simp
  have sub: "set infos \<subseteq> set (cx_config cx)" using Cons.prems(2) by simp
  consider "startup mk names infos (cx, w) = (x, cx', w')" | "cx' = cx1" | "cx' = cx2"
    | "startup mk names infos (cx1, w1) = (x, cx', w')" | "startup mk names infos (cx2, w2) = (x, cx', w')"
    using Cons.prems(3) s1 s2 by (auto simp: Let_def split: if_splits)
  then show ?case
  proof cases
    case 1
    from Cons.IH[OF Cons.prems(1) sub 1] show ?thesis .
  next
    case 4
    from Cons.IH[OF _ _ 4] ok1 sub show ?thesis by simp
  next
    case 5
    from Cons.IH[OF _ _ 5] ok2 sub show ?thesis by simp
  qed (use ok1 ok2 in simp_all)
qed simp

section \<open>Properties\<close>

text \<open>
  C11. The time stamps of the brokers are read back exactly: the stamp of a civil time that
  exists, with seconds and milliseconds, gives that instant.
\<close>

theorem get_date_time_stamp:
  assumes "instant_of c = Inr t" "0 \<le> sec" "sec < 60" "0 \<le> ms" "ms < 1000"
  shows "get_date_time (PStr (stamp c sec ms)) = Some (t + seconds sec + ms * 1000)"
proof -
  obtain y m d h mi where c: "c = Civil y m d h mi" by (cases c)
  let ?ds = "pad4 y @ pad2 m @ pad2 d @ pad2 h @ pad2 mi @ pad2 sec"
  have v: "valid_civil c" using assms(1) by (simp add: instant_of_def split: if_splits)
  have st: "stamp c sec ms = ?ds @ pad3 ms" by (simp add: stamp_def c)
  have len: "length ?ds = 14" by simp
  have "strptime ?ds = Inr (t + seconds sec)" using strptime_stamp[OF v[unfolded c] assms(2,3)] assms(1) c by simp
  moreover have "take 14 (?ds @ pad3 ms) = ?ds" "drop 14 (?ds @ pad3 ms) = pad3 ms" "pad3 ms \<noteq> []"
    using len by (simp_all del: length_append add: pad3_def)
  ultimately show ?thesis unfolding get_date_time_def st by (simp add: int_of_pad3 assms Let_def)
qed

lemma demo_stamp: "stamp (Civil 2024 3 1 9 30) 7 250 = ''20240301093007250''"
  by code_simp

lemma demo_instant: "instant_of (Civil 2024 3 1 9 30) = Inr 63844968600000000"
  by code_simp

theorem get_date_time_stamp_witness:
  "get_date_time (PStr ''20240301093007250'') = Some 63844968607250000"
  using get_date_time_stamp[OF demo_instant, of 7 250] by (simp add: demo_stamp seconds_def)

text \<open>
  The reading of a string as a boolean does not depend on the case of its letters.
\<close>

theorem t_or_f_case_insensitive: "t_or_f (PStr (map to_lower s)) = t_or_f (PStr s)"
  by (simp add: title_def title_from_lower float_lower)

text \<open>
  Whatever happened while the clients were started, shutting all of them down leaves no
  client registered, and disconnects the objects in the reverse order of the configuration.
\<close>

theorem startup_then_shutdown:
  assumes "startup mk names (cx_config cx) (cx, w) = (x, cx', w')" "cx_brokers cx = []"
  shows "cx_brokers (fst (shutdown_context [''all''] cx')) = [] \<and>
    snd (shutdown_context [''all''] cx') = filter (\<lambda>n. n \<in> set (cx_attrs cx')) (rev (map bi_instance (cx_config cx)))"
proof -
  have "context_ok cx" using assms(2) by (simp add: context_ok_def)
  from startup_ok[OF this _ assms(1)] have ok: "context_ok cx'" "cx_config cx' = cx_config cx" by simp_all
  obtain cx2 gone where s: "shutdown_context [''all''] cx' = (cx2, gone)" by fastforce
  from shutdown_fold[of "[''all'']" "rev (cx_config cx')" cx' "[]" cx2 gone] s ok(1)
  have "set (cx_brokers cx2) = {}" and g: "gone = filter (\<lambda>n. n \<in> set (cx_attrs cx')) (map bi_instance (rev (cx_config cx')))"
    by (auto simp: shutdown_context_def context_ok_def)
  then show ?thesis using s ok(2) by (simp add: rev_map)
qed

definition two_brokers :: context_obj where
  "two_brokers = \<lparr>cx_config = [\<lparr>bi_instance = ''mm3'', bi_class = Some ''MM3Broker''\<rparr>,
      \<lparr>bi_instance = ''sonde'', bi_class = Some ''SondeBroker''\<rparr>], cx_brokers = [], cx_attrs = []\<rparr>"

text \<open>A constructor whose sonde client finds no broker to connect to.\<close>

definition no_sonde :: "unit construct" where
  "no_sonde n cl w = (Inr (n = ''mm3''), w)"

theorem startup_then_shutdown_witness:
  "snd (shutdown_context [''all''] (fst (snd (startup no_sonde [''all''] (cx_config two_brokers) (two_brokers, ()))))) = [''sonde'', ''mm3'']"
proof -
  have e: "startup no_sonde [''all''] (cx_config two_brokers) (two_brokers, ()) =
      (None, two_brokers\<lparr>cx_brokers := [''mm3''], cx_attrs := [''sonde'', ''mm3'']\<rparr>, ())" by code_simp
  from startup_then_shutdown[OF e] show ?thesis unfolding e by (simp add: two_brokers_def)
qed

end
