(* ===== verification/Rpc.thy ===== *)
theory Rpc
  imports Util
begin

text \<open>
  The JSON-RPC channel of a broker client: class \<open>SocketHandler\<close> of src/python/avp_broker.py.
  One thread reads the lines the broker sends and sorts them into replies, by their id, and
  notifications, in order of arrival; \<open>send_rpc\<close> sends a request and polls the replies until its
  own has come or its time is over. The theory also states, as a locale, what the clients rely
  on: that a call returns a dictionary.
\<close>

section \<open>State\<close>

text \<open>A line from the socket, after the JSON parser: None when the parser raises ValueError.\<close>

type_synonym wire_line = "pyval option"

record socket_handler =
  so_connected :: bool
  so_running :: bool
  so_alive :: bool
  so_rx_r :: "(pyval \<times> pyval) list"
  so_rx_n :: "pyval list"
  so_tries :: nat
  so_timeout :: int

text \<open>Lists and dictionaries cannot be keys.\<close>

fun hashable :: "pyval \<Rightarrow> bool" where
  "hashable (PList xs) = False"
| "hashable (PDict d) = False"
| "hashable _ = True"

section \<open>The receiving thread\<close>

text \<open>
  One turn of \<open>run\<close> with a line to read. A line that is no JSON drops the connection; a message
  that is no dictionary, or has an id that cannot be a key, ends the thread (\<open>so_alive\<close>).
\<close>

definition recv_line :: "wire_line \<Rightarrow> socket_handler \<Rightarrow> socket_handler" where
  "recv_line line s =
     (if \<not> so_running s \<or> \<not> so_connected s \<or> \<not> so_alive s then s
      else (case line of
              None \<Rightarrow> s\<lparr>so_connected := False\<rparr>
            | Some (PDict d) \<Rightarrow>
                (case dget_or d ''id'' PNone of
                   PNone \<Rightarrow> s\<lparr>so_rx_n := so_rx_n s @ [PDict d]\<rparr>
                 | i \<Rightarrow> if hashable i then s\<lparr>so_rx_r := dset (so_rx_r s) i (PDict d)\<rparr> else s\<lparr>so_alive := False\<rparr>)
            | Some v \<Rightarrow> s\<lparr>so_alive := False\<rparr>))"

text \<open>\<open>start_connection\<close>: an attempt that fails only counts.\<close>

definition start_connection :: "bool \<Rightarrow> socket_handler \<Rightarrow> socket_handler" where
  "start_connection accepts s =
     (if accepts then s\<lparr>so_connected := True, so_tries := 0\<rparr> else s\<lparr>so_tries := so_tries s + 1\<rparr>)"

text \<open>What can happen to the thread: a line to read while connected, else an attempt to connect.\<close>

datatype wire_event = Line wire_line | Attempt bool

fun recv_event :: "wire_event \<Rightarrow> socket_handler \<Rightarrow> socket_handler" where
  "recv_event (Line line) s = recv_line line s"
| "recv_event (Attempt accepts) s =
     (if so_running s \<and> so_alive s \<and> \<not> so_connected s then start_connection accepts s else s)"

section \<open>Calls\<close>

record rpc_request =
  rq_method :: string
  rq_id :: int
  rq_timeout :: "int option"
  rq_params :: "pyval option"

text \<open>\<open>_send\<close>: a failing write stops the handler.\<close>

definition send :: "bool \<Rightarrow> socket_handler \<Rightarrow> nat \<times> socket_handler" where
  "send write_ok s =
     (if \<not> so_running s then (0, s)
      else if write_ok then (1, s) else (0, s\<lparr>so_running := False\<rparr>))"

text \<open>
  \<open>_get_reply\<close>. The rounds are the passes of the polling loop before the end time, each with
  what the receiving thread does during the pause that ends the pass. A \<open>select\<close> on a closed
  file ends the loop as well, which is a shorter list of rounds.
\<close>

definition timeout_error :: pyval where
  "timeout_error = msg_error ''Response timed out'' 0"

fun get_reply :: "int \<Rightarrow> wire_event list list \<Rightarrow> socket_handler \<Rightarrow> pyval \<times> socket_handler" where
  "get_reply i [] s = (timeout_error, s)"
| "get_reply i (ls # rounds) s =
     (case dget (so_rx_r s) (PInt i) of
        Some v \<Rightarrow> (v, s\<lparr>so_rx_r := dpop (so_rx_r s) (PInt i)\<rparr>)
      | None \<Rightarrow> get_reply i rounds (fold recv_event ls s))"

definition send_rpc :: "bool \<Rightarrow> wire_event list list \<Rightarrow> rpc_request \<Rightarrow> socket_handler \<Rightarrow> pyval \<times> socket_handler" where
  "send_rpc write_ok rounds rq s =
     (if \<not> so_connected s then (msg_error ''Not connected to broker.'' 0, s)
      else get_reply (rq_id rq) rounds (snd (send write_ok s)))"

definition shutdown_socket :: "socket_handler \<Rightarrow> socket_handler" where
  "shutdown_socket s = (if so_running s then s\<lparr>so_running := False\<rparr> else s)"

section \<open>Lemmas\<close>

text \<open>Every stored reply is a dictionary that carries the id it is stored under.\<close>

definition replies_ok :: "socket_handler \<Rightarrow> bool" where
  "replies_ok s \<longleftrightarrow> (\<forall>i v. dget (so_rx_r s) i = Some v \<longrightarrow> (\<exists>d. v = PDict d \<and> dget d ''id'' = Some i))"

lemma recv_line_ok: "replies_ok s \<Longrightarrow> replies_ok (recv_line line s)"
  by (auto simp: recv_line_def replies_ok_def dict_simps split: option.split pyval.split)

lemma recv_event_ok: "replies_ok s \<Longrightarrow> replies_ok (recv_event e s)"
  by (cases e) (auto simp: recv_line_ok start_connection_def, auto simp: replies_ok_def)

lemma recv_events_ok: "replies_ok s \<Longrightarrow> replies_ok (fold recv_event es s)"
  by (induction es arbitrary: s) (auto simp: recv_event_ok)

lemma get_reply_ok: "replies_ok s \<Longrightarrow> get_reply i rounds s = (v, s') \<Longrightarrow>
    replies_ok s' \<and> (v = timeout_error \<or> (\<exists>d. v = PDict d \<and> dget d ''id'' = Some (PInt i)))"
proof (induction rounds arbitrary: s)
  case (Cons ls rounds)
  show ?case
  proof (cases "dget (so_rx_r s) (PInt i)")
    case None
    with Cons.prems(2) have "get_reply i rounds (fold recv_event ls s) = (v, s')" by simp
    from Cons.IH[OF recv_events_ok[OF Cons.prems(1)] this] show ?thesis .
  next
    case (Some u)
    with Cons.prems(2) have "u = v" "s' = s\<lparr>so_rx_r := dpop (so_rx_r s) (PInt i)\<rparr>" by simp_all
    with Cons.prems(1) Some show ?thesis unfolding replies_ok_def by (simp add: dget_dpop)
  qed
qed simp

text \<open>What the thread does while it is connected and reads nothing but messages.\<close>

definition msg_ok :: "wire_line \<Rightarrow> bool" where
  "msg_ok line \<longleftrightarrow> (\<exists>d. line = Some (PDict d) \<and> hashable (dget_or d ''id'' PNone))"

definition is_note :: "wire_line \<Rightarrow> bool" where
  "is_note line \<longleftrightarrow> (case line of Some (PDict d) \<Rightarrow> dget_or d ''id'' PNone = PNone | _ \<Rightarrow> False)"

definition open_socket :: "socket_handler \<Rightarrow> bool" where
  "open_socket s \<longleftrightarrow> so_running s \<and> so_connected s \<and> so_alive s"

lemma recv_line_open:
  assumes "open_socket s" "msg_ok line"
  shows "open_socket (recv_line line s) \<and>
    so_rx_n (recv_line line s) = so_rx_n s @ (if is_note line then [the line] else [])"
  using assms by (auto simp: recv_line_def open_socket_def msg_ok_def is_note_def split: pyval.split)

lemma recv_lines_open:
  "open_socket s \<Longrightarrow> \<forall>l \<in> set ls. msg_ok l \<Longrightarrow> open_socket (fold recv_event (map Line ls) s) \<and>
    so_rx_n (fold recv_event (map Line ls) s) = so_rx_n s @ map the (filter is_note ls)"
proof (induction ls arbitrary: s)
  case (Cons l ls)
  with recv_line_open[of s l] Cons.IH[of "recv_line l s"] show ?case by auto
qed simp

text \<open>A line changes the reply under one id only.\<close>

definition reply_of :: "int \<Rightarrow> wire_line \<Rightarrow> bool" where
  "reply_of i line \<longleftrightarrow> (\<exists>d. line = Some (PDict d) \<and> dget d ''id'' = Some (PInt i))"

lemma recv_line_other:
  "\<not> reply_of i line \<Longrightarrow> dget (so_rx_r (recv_line line s)) (PInt i) = dget (so_rx_r s) (PInt i)"
  by (auto simp: recv_line_def reply_of_def dict_simps split: option.split pyval.split)

lemma recv_lines_other:
  "\<forall>l \<in> set ls. \<not> reply_of i l \<Longrightarrow>
     dget (so_rx_r (fold recv_event (map Line ls) s)) (PInt i) = dget (so_rx_r s) (PInt i)"
  by (induction ls arbitrary: s) (auto simp: recv_line_other)

lemma recv_line_reply:
  "open_socket s \<Longrightarrow> dget d ''id'' = Some (PInt i) \<Longrightarrow>
     dget (so_rx_r (recv_line (Some (PDict d)) s)) (PInt i) = Some (PDict d)"
  by (auto simp: recv_line_def open_socket_def dict_simps)

section \<open>The interface of the clients\<close>

text \<open>
  What a client knows of a call: it returns a dictionary, in every state the channel can reach.
\<close>

type_synonym 'w rpc_fun = "rpc_request \<Rightarrow> 'w \<Rightarrow> pyval \<times> 'w"

locale rpc_channel =
  fixes rpc :: "'w rpc_fun" and usable :: "'w \<Rightarrow> bool"
  assumes rpc_dict: "usable w \<Longrightarrow> is_dict (fst (rpc rq w))"
    and rpc_usable: "usable w \<Longrightarrow> usable (snd (rpc rq w))"
begin

lemma rpc_reply: "usable w \<Longrightarrow> \<exists>d w'. rpc rq w = (PDict d, w') \<and> usable w'"
  using rpc_dict[of w rq] rpc_usable[of w rq] by (cases "rpc rq w") (auto simp: is_dict_conv)

end

text \<open>
  The socket as such a channel. Its state has, besides the handler, what the network is going
  to do: for every call whether the write succeeds and what arrives in which round.
\<close>

record socket_world =
  sw_handler :: socket_handler
  sw_script :: "(bool \<times> wire_event list list) list"

definition socket_rpc :: "socket_world rpc_fun" where
  "socket_rpc rq w =
     (case sw_script w of
        [] \<Rightarrow> (case send_rpc False [] rq (sw_handler w) of (v, s) \<Rightarrow> (v, w\<lparr>sw_handler := s\<rparr>))
      | (write_ok, rounds) # rest \<Rightarrow>
          (case send_rpc write_ok rounds rq (sw_handler w) of (v, s) \<Rightarrow> (v, w\<lparr>sw_handler := s, sw_script := rest\<rparr>)))"

definition socket_usable :: "socket_world \<Rightarrow> bool" where
  "socket_usable w \<longleftrightarrow> replies_ok (sw_handler w)"

lemma send_replies: "replies_ok (snd (send b s)) = replies_ok s"
  by (simp add: send_def replies_ok_def)

lemma send_rpc_ok:
  "replies_ok s \<Longrightarrow> send_rpc b rounds rq s = (v, s') \<Longrightarrow>
     replies_ok s' \<and> (v = timeout_error \<or> v = msg_error ''Not connected to broker.'' 0 \<or>
       (\<exists>d. v = PDict d \<and> dget d ''id'' = Some (PInt (rq_id rq))))"
  using get_reply_ok[of "snd (send b s)" "rq_id rq" rounds v s']
  by (auto simp: send_rpc_def send_replies split: if_splits)

lemma error_dict [simp]: "is_dict (msg_error m c)" "is_dict timeout_error"
  by (simp_all add: msg_error_def timeout_error_def)

lemma socket_rpc_ok: "socket_usable w \<Longrightarrow> is_dict (fst (socket_rpc rq w)) \<and> socket_usable (snd (socket_rpc rq w))"
  using send_rpc_ok[of "sw_handler w"]
  by (fastforce simp: socket_rpc_def socket_usable_def split: list.split prod.split)

interpretation sock: rpc_channel socket_rpc socket_usable
  by unfold_locales (simp_all add: socket_rpc_ok)

section \<open>Properties\<close>


definition idle_socket :: socket_handler where
  "idle_socket = \<lparr>so_connected = True, so_running = True, so_alive = True, so_rx_r = [], so_rx_n = [],
     so_tries = 0, so_timeout = 5\<rparr>"

definition demo_request :: rpc_request where
  "demo_request = \<lparr>rq_method = ''status'', rq_id = 7, rq_timeout = None, rq_params = None\<rparr>"

definition demo_lines :: "wire_event list list" where
  "demo_lines = [[Line (Some (PDict [(''id'', PInt 6), (''result'', PStr ''late'')])),
       Line (Some (PDict [(''method'', PStr ''subscription'')]))],
     [Line (Some (PDict [(''id'', PInt 7), (''result'', PStr ''ok'')]))], []]"

lemma idle_replies: "replies_ok idle_socket"
  by (simp add: idle_socket_def replies_ok_def)

lemma demo_call: "fst (send_rpc True demo_lines demo_request idle_socket) = PDict [(''id'', PInt 7), (''result'', PStr ''ok'')]"
  by code_simp


text \<open>
  While the connection is up and the broker sends messages, notifications are kept in the
  order of their arrival, none is lost and no reply gets among them.
\<close>

theorem notifications_in_order:
  assumes "open_socket s" "\<forall>l \<in> set ls. msg_ok l"
  shows "so_rx_n (fold recv_event (map Line ls) s) = so_rx_n s @ map the (filter is_note ls) \<and>
    open_socket (fold recv_event (map Line ls) s)"
  using recv_lines_open[OF assms] by blast

definition demo_messages :: "wire_line list" where
  "demo_messages = [Some (PDict [(''method'', PStr ''a'')]), Some (PDict [(''id'', PInt 7)]), Some (PDict [(''method'', PStr ''b'')])]"

lemma demo_messages_ok: "\<forall>l \<in> set demo_messages. msg_ok l"
  by (simp add: demo_messages_def msg_ok_def dget_or_def)

lemma idle_open: "open_socket idle_socket"
  by (simp add: open_socket_def idle_socket_def)

theorem notifications_in_order_witness:
  "so_rx_n (fold recv_event (map Line demo_messages) idle_socket) =
     [PDict [(''method'', PStr ''a'')], PDict [(''method'', PStr ''b'')]]"
  using conjunct1[OF notifications_in_order[OF idle_open demo_messages_ok]]
  by (simp add: idle_socket_def demo_messages_def is_note_def dget_or_def)

text \<open>
  A reply that arrives in time is returned: if nothing is stored under the id of the request
  and a message with that id arrives in a round that is not the last one, the call returns the
  last such message of that round.
\<close>

theorem reply_in_time:
  assumes "open_socket s" "dget (so_rx_r s) (PInt i) = None"
    and "\<forall>l \<in> set ls1. msg_ok l" "dget d ''id'' = Some (PInt i)" "\<forall>l \<in> set ls2. \<not> reply_of i l"
  shows "fst (get_reply i (map Line (ls1 @ [Some (PDict d)] @ ls2) # r # rounds) s) = PDict d"
proof -
  have o: "open_socket (fold recv_event (map Line ls1) s)" using recv_lines_open[OF assms(1,3)] by blast
  have "dget (so_rx_r (fold recv_event (map Line (ls1 @ [Some (PDict d)] @ ls2)) s)) (PInt i) = Some (PDict d)"
    using recv_line_reply[OF o assms(4)] recv_lines_other[OF assms(5)] by simp
  then show ?thesis using assms(2) by simp
qed

theorem reply_in_time_witness:
  "fst (get_reply 7 [map Line ([Some (PDict [(''id'', PInt 6)])] @ [Some (PDict [(''id'', PInt 7)])] @ []), []] idle_socket) =
     PDict [(''id'', PInt 7)]"
  by (rule reply_in_time[OF idle_open]) (simp_all add: idle_socket_def msg_ok_def dget_or_def)

end
