(* ===== verification/Broker.thy ===== *)
theory Broker
  imports Rpc "HOL-Library.Sublist"
begin

text \<open>
  The generic broker client, classes \<open>_BrokerClient\<close>, \<open>_DataItem\<close> and \<open>_SubscriptionHandler\<close> of
  src/python/avp_broker.py. A client keeps one data item object per parameter of its broker,
  reachable under the parameter's name and its aliases, a dictionary of subscriptions, and what
  it last heard of the broker's state. Calls go through the channel of theory Rpc, which every
  operation gets as a function together with the state of the world behind it.
\<close>

section \<open>Data items\<close>

record data_item =
  di_name :: string
  di_type :: string
  di_units :: "pyval option"
  di_subscribed :: bool
  di_value :: pyval
  di_sample_long :: pyval
  di_sample :: "instant option"
  di_tz :: pyval
  di_set_to :: "pyval option"
  di_set_at :: "instant option"

definition read_classes :: "string list" where
  "read_classes = [''RO'', ''RW'']"

definition write_classes :: "string list" where
  "write_classes = [''WO'', ''RW'']"

text \<open>The constructor; the attribute \<open>_units\<close> is missing for a parameter that is not implemented.\<close>

definition new_item :: "string \<Rightarrow> string \<Rightarrow> pyval \<Rightarrow> data_item" where
  "new_item name ty units =
     \<lparr>di_name = name, di_type = ty,
      di_units = (if ty \<in> set read_classes \<union> set write_classes then Some units else None),
      di_subscribed = False, di_value = PNone,
      di_sample_long = (if ty \<in> set read_classes then PInt 20000101123000000 else PNone),
      di_sample = (if ty \<in> set read_classes then get_date_time (PInt 20000101123000000) else None),
      di_tz = (if ty \<in> set read_classes then PStr ''?'' else PNone), di_set_to = None, di_set_at = None\<rparr>"

section \<open>State of a client\<close>

text \<open>An attribute of the client object: a data item (by the key of its object), None, or anything else.\<close>

datatype attr = AItem string | ANone | AOther

record broker =
  bk_name :: string
  bk_json_id :: int
  bk_attrs :: "(string \<times> attr) list"
  bk_items :: "(string \<times> data_item) list"
  bk_points :: "(string \<times> string) list"
  bk_subs :: "(string \<times> string) list"
  bk_callbacks :: "(string \<times> nat) list"
  bk_sub_running :: bool
  bk_sub_error :: bool
  bk_linked :: bool
  bk_initialized :: bool
  bk_token :: bool
  bk_power_on :: "bool option"
  bk_db :: "bool option"
  bk_instr :: "bool option"
  bk_suspended :: "bool option"
  bk_last_db :: pyval
  bk_last_data :: pyval
  bk_start :: pyval
  bk_resume_timeout :: int
  bk_stale :: timespan

definition upd_item :: "string \<Rightarrow> (data_item \<Rightarrow> data_item) \<Rightarrow> broker \<Rightarrow> broker" where
  "upd_item n f b = (case dget (bk_items b) n of None \<Rightarrow> b | Some i \<Rightarrow> b\<lparr>bk_items := dset (bk_items b) n (f i)\<rparr>)"

text \<open>\<open>getattr(self, name)\<close> where a data item is needed: its absence is AttributeError.\<close>

definition item_of :: "broker \<Rightarrow> string \<Rightarrow> data_item res" where
  "item_of b n =
     (case dget (bk_attrs b) n of
        Some (AItem m) \<Rightarrow> (case dget (bk_items b) m of Some i \<Rightarrow> Inr i | None \<Rightarrow> Inl AttributeError)
      | _ \<Rightarrow> Inl AttributeError)"

definition has_attr :: "broker \<Rightarrow> string \<Rightarrow> bool" where
  "has_attr b n \<longleftrightarrow> dhas (bk_attrs b) n"

text \<open>\<open>k in v\<close> for a string: a substring, a member or a key.\<close>

fun py_in :: "string \<Rightarrow> pyval \<Rightarrow> bool res" where
  "py_in k (PStr s) = Inr (sublist k s)"
| "py_in k (PList xs) = Inr (PStr k \<in> set xs)"
| "py_in k (PDict d) = Inr (dhas d k)"
| "py_in k _ = Inl TypeError"

section \<open>Calls\<close>

text \<open>Every call takes a fresh id.\<close>

definition call :: "'w rpc_fun \<Rightarrow> string \<Rightarrow> int option \<Rightarrow> pyval option \<Rightarrow> broker \<times> 'w \<Rightarrow> pyval \<times> broker \<times> 'w" where
  "call rpc m tmo params bw =
     (case bw of (b, w) \<Rightarrow>
        let b1 = b\<lparr>bk_json_id := bk_json_id b + 1\<rparr>
        in case rpc \<lparr>rq_method = m, rq_id = bk_json_id b1, rq_timeout = tmo, rq_params = params\<rparr> w of
             (v, w1) \<Rightarrow> (v, b1, w1))"

definition bad_results :: "pyval list" where
  "bad_results = [PStr ''java.lang.NullPointerException'',
     PStr ''java.lang.ClassCastException: java.sql.Timestamp cannot be cast to java.lang.String'']"

text \<open>\<open>_result_checker\<close>. The message for a result that is no dictionary is abbreviated.\<close>

definition result_checker :: "pyval \<Rightarrow> pyval" where
  "result_checker raw0 =
     (let raw1 = (if truthy raw0 then raw0 else msg_error ''empty string'' 0);
          raw2 = (if is_dict raw1 then raw1 else msg_error ''Returned object not a dictionary'' 0)
      in case raw2 of
           PDict d \<Rightarrow>
             (let d1 = dpop (dpop d ''id'') ''jsonrpc'';
                  r = dget_or d1 ''result'' PNone
              in if truthy (dget_or d1 ''error'' PNone) then PDict d1
                 else if r \<in> set bad_results then PDict [(''error'', PDict [(''message'', r), (''code'', PInt 0)])]
                 else if r = PStr ''ok'' then PDict [(''result'', PStr ''ok'')]
                 else if is_dict r then r
                 else PDict d1)
         | v \<Rightarrow> v)"

definition checked_call :: "'w rpc_fun \<Rightarrow> string \<Rightarrow> int option \<Rightarrow> pyval option \<Rightarrow> broker \<times> 'w \<Rightarrow> pyval \<times> broker \<times> 'w" where
  "checked_call rpc m tmo params bw =
     (case call rpc m tmo params bw of (v, bw1) \<Rightarrow> (result_checker v, bw1))"

definition list_data :: "'w rpc_fun \<Rightarrow> pyval list \<Rightarrow> int option \<Rightarrow> broker \<times> 'w \<Rightarrow> pyval \<times> broker \<times> 'w" where
  "list_data rpc params tmo bw = checked_call rpc ''list_data'' tmo (Some (PList params)) bw"

definition broker_status :: "'w rpc_fun \<Rightarrow> int option \<Rightarrow> broker \<times> 'w \<Rightarrow> pyval \<times> broker \<times> 'w" where
  "broker_status rpc tmo bw =
     (case checked_call rpc ''broker_status'' tmo None bw of (r, b, w) \<Rightarrow>
        (r, b\<lparr>bk_power_on := t_or_f (pget_or r ''power_on'' (PBool False)),
              bk_db := t_or_f (pget_or r ''db_connected'' (PBool False)),
              bk_instr := t_or_f (pget_or r ''instr_connected'' (PBool False)),
              bk_suspended := t_or_f (pget_or r ''suspended'' (PBool False)),
              bk_last_db := pget_or r ''last_db_time'' PNone,
              bk_last_data := pget_or r ''last_data_time'' PNone,
              bk_start := pget_or r ''start_time'' PNone\<rparr>, w))"

definition suspend_broker :: "'w rpc_fun \<Rightarrow> int option \<Rightarrow> broker \<times> 'w \<Rightarrow> pyval \<times> broker \<times> 'w" where
  "suspend_broker rpc tmo bw = call rpc ''suspend'' tmo None bw"

definition shutdown_broker :: "'w rpc_fun \<Rightarrow> int option \<Rightarrow> broker \<times> 'w \<Rightarrow> pyval \<times> broker \<times> 'w" where
  "shutdown_broker rpc tmo bw = (case bw of (b, w) \<Rightarrow> call rpc ''shutdown'' tmo None (b\<lparr>bk_token := False\<rparr>, w))"

text \<open>
  \<open>power\<close>. The message for an invalid command names a field it does not pass, so that building
  it raises KeyError.
\<close>

definition power :: "'w rpc_fun \<Rightarrow> string \<Rightarrow> int option \<Rightarrow> broker \<times> 'w \<Rightarrow> pyval res \<times> broker \<times> 'w" where
  "power rpc command tmo bw =
     (if command \<in> {''on'', ''off'', ''check''}
      then (case checked_call rpc ''power'' tmo (Some (PDict [(''status'', PStr command)])) bw of (r, bw1) \<Rightarrow> (Inr r, bw1))
      else (Inl (KeyError ''c''), bw))"

section \<open>The control token\<close>

definition is_ok :: "pyval \<Rightarrow> bool" where
  "is_ok r \<longleftrightarrow> pget r ''result'' = Some (PStr ''ok'')"

text \<open>
  \<open>_token_acquire\<close>. An answer that is neither ok nor an error makes the call of \<open>format\<close>, which
  stands behind a comma where a point was meant, raise TypeError; an error that is no dictionary
  has no \<open>get\<close>.
\<close>

definition token_acquire :: "'w rpc_fun \<Rightarrow> string \<Rightarrow> broker \<times> 'w \<Rightarrow> pyval res \<times> broker \<times> 'w" where
  "token_acquire rpc name bw =
     (case checked_call rpc ''tokenAcquire'' None (Some (PDict [(''name'', PStr name)])) bw of (r, b, w) \<Rightarrow>
        if is_ok r then (Inr r, b\<lparr>bk_token := True\<rparr>, w)
        else (case pget r ''error'' of
                Some (PDict e) \<Rightarrow> (Inr r, b\<lparr>bk_token := False\<rparr>, w)
              | Some e \<Rightarrow> (Inl AttributeError, b, w)
              | None \<Rightarrow> (Inl TypeError, b, w)))"

definition token_force_acquire :: "'w rpc_fun \<Rightarrow> string \<Rightarrow> broker \<times> 'w \<Rightarrow> pyval \<times> broker \<times> 'w" where
  "token_force_acquire rpc name bw =
     (case checked_call rpc ''tokenForceAcquire'' None (Some (PDict [(''name'', PStr name)])) bw of (r, b, w) \<Rightarrow>
        (r, b\<lparr>bk_token := is_ok r\<rparr>, w))"

definition token_release :: "'w rpc_fun \<Rightarrow> broker \<times> 'w \<Rightarrow> pyval \<times> broker \<times> 'w" where
  "token_release rpc bw =
     (case checked_call rpc ''tokenRelease'' None None bw of (r, b, w) \<Rightarrow>
        (r, if is_ok r then b\<lparr>bk_token := False\<rparr> else b, w))"

definition token_owner :: "'w rpc_fun \<Rightarrow> broker \<times> 'w \<Rightarrow> pyval \<times> broker \<times> 'w" where
  "token_owner rpc bw = checked_call rpc ''tokenOwner'' None None bw"

text \<open>
  \<open>get_token\<close>: the owner decides how the token is asked for; when the answer is ok the owner is
  asked for again. The result lists the answers.
\<close>

definition ask_token :: "'w rpc_fun \<Rightarrow> string \<Rightarrow> bool \<Rightarrow> broker \<times> 'w \<Rightarrow> pyval res \<times> broker \<times> 'w" where
  "ask_token rpc name forceful bw =
     (if forceful then (case token_force_acquire rpc name bw of (r, bw1) \<Rightarrow> (Inr r, bw1))
      else token_acquire rpc name bw)"

definition finish_token :: "'w rpc_fun \<Rightarrow> (string \<times> pyval) list \<Rightarrow> pyval \<Rightarrow> broker \<times> 'w \<Rightarrow> pyval res \<times> broker \<times> 'w" where
  "finish_token rpc answers r bw =
     (if is_ok r then (case token_owner rpc bw of (o2, bw1) \<Rightarrow> (Inr (PDict (answers @ [(''tokenOwner 2'', o2)])), bw1))
      else (case pget r ''error'' of
              Some (PDict e) \<Rightarrow> (Inr (PDict answers), bw)
            | Some e \<Rightarrow> (Inl AttributeError, bw)
            | None \<Rightarrow> (Inl TypeError, bw)))"

definition owner_of :: "pyval \<Rightarrow> pyval" where
  "owner_of answer = pget_or answer ''result'' answer"

definition get_token :: "'w rpc_fun \<Rightarrow> string \<Rightarrow> string \<Rightarrow> bool \<Rightarrow> broker \<times> 'w \<Rightarrow> pyval res \<times> broker \<times> 'w" where
  "get_token rpc program caller override bw =
     (case token_owner rpc bw of (o1, bw1) \<Rightarrow>
        let owner = owner_of o1
        in case py_in program owner of
             Inl e \<Rightarrow> (Inl e, bw1)
           | Inr mine \<Rightarrow>
               (let forceful = mine \<or> owner \<noteq> PStr [] \<and> override;
                    kind = (if forceful then ''_token_force_acquire'' else ''_token_acquire'');
                    tags = (''tokenOwner 1'', o1) # (if mine \<or> owner = PStr [] then [] else [(''acquire_type'', PStr kind)])
                in case ask_token rpc (program @ ''.'' @ caller) forceful bw1 of
                     (Inl e, bw2) \<Rightarrow> (Inl e, bw2)
                   | (Inr r, bw2) \<Rightarrow> finish_token rpc (tags @ [(kind, r), (''acquire_result'', r)]) r bw2))"

section \<open>Data structure of the client\<close>

text \<open>One parameter of the answer to \<open>list_data\<close>.\<close>

definition add_parameter :: "string \<Rightarrow> pyval \<Rightarrow> broker \<Rightarrow> nat \<times> broker" where
  "add_parameter n info b =
     (let ty = pget_or info ''type'' PNone; units = pget_or info ''units'' PNone
      in case ty of
           PStr t \<Rightarrow>
             (if t \<in> {''RO'', ''RW'', ''WO'', ''NI''} then
                (case dget_or (bk_attrs b) n ANone of
                   ANone \<Rightarrow> (1, b\<lparr>bk_attrs := dset (bk_attrs b) n (AItem n),
                                  bk_items := dset (bk_items b) n (new_item n t units),
                                  bk_points := dset (bk_points b) n n\<rparr>)
                 | _ \<Rightarrow> (0, b))
              else (0, b))
         | _ \<Rightarrow> (0, b))"

fun add_parameters :: "(string \<times> pyval) list \<Rightarrow> broker \<Rightarrow> nat \<times> broker" where
  "add_parameters [] b = (0, b)"
| "add_parameters ((n, info) # ps) b =
     (case add_parameter n info b of (k, b1) \<Rightarrow> case add_parameters ps b1 of (j, b2) \<Rightarrow> (k + j, b2))"

text \<open>The wait for the instrument, at most \<open>tries\<close> rounds.\<close>

fun wait_instrument :: "'w rpc_fun \<Rightarrow> nat \<Rightarrow> broker \<times> 'w \<Rightarrow> broker \<times> 'w" where
  "wait_instrument rpc 0 bw = bw"
| "wait_instrument rpc (Suc tries) bw =
     (if bk_instr (fst bw) = Some False then wait_instrument rpc tries (snd (broker_status rpc None bw)) else bw)"

definition structure_data :: "'w rpc_fun \<Rightarrow> nat \<Rightarrow> broker \<times> 'w \<Rightarrow> int res \<times> broker \<times> 'w" where
  "structure_data rpc tries bw =
     (case snd (broker_status rpc None bw) of (b0, w0) \<Rightarrow>
        if \<not> bk_linked b0 then (Inr (- 1), b0\<lparr>bk_initialized := False\<rparr>, w0)
        else (case wait_instrument rpc tries (b0, w0) of (b1, w1) \<Rightarrow>
          if bk_instr b1 \<noteq> Some True then (Inr (- 1), b1\<lparr>bk_initialized := False\<rparr>, w1)
          else (case list_data rpc [PStr ''units'', PStr ''type''] None (b1, w1) of (r, b2, w2) \<Rightarrow>
            (case r of
               PDict d \<Rightarrow>
                 (case dget d ''error'' of
                    Some (PDict e) \<Rightarrow> (Inr (- 1), b2\<lparr>bk_initialized := False\<rparr>, w2)
                  | Some e \<Rightarrow> (Inl AttributeError, b2, w2)
                  | None \<Rightarrow> (case add_parameters d b2 of (k, b3) \<Rightarrow> (Inr (int k), b3\<lparr>bk_initialized := True\<rparr>, w2)))
             | _ \<Rightarrow> (Inr 0, b2, w2)))))"

definition resume_broker :: "'w rpc_fun \<Rightarrow> int option \<Rightarrow> broker \<times> 'w \<Rightarrow> pyval res \<times> broker \<times> 'w" where
  "resume_broker rpc tmo bw =
     (let t = (case tmo of None \<Rightarrow> Some (bk_resume_timeout (fst bw)) | Some s \<Rightarrow> Some s)
      in case call rpc ''resume'' t None bw of (v, bw1) \<Rightarrow>
           if is_ok v \<and> \<not> bk_initialized (fst bw1)
           then (case structure_data rpc 8 bw1 of (Inl e, bw2) \<Rightarrow> (Inl e, bw2)
                 | (Inr k, bw2) \<Rightarrow> (Inr (result_checker v), bw2))
           else (Inr (result_checker v), bw1))"

definition disconnect :: "'w rpc_fun \<Rightarrow> broker \<times> 'w \<Rightarrow> broker \<times> 'w" where
  "disconnect rpc bw =
     (case (if bk_token (fst bw) then snd (token_release rpc bw) else bw) of (b, w) \<Rightarrow>
        (b\<lparr>bk_sub_running := False, bk_linked := False\<rparr>, w))"

section \<open>Reading values\<close>

definition minimum_value :: rat where
  "minimum_value = 1 / 10 ^ 300"

text \<open>Post-processing of a value: a tiny float stands for no value, booleans are normalised.\<close>

definition clean_value :: "data_item \<Rightarrow> pyval \<Rightarrow> pyval res" where
  "clean_value it v =
     (let v1 = (case v of PFloat q \<Rightarrow> if q \<le> minimum_value \<and> 0 < q then PNone else v | _ \<Rightarrow> v)
      in case di_units it of
           None \<Rightarrow> Inl AttributeError
         | Some u \<Rightarrow> Inr (if u = PStr ''boolean'' then (case t_or_f v1 of Some t \<Rightarrow> PBool t | None \<Rightarrow> PNone) else v1))"

text \<open>The times of a message: the long form, the time it denotes and the time zone.\<close>

type_synonym msg_time = "pyval \<times> instant option \<times> pyval"

text \<open>One requested item of the answer to \<open>status\<close>; the exception ends the loop over the items.\<close>

definition status_item :: "(string \<times> pyval) list \<Rightarrow> msg_time \<Rightarrow> string \<Rightarrow> broker \<Rightarrow> pyexn option \<times> broker" where
  "status_item res mt n b =
     (case mt of (mlong, mtime, mtz) \<Rightarrow>
        if \<not> has_attr b n then (Some AttributeError, b)
        else (case dget res n of
           Some (PDict p) \<Rightarrow>
             (let v = dget_or p ''value'' PNone
              in if v = PNone then (None, b)
                 else (case item_of b n of
                   Inl e \<Rightarrow> (Some e, b)
                 | Inr it \<Rightarrow>
                     (case clean_value it v of
                        Inl e \<Rightarrow> (Some e, b)
                      | Inr v1 \<Rightarrow>
                          (let u = dget_or p ''units'' PNone; st = dget_or p ''sample_time'' PNone
                           in (None, upd_item (di_name it)
                                (\<lambda>i. i\<lparr>di_value := v1,
                                       di_units := (if u \<noteq> PNone then Some u else di_units i),
                                       di_sample_long := (if st \<noteq> PNone then st else mlong),
                                       di_sample := (if st \<noteq> PNone then get_date_time st else mtime),
                                       di_tz := (if mtz \<noteq> PNone then mtz else di_tz i)\<rparr>) b)))))
         | _ \<Rightarrow> (Some AttributeError, b)))"

fun status_items :: "(string \<times> pyval) list \<Rightarrow> msg_time \<Rightarrow> string list \<Rightarrow> broker \<Rightarrow> broker" where
  "status_items res mt [] b = b"
| "status_items res mt (n # ns) b =
     (case status_item res mt n b of (Some e, b1) \<Rightarrow> b1 | (None, b1) \<Rightarrow> status_items res mt ns b1)"

text \<open>
  \<open>_status\<close>: the answer or an error, and the list of items, which the caller sees changed.
  Exceptions of the processing are caught: the items before it keep their new values.
\<close>

definition status :: "'w rpc_fun \<Rightarrow> string list \<Rightarrow> bool \<Rightarrow> int option \<Rightarrow> broker \<times> 'w \<Rightarrow> pyval \<times> string list \<times> broker \<times> 'w" where
  "status rpc items verbose tmo bw =
     (let ns = remove1 ''message_time'' items
      in case call rpc ''status'' tmo (Some (PDict [(''data'', PList (map PStr ns)),
                (''style'', PStr (if verbose then ''verbose'' else ''terse''))])) bw of (v, b, w) \<Rightarrow>
           (case v of
              PDict d \<Rightarrow>
                if dhas d ''error'' then (v, ns, b, w)
                else (case dget_or d ''result'' PNone of
                        PDict res \<Rightarrow>
                          (case dget_or res ''message_time'' PNone of
                             PNone \<Rightarrow> (PDict res, ns, status_items res (PNone, None, PNone) ns b, w)
                           | PDict t \<Rightarrow>
                               (let ml = dget_or t ''value'' PNone; ns1 = ns @ [''message_time'']
                                in (PDict res, ns1,
                                    status_items res (ml, get_date_time ml, dget_or t ''units'' PNone) ns1 b, w))
                           | _ \<Rightarrow> (PDict res, ns, b, w))
                      | r \<Rightarrow> (PDict [(''error'', PDict [(''message'', r), (''code'', PInt 0)])], ns, b, w))
            | _ \<Rightarrow> (msg_error ''type error in _BrokerObject._status'' 0, ns, b, w)))"

text \<open>The names of \<open>get_value\<close>, aliases resolved; None for a name that is no attribute.\<close>

fun resolve_names :: "broker \<Rightarrow> string list \<Rightarrow> string list option res" where
  "resolve_names b [] = Inr (Some [])"
| "resolve_names b (n # ns) =
     (if \<not> has_attr b n then Inr None
      else res_bind (item_of b n) (\<lambda>it.
             res_bind (resolve_names b ns) (\<lambda>r.
               Inr (map_option ((#) (if CHR ''R'' \<in> set (di_type it) then di_name it else n)) r))))"

fun collect_values :: "(string \<times> pyval) list \<Rightarrow> string list \<Rightarrow> (string \<times> pyval) list" where
  "collect_values res [] = []"
| "collect_values res (n # ns) =
     (case dget res n of
        Some (PDict p) \<Rightarrow> dset (collect_values res ns) n (dget_or p ''value'' PNone)
      | _ \<Rightarrow> collect_values res ns)"

definition get_value :: "'w rpc_fun \<Rightarrow> string list \<Rightarrow> bool \<Rightarrow> int option \<Rightarrow> broker \<times> 'w \<Rightarrow> pyval res \<times> broker \<times> 'w" where
  "get_value rpc names verbose tmo bw =
     (case resolve_names (fst bw) names of
        Inl e \<Rightarrow> (Inl e, bw)
      | Inr None \<Rightarrow> (Inr (msg_error ''No parameter'' 0), bw)
      | Inr (Some ns) \<Rightarrow>
          (case status rpc ns verbose tmo bw of (r, ns1, bw1) \<Rightarrow>
             (case r of
                PDict d \<Rightarrow> (Inr (if dhas d ''error'' then PDict d else PDict (collect_values d (rev ns1))), bw1)
              | _ \<Rightarrow> (Inr (msg_error ''_status did not return dict'' 0), bw1))))"

text \<open>
  Reading the attribute \<open>value\<close> of an item: an item that is not subscribed or whose sample is too
  old is asked for first. A subscribed item without a sample time cannot be compared.
\<close>

definition value_getter :: "'w rpc_fun \<Rightarrow> instant \<Rightarrow> string \<Rightarrow> broker \<times> 'w \<Rightarrow> pyval res \<times> broker \<times> 'w" where
  "value_getter rpc now n bw =
     (case dget (bk_items (fst bw)) n of
        None \<Rightarrow> (Inl AttributeError, bw)
      | Some it \<Rightarrow>
          (let current = (\<lambda>bw. (Inr (case dget (bk_items (fst bw)) n of Some i \<Rightarrow> di_value i | None \<Rightarrow> PNone), bw));
               ask = (case status rpc [di_name it] False None bw of (r, ns, bw1) \<Rightarrow> current bw1)
           in if di_type it \<notin> set read_classes then (Inr PNone, bw)
              else if \<not> di_subscribed it then ask
              else (case di_sample it of
                      None \<Rightarrow> (Inl TypeError, bw)
                    | Some t \<Rightarrow> if t < now - bk_stale (fst bw) then ask else current bw)))"

section \<open>Setting values\<close>

text \<open>The parameters that may be written, under their real names; the request is recorded in the item.\<close>

fun check_params :: "instant \<Rightarrow> (string \<times> pyval) list \<Rightarrow> (string \<times> pyval) list \<Rightarrow> broker \<Rightarrow>
    pyexn option \<times> (string \<times> pyval) list \<times> broker" where
  "check_params now [] acc b = (None, acc, b)"
| "check_params now ((n, v) # ps) acc b =
     (if \<not> has_attr b n then check_params now ps acc b
      else (case item_of b n of
              Inl e \<Rightarrow> (Some e, acc, b)
            | Inr it \<Rightarrow>
                if CHR ''W'' \<in> set (di_type it)
                then check_params now ps (dset acc (di_name it) v)
                       (upd_item (di_name it) (\<lambda>i. i\<lparr>di_set_to := Some v, di_set_at := Some now\<rparr>) b)
                else check_params now ps acc b))"

definition set_params :: "'w rpc_fun \<Rightarrow> instant \<Rightarrow> (string \<times> pyval) list \<Rightarrow> bool \<Rightarrow> int option \<Rightarrow> broker \<times> 'w \<Rightarrow> pyval res \<times> broker \<times> 'w" where
  "set_params rpc now params write_store tmo bw =
     (case check_params now params [] (fst bw) of
        (Some e, checked, b1) \<Rightarrow> (Inl e, b1, snd bw)
      | (None, checked, b1) \<Rightarrow>
          (if checked = [] then (Inr (PDict []), b1, snd bw)
           else (let ps = (if write_store then dset checked ''write_store'' (PBool True) else checked)
                 in case checked_call rpc ''set'' tmo (Some (PDict ps)) (b1, snd bw) of (r, bw2) \<Rightarrow> (Inr r, bw2))))"

definition value_setter :: "'w rpc_fun \<Rightarrow> instant \<Rightarrow> string \<Rightarrow> pyval \<Rightarrow> broker \<times> 'w \<Rightarrow> pyexn option \<times> broker \<times> 'w" where
  "value_setter rpc now n v bw =
     (case dget (bk_items (fst bw)) n of
        None \<Rightarrow> (Some AttributeError, bw)
      | Some it \<Rightarrow>
          (if di_type it \<in> set write_classes
           then (case set_params rpc now [(di_name it, v)] False None bw of (Inl e, bw1) \<Rightarrow> (Some e, bw1) | (Inr r, bw1) \<Rightarrow> (None, bw1))
           else (None, bw)))"

section \<open>Subscriptions\<close>

record sub_opts =
  su_on_change :: bool
  su_min :: "int option"
  su_max :: "int option"
  su_verbose :: bool

text \<open>
  The names to subscribe to. Only the name under which an item is asked for is looked up among
  the subscriptions (\<open>parameter or data_name\<close> is the parameter unless that is empty), and the
  item is entered under that name and its own. The notification thread is started on the way.
\<close>

fun subscribe_names :: "string list \<Rightarrow> string list \<Rightarrow> broker \<Rightarrow> pyexn option \<times> string list \<times> broker" where
  "subscribe_names [] acc b = (None, acc, b)"
| "subscribe_names (n # ns) acc b =
     (if \<not> has_attr b n then subscribe_names ns acc b
      else (case item_of b n of
              Inl e \<Rightarrow> (Some e, acc, b)
            | Inr it \<Rightarrow>
                if dhas (bk_subs b) (if n \<noteq> [] then n else di_name it) then subscribe_names ns acc b
                else subscribe_names ns (acc @ [di_name it])
                       (upd_item (di_name it) (\<lambda>i. i\<lparr>di_subscribed := True\<rparr>)
                         (b\<lparr>bk_sub_running := True,
                            bk_subs := dset (dset (bk_subs b) n (di_name it)) (di_name it) (di_name it)\<rparr>))))"

definition subscribe_params :: "sub_opts \<Rightarrow> string list \<Rightarrow> (string \<times> pyval) list" where
  "subscribe_params opts names =
     [(''data'', PList (map PStr names)), (''style'', PStr (if su_verbose opts then ''verbose'' else ''terse'')),
      (''updates'', PStr (if su_on_change opts then ''on_change'' else ''on_new''))] @
     (case su_min opts of Some k \<Rightarrow> if k > 0 then [(''min_update_ms'', PInt k)] else [] | None \<Rightarrow> []) @
     (case su_max opts of Some k \<Rightarrow> if k > 0 then [(''max_update_ms'', PInt k)] else [] | None \<Rightarrow> [])"

definition add_subscriptions :: "'w rpc_fun \<Rightarrow> string list \<Rightarrow> sub_opts \<Rightarrow> int option \<Rightarrow> broker \<times> 'w \<Rightarrow> pyval res \<times> broker \<times> 'w" where
  "add_subscriptions rpc names opts tmo bw =
     (if \<not> bk_initialized (fst bw) then (Inr (PDict []), bw)
      else if names = [] then (Inr (PInt 0), bw)
      else (case subscribe_names (names @ [''message_time'']) [] (fst bw) of
              (Some e, ns, b1) \<Rightarrow> (Inl e, b1, snd bw)
            | (None, ns, b1) \<Rightarrow>
                (let ns1 = remove1 ''message_time'' ns
                 in if ns1 = [] then (Inr (PDict []), b1, snd bw)
                    else (case checked_call rpc ''subscribe'' tmo (Some (PDict (subscribe_params opts ns1))) (b1, snd bw) of
                            (r, bw2) \<Rightarrow> (Inr r, bw2)))))"

text \<open>
  The names the broker is told of. An alias is only dropped locally.
\<close>

fun unsubscribe_names :: "string list \<Rightarrow> string list \<Rightarrow> broker \<Rightarrow> pyexn option \<times> string list \<times> broker" where
  "unsubscribe_names [] acc b = (None, acc, b)"
| "unsubscribe_names (n # ns) acc b =
     (if \<not> has_attr b n then unsubscribe_names ns acc b
      else (case item_of b n of
              Inl e \<Rightarrow> (Some e, acc, b)
            | Inr it \<Rightarrow>
                if \<not> dhas (bk_subs b) (di_name it) then unsubscribe_names ns acc b
                else if di_name it \<noteq> n then unsubscribe_names ns acc (b\<lparr>bk_subs := dpop (bk_subs b) n\<rparr>)
                else unsubscribe_names ns (acc @ [n]) b))"

definition unsub_local :: "string \<Rightarrow> broker \<Rightarrow> broker" where
  "unsub_local n b = upd_item n (\<lambda>i. i\<lparr>di_subscribed := False\<rparr>) (b\<lparr>bk_subs := dpop (bk_subs b) n\<rparr>)"

text \<open>
  One pass of \<open>unsubscribe\<close>. \<open>message_time\<close> is handled locally: the entry that is popped then is
  that of the last name of the loop, whatever it is.
\<close>

definition unsubscribe_pass :: "'w rpc_fun \<Rightarrow> string list \<Rightarrow> int option \<Rightarrow> broker \<times> 'w \<Rightarrow> pyexn option \<times> broker \<times> 'w" where
  "unsubscribe_pass rpc names tmo bw =
     (case unsubscribe_names names [] (fst bw) of
        (Some e, checked, b1) \<Rightarrow> (Some e, b1, snd bw)
      | (None, checked, b1) \<Rightarrow>
          (let (checked2, b2) =
                 (if ''message_time'' \<in> set checked
                  then (remove1 ''message_time'' checked,
                        upd_item ''message_time'' (\<lambda>i. i\<lparr>di_subscribed := False\<rparr>)
                          (b1\<lparr>bk_subs := dpop (bk_subs b1) (last names)\<rparr>))
                  else (checked, b1))
           in if checked2 = [] then (None, b2, snd bw)
              else (case checked_call rpc ''unsubscribe'' tmo (Some (PDict [(''data'', PList (map PStr checked2))])) (b2, snd bw) of
                      (r, b3, w3) \<Rightarrow> (None, fold unsub_local checked2 b3, w3))))"

text \<open>
  \<open>unsubscribe\<close>: when nothing is left the thread stops, when only \<open>message_time\<close> is left the method
  calls itself for that name. The first argument bounds the depth of these calls.
\<close>

fun unsubscribe :: "nat \<Rightarrow> 'w rpc_fun \<Rightarrow> string list \<Rightarrow> int option \<Rightarrow> broker \<times> 'w \<Rightarrow> pyexn option \<times> broker \<times> 'w" where
  "unsubscribe 0 rpc names tmo bw = (Some (UserException ''RecursionError''), bw)"
| "unsubscribe (Suc n) rpc names tmo bw =
     (case unsubscribe_pass rpc names tmo bw of
        (Some e, bw1) \<Rightarrow> (Some e, bw1)
      | (None, b1, w1) \<Rightarrow>
          (if bk_subs b1 = [] then (None, b1\<lparr>bk_sub_running := False\<rparr>, w1)
           else if dkeys (bk_subs b1) = [''message_time''] then unsubscribe n rpc [''message_time''] None (b1, w1)
           else (None, b1, w1)))"

definition unsubscribe_all :: "nat \<Rightarrow> 'w rpc_fun \<Rightarrow> broker \<times> 'w \<Rightarrow> pyexn option \<times> broker \<times> 'w" where
  "unsubscribe_all fuel rpc bw =
     (case (if bk_subs (fst bw) \<noteq> [] then unsubscribe fuel rpc (dkeys (bk_subs (fst bw))) None bw else (None, bw)) of
        (Some e, bw1) \<Rightarrow> (Some e, bw1)
      | (None, b1, w1) \<Rightarrow> (None, b1\<lparr>bk_callbacks := [], bk_subs := []\<rparr>, w1))"

definition add_callback :: "(string \<times> nat) list \<Rightarrow> broker \<Rightarrow> broker" where
  "add_callback cbs b = b\<lparr>bk_callbacks := dupdate (bk_callbacks b) cbs\<rparr>"

definition remove_callback :: "string list \<Rightarrow> broker \<Rightarrow> broker" where
  "remove_callback ks b = fold (\<lambda>k b. b\<lparr>bk_callbacks := dpop (bk_callbacks b) k\<rparr>) ks b"

section \<open>Notifications\<close>

text \<open>A callback that is started: its number, the sample time and the item.\<close>

type_synonym started = "nat \<times> instant option \<times> data_item"

text \<open>
  One parameter of a notification. A message about an error is logged with names that do not
  exist, unless an error was noted before: the NameError ends the loop.
\<close>

definition notify_param ::
  "pyval \<Rightarrow> pyval \<Rightarrow> string \<times> pyval \<Rightarrow> broker \<times> started list \<Rightarrow> pyexn option \<times> broker \<times> started list" where
  "notify_param mlong mtz kp bs =
     (case (kp, bs) of ((k, p), (b, cbs)) \<Rightarrow>
        case dget (bk_subs b) k of
          None \<Rightarrow> (None, b, cbs)
        | Some n \<Rightarrow>
            (case py_in ''value'' p of
               Inl e \<Rightarrow> (Some e, b, cbs)
             | Inr True \<Rightarrow>
                 (case (p, dget (bk_items b) n) of
                    (PDict d, Some it) \<Rightarrow>
                      (case di_units it of
                         Some (PStr u) \<Rightarrow>
                           (let v = dget_or d ''value'' PNone;
                                v1 = (if map to_lower u = ''boolean''
                                      then (case t_or_f v of Some t \<Rightarrow> PBool t | None \<Rightarrow> PNone) else v);
                                sl = dget_or d ''sample_time'' mlong;
                                it1 = it\<lparr>di_value := v1, di_sample_long := sl, di_sample := get_date_time sl,
                                         di_tz := (if mtz \<noteq> PNone then mtz else di_tz it)\<rparr>;
                                b1 = b\<lparr>bk_sub_error := False, bk_items := dset (bk_items b) n it1\<rparr>
                            in (None, b1, (case dget (bk_callbacks b) k of None \<Rightarrow> cbs | Some c \<Rightarrow> cbs @ [(c, di_sample it1, it1)])))
                       | _ \<Rightarrow> (Some AttributeError, b\<lparr>bk_sub_error := False\<rparr>, cbs))
                  | _ \<Rightarrow> (Some TypeError, b\<lparr>bk_sub_error := False\<rparr>, cbs))
             | Inr False \<Rightarrow>
                 (case py_in ''message'' p of
                    Inl e \<Rightarrow> (Some e, b, cbs)
                  | Inr True \<Rightarrow>
                      (if bk_sub_error b then (None, b, cbs) else (Some (UserException ''NameError''), b, cbs))
                  | Inr False \<Rightarrow> (None, b\<lparr>bk_sub_error := True\<rparr>, cbs))))"

fun notify_params ::
  "pyval \<Rightarrow> pyval \<Rightarrow> (string \<times> pyval) list \<Rightarrow> broker \<times> started list \<Rightarrow> pyexn option \<times> broker \<times> started list" where
  "notify_params mlong mtz [] bs = (None, bs)"
| "notify_params mlong mtz (kp # kps) bs =
     (case notify_param mlong mtz kp bs of
        (Some e, bs1) \<Rightarrow> (Some e, bs1)
      | (None, bs1) \<Rightarrow> notify_params mlong mtz kps bs1)"

text \<open>
  A notification taken from the queue; every exception is caught. \<open>now_text\<close> is the present time as
  the code formats it when the message has none.
\<close>

definition notify :: "pyval \<Rightarrow> (string \<times> pyval) list \<Rightarrow> broker \<Rightarrow> broker \<times> started list" where
  "notify now_text n b =
     (if dget_or n ''method'' PNone = PStr ''subscription'' then
        (case dget_or n ''params'' (PDict []) of
           PDict ps \<Rightarrow>
             (case dget_or ps ''message_time'' (PDict []) of
                PDict t \<Rightarrow>
                  (let mlong = dget_or t ''value'' now_text; tz = dget_or t ''units'' PNone
                   in case notify_params mlong tz (dpop ps ''message_time'') (b, []) of
                        (Some e, b1, cbs) \<Rightarrow> (b1, cbs)
                      | (None, b1, cbs) \<Rightarrow>
                          ((case dget (bk_subs b1) ''message_time'' of
                              None \<Rightarrow> b1
                            | Some m \<Rightarrow> upd_item m (\<lambda>i. i\<lparr>di_value := mlong, di_sample := get_date_time mlong,
                                  di_tz := (if truthy tz then tz else di_tz i)\<rparr>) b1), cbs))
              | _ \<Rightarrow> (b, []))
         | _ \<Rightarrow> (b, []))
      else (b, []))"

text \<open>The thread works the queue off from its front.\<close>

fun notify_queue :: "pyval \<Rightarrow> pyval list \<Rightarrow> broker \<Rightarrow> broker \<times> started list" where
  "notify_queue now_text [] b = (b, [])"
| "notify_queue now_text (m # ms) b =
     (case (case m of PDict n \<Rightarrow> notify now_text n b | _ \<Rightarrow> (b, [])) of (b1, c1) \<Rightarrow>
        case notify_queue now_text ms b1 of (b2, c2) \<Rightarrow> (b2, c1 @ c2))"

section \<open>Lemmas\<close>

lemma result_checker_dict [simp]: "is_dict (result_checker v)"
proof -
  define raw where "raw = (if is_dict (if truthy v then v else msg_error ''empty string'' 0)
      then (if truthy v then v else msg_error ''empty string'' 0) else msg_error ''Returned object not a dictionary'' 0)"
  have "is_dict raw" by (simp add: raw_def)
  then obtain d where "raw = PDict d" by (auto simp: is_dict_conv)
  then show ?thesis unfolding result_checker_def Let_def raw_def[symmetric] by simp
qed

lemma call_simps:
  "call rpc m tmo params (b, w) =
     (fst (rpc \<lparr>rq_method = m, rq_id = bk_json_id b + 1, rq_timeout = tmo, rq_params = params\<rparr> w),
      b\<lparr>bk_json_id := bk_json_id b + 1\<rparr>,
      snd (rpc \<lparr>rq_method = m, rq_id = bk_json_id b + 1, rq_timeout = tmo, rq_params = params\<rparr> w))"
  by (simp add: call_def split: prod.split)

lemma checked_call_dict: "is_dict (fst (checked_call rpc m tmo params bw))"
  by (simp add: checked_call_def split: prod.split)

lemma checked_call_broker: "fst (snd (checked_call rpc m tmo params (b, w))) = b\<lparr>bk_json_id := bk_json_id b + 1\<rparr>"
  by (simp add: checked_call_def call_simps)

text \<open>A channel that also keeps the methods called, in their order.\<close>

definition logged :: "'w rpc_fun \<Rightarrow> ('w \<times> string list) rpc_fun" where
  "logged rpc rq wl = (fst (rpc rq (fst wl)), snd (rpc rq (fst wl)), snd wl @ [rq_method rq])"

lemma checked_call_logged:
  "checked_call (logged rpc) m tmo params (b, w, l) =
     (fst (checked_call rpc m tmo params (b, w)), fst (snd (checked_call rpc m tmo params (b, w))),
      snd (snd (checked_call rpc m tmo params (b, w))), l @ [m])"
  by (simp add: checked_call_def call_simps logged_def)

subsection \<open>Unsubscribing\<close>

definition own_name :: "broker \<Rightarrow> string \<Rightarrow> bool" where
  "own_name b k \<longleftrightarrow> dget (bk_attrs b) k = Some (AItem k)"

definition subs_ok :: "broker \<Rightarrow> bool" where
  "subs_ok b \<longleftrightarrow> dwf (bk_subs b) \<and> (dget (bk_subs b) ''message_time'' \<noteq> None \<longrightarrow> own_name b ''message_time'') \<and> (\<forall>k n. dget (bk_subs b) k = Some n \<longrightarrow>
     dget (bk_attrs b) k = Some (AItem n) \<and> own_name b n \<and> dget (bk_subs b) n = Some n \<and>
     (\<exists>i. dget (bk_items b) n = Some i \<and> di_name i = n))"

lemma upd_item_simps [simp]:
  "bk_subs (upd_item n f b) = bk_subs b" "bk_attrs (upd_item n f b) = bk_attrs b"
  "bk_callbacks (upd_item n f b) = bk_callbacks b"
  by (simp_all add: upd_item_def split: option.split)

lemma upd_item_items:
  "dget (bk_items (upd_item n f b)) k = (if k = n then map_option f (dget (bk_items b) n) else dget (bk_items b) k)"
  by (simp add: upd_item_def dict_simps split: option.split)

text \<open>The names a client is subscribed under split into the items' own names and the aliases.\<close>

lemma unsubscribe_names_eq:
  assumes "\<And>k. k \<in> set names \<Longrightarrow> \<exists>n i. dget (bk_attrs b) k = Some (AItem n) \<and> own_name b n \<and>
      dget (bk_subs b) n \<noteq> None \<and> dget (bk_items b) n = Some i \<and> di_name i = n"
  shows "\<exists>subs'. unsubscribe_names names acc b = (None, acc @ filter (own_name b) names, b\<lparr>bk_subs := subs'\<rparr>) \<and>
    (\<forall>k. dget subs' k = (if k \<in> set names \<and> \<not> own_name b k then None else dget (bk_subs b) k)) \<and>
    (dwf (bk_subs b) \<longrightarrow> dwf subs')"
  using assms
proof (induction names arbitrary: acc b)
  case Nil
  show ?case by (intro exI[of _ "bk_subs b"]) simp
next
  case (Cons k ks)
  obtain n i where n: "dget (bk_attrs b) k = Some (AItem n)" "own_name b n" "dget (bk_subs b) n \<noteq> None"
    "dget (bk_items b) n = Some i" "di_name i = n" using Cons.prems[of k] by auto
  then have it: "has_attr b k" "item_of b k = Inr i" by (simp_all add: has_attr_def item_of_def dict_simps)
  show ?case
  proof (cases "n = k")
    case True
    obtain subs' where "unsubscribe_names ks (acc @ [k]) b = (None, (acc @ [k]) @ filter (own_name b) ks, b\<lparr>bk_subs := subs'\<rparr>)"
      "\<forall>k. dget subs' k = (if k \<in> set ks \<and> \<not> own_name b k then None else dget (bk_subs b) k)" "dwf (bk_subs b) \<longrightarrow> dwf subs'"
      using Cons.IH[of b "acc @ [k]"] Cons.prems by auto
    with True n it show ?thesis by (intro exI[of _ subs']) (auto simp: dict_simps)
  next
    case False
    let ?b1 = "b\<lparr>bk_subs := dpop (bk_subs b) k\<rparr>"
    have own: "own_name ?b1 = own_name b" by (simp add: own_name_def fun_eq_iff)
    have nk: "\<not> own_name b k" using n(1) False by (simp add: own_name_def)
    have "\<exists>n i. dget (bk_attrs ?b1) k' = Some (AItem n) \<and> own_name ?b1 n \<and> dget (bk_subs ?b1) n \<noteq> None \<and>
        dget (bk_items ?b1) n = Some i \<and> di_name i = n" if kk: "k' \<in> set ks" for k'
    proof -
      obtain n' i' where "dget (bk_attrs b) k' = Some (AItem n')" "own_name b n'" "dget (bk_subs b) n' \<noteq> None"
        "dget (bk_items b) n' = Some i'" "di_name i' = n'" using Cons.prems[OF list.set_intros(2)[OF kk]] by blast
      moreover from this(2) nk have "n' \<noteq> k" by auto
      ultimately show ?thesis unfolding own by (simp add: dict_simps)
    qed
    from Cons.IH[of ?b1 acc, OF this] obtain subs' where
      "unsubscribe_names ks acc ?b1 = (None, acc @ filter (own_name b) ks, b\<lparr>bk_subs := subs'\<rparr>)"
      "\<forall>j. dget subs' j = (if j \<in> set ks \<and> \<not> own_name b j then None else dget (dpop (bk_subs b) k) j)" "dwf (dpop (bk_subs b) k) \<longrightarrow> dwf subs'"
      unfolding own by auto
    with False n it nk show ?thesis by (intro exI[of _ subs']) (auto simp: dict_simps)
  qed
qed

lemma unsub_fold:
  "dget (bk_subs (fold unsub_local ns b)) k = (if k \<in> set ns then None else dget (bk_subs b) k) \<and>
   dget (bk_items (fold unsub_local ns b)) k =
     (if k \<in> set ns then map_option (\<lambda>i. i\<lparr>di_subscribed := False\<rparr>) (dget (bk_items b) k) else dget (bk_items b) k) \<and>
   bk_attrs (fold unsub_local ns b) = bk_attrs b \<and>
   (dwf (bk_subs b) \<longrightarrow> dwf (bk_subs (fold unsub_local ns b)))"
proof (induction ns arbitrary: b)
  case (Cons n ns)
  have u: "dget (bk_subs (unsub_local n b)) k = (if k = n then None else dget (bk_subs b) k)"
    "dget (bk_items (unsub_local n b)) k = (if k = n then map_option (\<lambda>i. i\<lparr>di_subscribed := False\<rparr>) (dget (bk_items b) k) else dget (bk_items b) k)"
    "bk_attrs (unsub_local n b) = bk_attrs b" "dwf (bk_subs b) \<longrightarrow> dwf (bk_subs (unsub_local n b))"
    by (simp_all add: unsub_local_def upd_item_items dict_simps)
  show ?case using Cons.IH[of "unsub_local n b"] u(4) unfolding u(1-3)
    by (auto simp: option.map_comp comp_def)
qed simp

lemma if_twice: "(if p then a else if q then a else c) = (if p \<or> q then a else c)"
  by simp

text \<open>A pass over names that are all subscribed.\<close>

lemma unsubscribe_pass_ok:
  assumes ok: "subs_ok b" and sub: "\<forall>k \<in> set names. dget (bk_subs b) k \<noteq> None" and d: "distinct names"
  shows "\<exists>b1 w1. unsubscribe_pass rpc names tmo (b, w) = (None, b1, w1) \<and> bk_attrs b1 = bk_attrs b \<and> dwf (bk_subs b1) \<and>
    (\<forall>k. dget (bk_subs b1) k = (if k \<in> set names \<and> k \<noteq> ''message_time'' \<or> k = last names \<and> ''message_time'' \<in> set names
        then None else dget (bk_subs b) k)) \<and>
    (\<forall>n. dget (bk_items b1) n = (if n \<in> set names \<and> own_name b n
        then map_option (\<lambda>i. i\<lparr>di_subscribed := False\<rparr>) (dget (bk_items b) n) else dget (bk_items b) n))"
proof -
  let ?mt = "''message_time''"
  obtain subs' where u: "unsubscribe_names names [] b = (None, filter (own_name b) names, b\<lparr>bk_subs := subs'\<rparr>)"
    "\<forall>k. dget subs' k = (if k \<in> set names \<and> \<not> own_name b k then None else dget (bk_subs b) k)" "dwf subs'"
    using unsubscribe_names_eq[of names b "[]"] ok sub unfolding subs_ok_def by fastforce
  have mt: "?mt \<in> set names \<Longrightarrow> own_name b ?mt" using ok sub by (auto simp: subs_ok_def)
  define b2 where "b2 = (if ?mt \<in> set names
      then upd_item ?mt (\<lambda>i. i\<lparr>di_subscribed := False\<rparr>) (b\<lparr>bk_subs := dpop subs' (last names)\<rparr>)
      else b\<lparr>bk_subs := subs'\<rparr>)"
  define ns where "ns = remove1 ?mt (filter (own_name b) names)"
  have ns: "set ns = {n \<in> set names. own_name b n \<and> n \<noteq> ?mt}" using d by (auto simp: ns_def)
  have b2: "bk_attrs b2 = bk_attrs b" "dwf (bk_subs b2)"
    "\<And>k. dget (bk_subs b2) k = (if k \<in> set names \<and> \<not> own_name b k \<or> k = last names \<and> ?mt \<in> set names then None else dget (bk_subs b) k)"
    "\<And>n. dget (bk_items b2) n = (if n = ?mt \<and> ?mt \<in> set names then map_option (\<lambda>i. i\<lparr>di_subscribed := False\<rparr>) (dget (bk_items b) n) else dget (bk_items b) n)"
    using u(2,3) by (auto simp: b2_def upd_item_items dict_simps)
  have "\<exists>b3 w1. unsubscribe_pass rpc names tmo (b, w) = (None, fold unsub_local ns b3, w1) \<and>
      bk_attrs b3 = bk_attrs b2 \<and> bk_subs b3 = bk_subs b2 \<and> bk_items b3 = bk_items b2"
  proof (cases "ns = []")
    case True
    have "unsubscribe_pass rpc names tmo (b, w) = (None, b2, w)"
      using u(1) mt True by (auto simp: unsubscribe_pass_def b2_def ns_def remove1_idem)
    with True show ?thesis by auto
  next
    case False
    obtain r b3 w3 where c: "checked_call rpc ''unsubscribe'' tmo (Some (PDict [(''data'', PList (map PStr ns))])) (b2, w) = (r, b3, w3)"
      by (rule prod_cases3)
    then have "b3 = b2\<lparr>bk_json_id := bk_json_id b2 + 1\<rparr>" using checked_call_broker by (metis fst_conv snd_conv)
    moreover have "unsubscribe_pass rpc names tmo (b, w) = (None, fold unsub_local ns b3, w3)"
      using u(1) mt False c by (auto simp: unsubscribe_pass_def b2_def ns_def remove1_idem)
    ultimately show ?thesis by auto
  qed
  then obtain b3 w1 where f: "unsubscribe_pass rpc names tmo (b, w) = (None, fold unsub_local ns b3, w1)"
    "bk_attrs b3 = bk_attrs b2" "bk_subs b3 = bk_subs b2" "bk_items b3 = bk_items b2" by blast
  show ?thesis
  proof (intro exI conjI allI)
    let ?b = "fold unsub_local ns b3"
    show "unsubscribe_pass rpc names tmo (b, w) = (None, ?b, w1)" by (rule f(1))
    show "bk_attrs ?b = bk_attrs b" "dwf (bk_subs ?b)" using f b2(1,2) unsub_fold[of ns b3] by simp_all
    show "dget (bk_subs ?b) k = (if k \<in> set names \<and> k \<noteq> ?mt \<or> k = last names \<and> ?mt \<in> set names then None else dget (bk_subs b) k)" for k
    proof -
      have "dget (bk_subs ?b) k = (if k \<in> set ns \<or> (k \<in> set names \<and> \<not> own_name b k \<or> k = last names \<and> ?mt \<in> set names)
          then None else dget (bk_subs b) k)"
        using conjunct1[OF unsub_fold[of ns b3 k]] unfolding f(3) b2(3)[of k] by (simp only: if_twice)
      moreover have "(k \<in> set ns \<or> (k \<in> set names \<and> \<not> own_name b k \<or> k = last names \<and> ?mt \<in> set names)) =
          (k \<in> set names \<and> k \<noteq> ?mt \<or> k = last names \<and> ?mt \<in> set names)"
        using mt unfolding ns by blast
      ultimately show ?thesis by presburger
    qed
    show "dget (bk_items ?b) n = (if n \<in> set names \<and> own_name b n
        then map_option (\<lambda>i. i\<lparr>di_subscribed := False\<rparr>) (dget (bk_items b) n) else dget (bk_items b) n)" for n
      using f(4) b2(4)[of n] unsub_fold[of ns b3 n] mt by (cases "n = ?mt") (simp_all add: ns)
  qed
qed

lemma subs_okD:
  assumes "subs_ok b" "dget (bk_subs b) k = Some n"
  obtains i where "dget (bk_attrs b) k = Some (AItem n)" "own_name b n" "dget (bk_subs b) n = Some n"
    "dget (bk_items b) n = Some i" "di_name i = n"
  using assms unfolding subs_ok_def by blast

text \<open>Unsubscribing from everything takes at most two passes.\<close>

lemma unsubscribe_everything:
  assumes ok: "subs_ok b"
  shows "\<exists>b' w'. unsubscribe (Suc (Suc n)) rpc (dkeys (bk_subs b)) tmo (b, w) = (None, b', w') \<and>
    (\<forall>k m. dget (bk_subs b) k = Some m \<longrightarrow> (\<exists>i. dget (bk_items b') m = Some i \<and> \<not> di_subscribed i))"
proof -
  let ?mt = "''message_time''" and ?ks = "dkeys (bk_subs b)"
  have d: "distinct ?ks" and sub: "\<forall>k \<in> set ?ks. dget (bk_subs b) k \<noteq> None"
    using ok by (auto simp: subs_ok_def dwf_def dkeys_def[symmetric] dkeys_set)
  obtain b1 w1 where p1: "unsubscribe_pass rpc ?ks tmo (b, w) = (None, b1, w1)" "bk_attrs b1 = bk_attrs b" "dwf (bk_subs b1)"
    "\<forall>k. dget (bk_subs b1) k = (if k \<in> set ?ks \<and> k \<noteq> ?mt \<or> k = last ?ks \<and> ?mt \<in> set ?ks then None else dget (bk_subs b) k)"
    "\<forall>n. dget (bk_items b1) n = (if n \<in> set ?ks \<and> own_name b n
        then map_option (\<lambda>i. i\<lparr>di_subscribed := False\<rparr>) (dget (bk_items b) n) else dget (bk_items b) n)"
    using unsubscribe_pass_ok[OF ok sub d, of rpc tmo w] by blast
  have own: "own_name b1 = own_name b" using p1(2) by (simp add: own_name_def fun_eq_iff)
  have only: "dget (bk_subs b1) k = None" if "k \<noteq> ?mt" for k
    using p1(4) that by (auto simp: dkeys_set)
  have items: "\<exists>i. dget (bk_items b1) m = Some i \<and> \<not> di_subscribed i" if km: "dget (bk_subs b) k = Some m" for k m
  proof -
    obtain i where "own_name b m" "dget (bk_subs b) m = Some m" "dget (bk_items b) m = Some i" using subs_okD[OF ok km] by metis
    with p1(5) show ?thesis by (simp add: dkeys_set)
  qed
  show ?thesis
  proof (cases "bk_subs b1 = []")
    case True
    then show ?thesis using p1(1) items by simp
  next
    case False
    have mt: "dget (bk_subs b1) ?mt \<noteq> None"
    proof
      assume "dget (bk_subs b1) ?mt = None"
      then have "dget (bk_subs b1) k = None" for k using only[of k] by (cases "k = ?mt") simp_all
      then have "bk_subs b1 = []" by (rule dget_all_None)
      with False show False by simp
    qed
    have "k = ?mt" if "dget (bk_subs b1) k \<noteq> None" for k using only[of k] that by blast
    with mt have "set (dkeys (bk_subs b1)) = {?mt}" unfolding dkeys_set by blast
    moreover have "distinct (dkeys (bk_subs b1))" using p1(3) by (simp add: dwf_def dkeys_def)
    ultimately have keys: "dkeys (bk_subs b1) = [?mt]" by (simp add: distinct_single)
    have ok1: "subs_ok b1"
      unfolding subs_ok_def own
    proof (intro conjI allI impI)
      show "dwf (bk_subs b1)" by (rule p1(3))
      have old: "dget (bk_subs b) ?mt = dget (bk_subs b1) ?mt" using p1(4) mt by (metis (no_types, lifting))
      then show "own_name b ?mt" using ok mt by (auto simp: subs_ok_def)
      fix k n assume kn: "dget (bk_subs b1) k = Some n"
      then have k: "k = ?mt" using only by force
      have "dget (bk_attrs b) ?mt = Some (AItem n)" using ok kn old k by (auto simp: subs_ok_def)
      with \<open>own_name b ?mt\<close> have n: "n = ?mt" by (simp add: own_name_def)
      from kn k n \<open>own_name b ?mt\<close> p1(2) show "dget (bk_attrs b1) k = Some (AItem n)" "own_name b n" "dget (bk_subs b1) n = Some n"
        by (auto simp: own_name_def)
      show "\<exists>i. dget (bk_items b1) n = Some i \<and> di_name i = n"
      proof -
        have s: "dget (bk_subs b) ?mt = Some n" using kn old k by simp
        obtain i where i: "own_name b n" "dget (bk_subs b) n = Some n" "dget (bk_items b) n = Some i" "di_name i = n"
          using subs_okD[OF ok s] by metis
        then have "n \<in> set ?ks" by (simp add: dkeys_set)
        with i p1(5) show ?thesis by simp
      qed
    qed
    obtain b2 w2 where p2: "unsubscribe_pass rpc [?mt] None (b1, w1) = (None, b2, w2)"
      "\<forall>k. dget (bk_subs b2) k = (if k \<in> set [?mt] \<and> k \<noteq> ?mt \<or> k = last [?mt] \<and> ?mt \<in> set [?mt] then None else dget (bk_subs b1) k)"
      "\<forall>n. dget (bk_items b2) n = (if n \<in> set [?mt] \<and> own_name b1 n
        then map_option (\<lambda>i. i\<lparr>di_subscribed := False\<rparr>) (dget (bk_items b1) n) else dget (bk_items b1) n)"
      using unsubscribe_pass_ok[OF ok1, of "[?mt]" rpc None w1] mt by auto
    have "bk_subs b2 = []" using p2(2) only by (intro dget_all_None) auto
    then have r: "unsubscribe (Suc (Suc n)) rpc ?ks tmo (b, w) = (None, b2\<lparr>bk_sub_running := False\<rparr>, w2)"
      using p1(1) False keys p2(1) by simp
    have "\<exists>i. dget (bk_items b2) m = Some i \<and> \<not> di_subscribed i" if "dget (bk_subs b) k = Some m" for k m
      using items[OF that] p2(3) by auto
    with r show ?thesis by simp
  qed
qed

subsection \<open>Token requests and writes\<close>

lemma ask_token_log:
  "snd (snd (snd (ask_token (logged rpc) name f (b, w, l)))) = l @ [if f then ''tokenForceAcquire'' else ''tokenAcquire'']"
  by (simp add: ask_token_def token_force_acquire_def token_acquire_def checked_call_logged split: option.split pyval.split)

lemma finish_token_log:
  "''tokenForceAcquire'' \<in> set (snd (snd (snd (finish_token (logged rpc) answers r (b, w, l))))) \<longleftrightarrow>
     ''tokenForceAcquire'' \<in> set l"
  by (simp add: finish_token_def token_owner_def checked_call_logged split: option.split pyval.split)

lemma item_of_upd:
  assumes "item_of (upd_item m f b) k = Inr it'" "\<And>i. di_name (f i) = di_name i" "\<And>i. di_type (f i) = di_type i"
  shows "\<exists>it. item_of b k = Inr it \<and> di_name it' = di_name it \<and> di_type it' = di_type it"
  using assms by (auto simp: item_of_def upd_item_items split: option.splits attr.splits if_splits)

lemma check_params_writable:
  "check_params now params acc b = (x, checked, b') \<Longrightarrow> (n, v) \<in> set checked \<Longrightarrow>
     (n, v) \<in> set acc \<or>
     (\<exists>k it. (k, v) \<in> set params \<and> item_of b k = Inr it \<and> di_name it = n \<and> CHR ''W'' \<in> set (di_type it))"
proof (induction params arbitrary: acc b)
  case (Cons p ps)
  obtain k u where p: "p = (k, u)" by (cases p)
  show ?case
  proof (cases "\<exists>it. has_attr b k \<and> item_of b k = Inr it \<and> CHR ''W'' \<in> set (di_type it)")
    case True
    then obtain it where it: "has_attr b k" "item_of b k = Inr it" "CHR ''W'' \<in> set (di_type it)" by blast
    let ?b1 = "upd_item (di_name it) (\<lambda>i. i\<lparr>di_set_to := Some u, di_set_at := Some now\<rparr>) b"
    have "check_params now ps (dset acc (di_name it) u) ?b1 = (x, checked, b')"
      using Cons.prems(1) it p by simp
    from Cons.IH[OF this Cons.prems(2)] consider "(n, v) \<in> set (dset acc (di_name it) u)"
      | k' it' where "(k', v) \<in> set ps" "item_of ?b1 k' = Inr it'" "di_name it' = n" "CHR ''W'' \<in> set (di_type it')"
      by blast
    then show ?thesis
    proof cases
      case 1
      then show ?thesis using set_dset_subset[of acc "di_name it" u] it p by auto
    next
      case 2
      have "\<exists>i. item_of b k' = Inr i \<and> di_name it' = di_name i \<and> di_type it' = di_type i"
        by (rule item_of_upd[OF 2(2)]) simp_all
      then obtain i where "item_of b k' = Inr i" "di_name i = n" "CHR ''W'' \<in> set (di_type i)" using 2(3,4) by auto
      then show ?thesis using 2(1) by auto
    qed
  next
    case False
    then have "(x, checked, b') = (None, acc, b) \<or> (\<exists>e. (x, checked, b') = (Some e, acc, b)) \<or>
        check_params now ps acc b = (x, checked, b')"
      using Cons.prems(1) p by (auto split: if_splits sum.splits)
    then show ?thesis using Cons.IH[of acc b] Cons.prems(2) by fastforce
  qed
qed simp

subsection \<open>What every channel gives the client\<close>

context rpc_channel
begin

lemma call_reply: "usable w \<Longrightarrow> is_dict (fst (call rpc m t p (b, w))) \<and> usable (snd (snd (call rpc m t p (b, w))))"
  by (simp add: call_simps rpc_dict rpc_usable)

lemma checked_call_usable: "usable w \<Longrightarrow> usable (snd (snd (checked_call rpc m t p (b, w))))"
  using call_reply[of w m t p b] by (cases "call rpc m t p (b, w)") (simp add: checked_call_def)

lemma token_owner_usable: "usable w \<Longrightarrow> usable (snd (snd (token_owner rpc (b, w))))"
  by (simp add: token_owner_def checked_call_usable)

lemma token_acquire_world:
  "snd (snd (token_acquire rpc name (b, w))) =
     snd (snd (checked_call rpc ''tokenAcquire'' None (Some (PDict [(''name'', PStr name)])) (b, w)))"
  by (simp add: token_acquire_def split: prod.split option.split pyval.split)

lemma ask_token_usable: "usable w \<Longrightarrow> usable (snd (snd (ask_token rpc name f (b, w))))"
  using checked_call_usable[of w "''tokenForceAcquire''" None "Some (PDict [(''name'', PStr name)])" b]
    checked_call_usable[of w "''tokenAcquire''" None "Some (PDict [(''name'', PStr name)])" b]
  by (cases "checked_call rpc ''tokenForceAcquire'' None (Some (PDict [(''name'', PStr name)])) (b, w)")
    (simp add: ask_token_def token_force_acquire_def token_acquire_world)

lemma finish_token_usable: "usable w \<Longrightarrow> usable (snd (snd (finish_token rpc as r (b, w))))"
  using token_owner_usable[of w b]
  by (cases "token_owner rpc (b, w)") (simp add: finish_token_def split: option.split pyval.split)

lemma get_token_usable:
  assumes "usable w"
  shows "usable (snd (snd (get_token rpc program caller override (b, w))))"
proof -
  obtain o1 b1 w1 where o1: "token_owner rpc (b, w) = (o1, b1, w1)" by (rule prod_cases3)
  have u1: "usable w1" using token_owner_usable[OF assms, of b] o1 by simp
  have step: "usable (snd (snd (case ask_token rpc name f (b1, w1) of (Inl e, bw2) \<Rightarrow> (Inl e, bw2)
      | (Inr r, bw2) \<Rightarrow> finish_token rpc (answers r) r bw2)))" for name f and answers :: "pyval \<Rightarrow> (string \<times> pyval) list"
  proof -
    obtain x b2 w2 where a: "ask_token rpc name f (b1, w1) = (x, b2, w2)" by (rule prod_cases3)
    then have "usable w2" using ask_token_usable[OF u1, of name f b1] by simp
    with a show ?thesis by (cases x) (simp_all add: finish_token_usable)
  qed
  show ?thesis
    using u1 step by (cases "py_in program (owner_of o1)") (simp_all add: get_token_def o1 Let_def)
qed

lemma suspend_reply: "usable w \<Longrightarrow> is_dict (fst (suspend_broker rpc t (b, w)))"
  by (simp add: suspend_broker_def call_reply)

end

section \<open>Properties\<close>

text \<open>A client of the motor controller, and a channel that answers from a script.\<close>

definition demo_item :: "string \<Rightarrow> string \<Rightarrow> pyval \<Rightarrow> data_item" where
  "demo_item n t u = \<lparr>di_name = n, di_type = t, di_units = Some u, di_subscribed = False, di_value = PNone,
     di_sample_long = PNone, di_sample = Some 0, di_tz = PNone, di_set_to = None, di_set_at = None\<rparr>"

definition demo_broker :: broker where
  "demo_broker =
     \<lparr>bk_name = ''mm3'', bk_json_id = 100,
      bk_attrs = [(''position'', AItem ''position''), (''pos'', AItem ''position''), (''amps'', AItem ''amps''),
                  (''message_time'', AItem ''message_time''), (''set'', AOther)],
      bk_items = [(''position'', (demo_item ''position'' ''RW'' (PStr ''clicks''))\<lparr>di_subscribed := True\<rparr>),
                  (''amps'', demo_item ''amps'' ''RO'' (PStr ''A'')),
                  (''message_time'', (demo_item ''message_time'' ''RO'' PNone)\<lparr>di_subscribed := True\<rparr>)],
      bk_points = [], bk_subs = [(''pos'', ''position''), (''position'', ''position''), (''message_time'', ''message_time'')],
      bk_callbacks = [(''position'', 1)], bk_sub_running = True, bk_sub_error = False, bk_linked = True,
      bk_initialized = True, bk_token = False, bk_power_on = Some True, bk_db = Some True, bk_instr = Some True,
      bk_suspended = Some False, bk_last_db = PNone, bk_last_data = PNone, bk_start = PNone,
      bk_resume_timeout = 50, bk_stale = seconds 10\<rparr>"

definition script_rpc :: "pyval list rpc_fun" where
  "script_rpc rq ws = (case ws of [] \<Rightarrow> (timeout_error, []) | v # vs \<Rightarrow> (v, vs))"


text \<open>
  C7. The token is taken by force exactly when the program's name occurs in the owner's name or
  the caller overrides a foreign owner. The test is for a substring: an owner whose name merely
  contains the program's name loses the token without an override.
\<close>

theorem token_force_iff:
  assumes "py_in program (owner_of (fst (token_owner rpc (b, w)))) = Inr mine"
  shows "''tokenForceAcquire'' \<in> set (snd (snd (snd (get_token (logged rpc) program caller override (b, w, []))))) \<longleftrightarrow>
    mine \<or> override \<and> owner_of (fst (token_owner rpc (b, w))) \<noteq> PStr []"
proof -
  obtain o1 b1 w1 where o1: "checked_call rpc ''tokenOwner'' None None (b, w) = (o1, b1, w1)" by (rule prod_cases3)
  have py: "py_in program (owner_of o1) = Inr mine" using assms o1 by (simp add: token_owner_def)
  define f where "f = (mine \<or> owner_of o1 \<noteq> PStr [] \<and> override)"
  obtain x b2 w2 l2 where a: "ask_token (logged rpc) (program @ ''.'' @ caller) f (b1, w1, [''tokenOwner'']) = (x, b2, w2, l2)"
    by (metis prod.exhaust)
  have l2: "l2 = [''tokenOwner'', if f then ''tokenForceAcquire'' else ''tokenAcquire'']"
    using ask_token_log[of rpc "program @ ''.'' @ caller" f b1 w1 "[''tokenOwner'']"] unfolding a by simp
  show ?thesis
    using py o1 a l2
    by (cases x) (simp_all add: get_token_def token_owner_def checked_call_logged Let_def f_def[symmetric]
        finish_token_log, simp_all add: f_def conj_commute)
qed

lemma demo_owner:
  "py_in ''avp'' (owner_of (fst (token_owner script_rpc (demo_broker, [PDict [(''result'', PStr ''avp_super.main'')]])))) = Inr True"
  by code_simp

theorem token_force_iff_witness:
  "''tokenForceAcquire'' \<in> set (snd (snd (snd (get_token (logged script_rpc) ''avp'' ''main'' False
     (demo_broker, [PDict [(''result'', PStr ''avp_super.main'')]], [])))))"
  using token_force_iff[OF demo_owner] by blast

text \<open>
  After a token request that returns, the client counts itself the holder exactly if the
  broker answered ok; an answer that is neither ok nor an error raises TypeError instead.
\<close>

theorem token_acquire_honest:
  "(case token_acquire rpc name bw of
      (Inr r, b', w') \<Rightarrow> bk_token b' = is_ok r
    | (Inl e, b', w') \<Rightarrow> bk_token b' = bk_token (fst bw) \<and>
        (e = TypeError \<longleftrightarrow> pget (fst (checked_call rpc ''tokenAcquire'' None (Some (PDict [(''name'', PStr name)])) bw)) ''error'' = None))"
proof -
  obtain b w where bw: "bw = (b, w)" by (cases bw)
  show ?thesis
    unfolding bw using checked_call_broker[of rpc "''tokenAcquire''" None "Some (PDict [(''name'', PStr name)])" b w]
    by (auto simp: token_acquire_def split: prod.split option.split pyval.split)
qed


definition demo_params :: "(string \<times> pyval) list" where
  "demo_params = [(''amps'', PInt 3), (''pos'', PInt 500), (''depth'', PInt 1)]"

lemma demo_checked: "fst (snd (check_params 0 demo_params [] demo_broker)) = [(''position'', PInt 500)]"
  by code_simp


text \<open>
  Unsubscribing from everything ends after at most two passes, raises nothing, and leaves no
  subscription, no callback and no item marked as subscribed that was subscribed to.
\<close>

theorem unsubscribe_all_clears:
  assumes "subs_ok b"
  shows "\<exists>b' w'. unsubscribe_all (Suc (Suc n)) rpc (b, w) = (None, b', w') \<and> bk_subs b' = [] \<and> bk_callbacks b' = [] \<and>
    (\<forall>k m. dget (bk_subs b) k = Some m \<longrightarrow> (\<exists>i. dget (bk_items b') m = Some i \<and> \<not> di_subscribed i))"
proof (cases "bk_subs b = []")
  case False
  obtain b1 w1 where "unsubscribe (Suc (Suc n)) rpc (dkeys (bk_subs b)) None (b, w) = (None, b1, w1)"
    "\<forall>k m. dget (bk_subs b) k = Some m \<longrightarrow> (\<exists>i. dget (bk_items b1) m = Some i \<and> \<not> di_subscribed i)"
    using unsubscribe_everything[OF assms, of n rpc None w] by blast
  with False show ?thesis by (simp add: unsubscribe_all_def del: unsubscribe.simps)
qed (simp add: unsubscribe_all_def)

lemma demo_subs_ok: "subs_ok demo_broker"
  by (auto simp: subs_ok_def demo_broker_def own_name_def dwf_def demo_item_def split: if_splits)

theorem unsubscribe_all_clears_witness:
  "\<exists>b' w'. unsubscribe_all 2 script_rpc (demo_broker, []) = (None, b', w') \<and> bk_subs b' = []"
  using unsubscribe_all_clears[OF demo_subs_ok, of 0 script_rpc "[]"] by (auto simp: numeral_2_eq_2)

text \<open>Calls while the socket is not connected.\<close>

definition offline :: "socket_world \<Rightarrow> bool" where
  "offline w \<longleftrightarrow> \<not> so_connected (sw_handler w)"

definition offline_error :: pyval where
  "offline_error = msg_error ''Not connected to broker.'' 0"

lemma offline_error_facts:
  "result_checker offline_error = offline_error" "owner_of offline_error = offline_error"
  "is_ok offline_error = False" "pget offline_error ''error'' = Some (PDict [(''message'', PStr ''Not connected to broker.''), (''code'', PInt 0)])"
  by code_simp+

lemma offline_call:
  assumes "offline w"
  obtains w' where "offline w'"
    "checked_call socket_rpc m t p (b, w) = (offline_error, b\<lparr>bk_json_id := bk_json_id b + 1\<rparr>, w')"
proof -
  let ?rq = "\<lparr>rq_method = m, rq_id = bk_json_id b + 1, rq_timeout = t, rq_params = p\<rparr>"
  have "fst (socket_rpc ?rq w) = offline_error \<and> offline (snd (socket_rpc ?rq w))"
    using assms by (auto simp: socket_rpc_def send_rpc_def offline_def offline_error_def split: list.split)
  then show thesis using that[of "snd (socket_rpc ?rq w)"]
    by (simp add: checked_call_def call_simps offline_error_facts)
qed

lemma offline_ask:
  assumes "offline w"
  obtains b' w' where "ask_token socket_rpc name f (b, w) = (Inr offline_error, b', w')" "\<not> bk_token b'"
proof -
  obtain w1 where a: "checked_call socket_rpc ''tokenForceAcquire'' None (Some (PDict [(''name'', PStr name)])) (b, w) =
      (offline_error, b\<lparr>bk_json_id := bk_json_id b + 1\<rparr>, w1)" by (rule offline_call[OF assms])
  obtain w2 where c: "checked_call socket_rpc ''tokenAcquire'' None (Some (PDict [(''name'', PStr name)])) (b, w) =
      (offline_error, b\<lparr>bk_json_id := bk_json_id b + 1\<rparr>, w2)" by (rule offline_call[OF assms])
  show thesis
    using that a c by (cases f)
      (simp_all add: ask_token_def token_force_acquire_def token_acquire_def offline_error_facts)
qed

text \<open>
  Without a connection \<open>get_token\<close> raises nothing: it reports the error of the channel and
  leaves the client without the token.
\<close>

theorem get_token_offline:
  assumes "offline w" "program \<noteq> ''error''"
  shows "\<exists>r b' w'. get_token socket_rpc program caller override (b, w) = (Inr (PDict r), b', w') \<and> \<not> bk_token b' \<and>
    dget r ''acquire_result'' = Some offline_error"
proof -
  obtain w1 where o: "offline w1" "checked_call socket_rpc ''tokenOwner'' None None (b, w) =
      (offline_error, b\<lparr>bk_json_id := bk_json_id b + 1\<rparr>, w1)" by (rule offline_call[OF assms(1)])
  have py: "py_in program offline_error = Inr False" and ne: "offline_error \<noteq> PStr []"
    using assms(2) by (simp_all add: offline_error_def msg_error_def dict_simps)
  obtain b2 w2 where a: "ask_token socket_rpc (program @ ''.'' @ caller) override (b\<lparr>bk_json_id := bk_json_id b + 1\<rparr>, w1) =
      (Inr offline_error, b2, w2)" "\<not> bk_token b2" by (rule offline_ask[OF o(1)])
  show ?thesis
    using o(2) py ne a by (simp add: get_token_def token_owner_def offline_error_facts finish_token_def Let_def)
qed

theorem get_token_offline_witness:
  "\<exists>r b' w'. get_token socket_rpc ''avp'' ''main'' True
     (demo_broker, \<lparr>sw_handler = idle_socket\<lparr>so_connected := False\<rparr>, sw_script = []\<rparr>) = (Inr (PDict r), b', w') \<and> \<not> bk_token b'"
  using get_token_offline[of "\<lparr>sw_handler = idle_socket\<lparr>so_connected := False\<rparr>, sw_script = []\<rparr>" "''avp''"]
  by (fastforce simp: offline_def)

text \<open>
  A float that the brokers use to say that there is no value, positive and at most
  \<open>1e-300\<close>, is stored as None; every other float of an item that is not boolean is stored as it is.
\<close>

theorem tiny_is_none:
  assumes "di_units it = Some u" "u \<noteq> PStr ''boolean''"
  shows "clean_value it (PFloat q) = Inr (if 0 < q \<and> q \<le> minimum_value then PNone else PFloat q)"
  using assms by (auto simp: clean_value_def)

theorem tiny_is_none_witness: "clean_value (demo_item ''depth'' ''RO'' (PStr ''m'')) (PFloat (1 / 10 ^ 305)) = Inr PNone"
  using tiny_is_none[of "demo_item ''depth'' ''RO'' (PStr ''m'')" "PStr ''m''" "1 / 10 ^ 305"]
  by (simp add: demo_item_def minimum_value_def)

text \<open>Asking for the power with a command that is not valid raises KeyError and sends nothing.\<close>

theorem power_invalid_raises:
  assumes "command \<notin> {''on'', ''off'', ''check''}"
  shows "power rpc command tmo bw = (Inl (KeyError ''c''), bw)"
  using assms by (simp add: power_def)

theorem power_invalid_raises_witness: "power script_rpc ''reset'' None (demo_broker, []) = (Inl (KeyError ''c''), demo_broker, [])"
  by (rule power_invalid_raises) simp

text \<open>
  Taking the token over the socket keeps the channel sound: replies stay filed under their
  own ids, so the calls that follow get the right answers too.
\<close>

theorem get_token_keeps_channel:
  assumes "replies_ok (sw_handler w)"
  shows "replies_ok (sw_handler (snd (snd (get_token socket_rpc program caller override (b, w)))))"
  using sock.get_token_usable[of w program caller override b] assms by (simp add: socket_usable_def)

theorem get_token_keeps_channel_witness:
  "replies_ok (sw_handler (snd (snd (get_token socket_rpc ''avp'' ''main'' False
     (demo_broker, \<lparr>sw_handler = idle_socket, sw_script = [(True, demo_lines)]\<rparr>)))))"
  by (rule get_token_keeps_channel) (simp add: idle_replies)

end
