(* ===== verification/Effects.thy ===== *)
theory Effects
  imports Prelude
begin

text \<open>
  Operations with effects: functions from a state to a result, which may be an exception, and the
  state after it. \<open>bnd\<close> puts two operations in sequence, an exception ends the first.
\<close>

type_synonym ('s, 'a) act = "'s \<Rightarrow> 'a res \<times> 's"

definition ret :: "'a \<Rightarrow> ('s, 'a) act" where
  "ret x s = (Inr x, s)"

definition fail :: "pyexn \<Rightarrow> ('s, 'a) act" where
  "fail e s = (Inl e, s)"

definition bnd :: "('s, 'a) act \<Rightarrow> ('a \<Rightarrow> ('s, 'b) act) \<Rightarrow> ('s, 'b) act" where
  "bnd m f s = (case m s of (Inl e, s1) \<Rightarrow> (Inl e, s1) | (Inr x, s1) \<Rightarrow> f x s1)"

text \<open>\<open>try: m except: h\<close>, the handler being given the exception.\<close>

definition catching :: "('s, 'a) act \<Rightarrow> (pyexn \<Rightarrow> ('s, 'a) act) \<Rightarrow> ('s, 'a) act" where
  "catching m h s = (case m s of (Inl e, s1) \<Rightarrow> h e s1 | r \<Rightarrow> r)"

definition only_if :: "bool \<Rightarrow> ('s, 'a) act \<Rightarrow> 'a \<Rightarrow> ('s, 'a) act" where
  "only_if c m x = (if c then m else ret x)"

text \<open>Operations that read the state, change it, or cannot raise.\<close>

definition peek :: "('s \<Rightarrow> 'a) \<Rightarrow> ('s, 'a) act" where
  "peek f s = (Inr (f s), s)"

definition modify :: "('s \<Rightarrow> 's) \<Rightarrow> ('s, unit) act" where
  "modify f s = (Inr (), f s)"

definition plain :: "('s \<Rightarrow> 'a \<times> 's) \<Rightarrow> ('s, 'a) act" where
  "plain f s = (case f s of (x, s1) \<Rightarrow> (Inr x, s1))"

definition of_res :: "'a res \<Rightarrow> ('s, 'a) act" where
  "of_res r s = (r, s)"

lemma act_simps [simp]:
  "bnd (ret x) f = f x" "bnd (fail e) f = fail e" "only_if True m x = m" "only_if False m x = ret x"
  "catching (ret x) h = ret x" "catching (fail e) h = h e"
  by (simp_all add: fun_eq_iff bnd_def ret_def fail_def only_if_def catching_def)

lemma bnd_assoc: "bnd (bnd m f) g = bnd m (\<lambda>x. bnd (f x) g)"
  by (simp add: fun_eq_iff bnd_def split: prod.split sum.split)

lemma bnd_ret: "bnd m ret = m" "bnd m (\<lambda>u. ret ()) = m"
  by (auto simp: fun_eq_iff bnd_def ret_def split: prod.split sum.split)

lemma bnd_run:
  "m s = (Inr x, s1) \<Longrightarrow> bnd m f s = f x s1"
  "m s = (Inl e, s1) \<Longrightarrow> bnd m f s = (Inl e, s1)"
  by (simp_all add: bnd_def)

lemma bnd_cases:
  obtains (raised) e s1 where "m s = (Inl e, s1)" "bnd m f s = (Inl e, s1)"
  | (returned) x s1 where "m s = (Inr x, s1)" "bnd m f s = f x s1"
  by (cases "m s"; cases "fst (m s)") (auto simp: bnd_def)

text \<open>A relation between the states before and after that all parts of an operation keep.\<close>

definition keeps :: "('s \<Rightarrow> 's \<Rightarrow> bool) \<Rightarrow> ('s, 'a) act \<Rightarrow> bool" where
  "keeps R m \<longleftrightarrow> (\<forall>s. R s (snd (m s)))"

lemma keepsD: "keeps R m \<Longrightarrow> m s = (r, s') \<Longrightarrow> R s s'"
  unfolding keeps_def by (metis snd_conv)

locale kept =
  fixes R :: "'s \<Rightarrow> 's \<Rightarrow> bool"
  assumes r_refl: "R s s" and r_trans: "R s t \<Longrightarrow> R t u \<Longrightarrow> R s u"
begin

lemma k_ret: "keeps R (ret x)"
  by (simp add: keeps_def ret_def r_refl)

lemma k_fail: "keeps R (fail e)"
  by (simp add: keeps_def fail_def r_refl)

lemma k_peek: "keeps R (peek f)"
  by (simp add: keeps_def peek_def r_refl)

lemma k_of_res: "keeps R (of_res r)"
  by (simp add: keeps_def of_res_def r_refl)

lemma k_bnd: "keeps R m \<Longrightarrow> (\<And>x. keeps R (f x)) \<Longrightarrow> keeps R (bnd m f)"
  unfolding keeps_def
proof
  fix s
  assume k: "\<forall>s. R s (snd (m s))" "\<And>x. \<forall>s. R s (snd (f x s))"
  show "R s (snd (bnd m f s))"
  proof (rule bnd_cases[of m s f])
    fix e s1
    assume "m s = (Inl e, s1)" "bnd m f s = (Inl e, s1)"
    then show ?thesis using k(1)[rule_format, of s] by simp
  next
    fix x s1
    assume "m s = (Inr x, s1)" "bnd m f s = f x s1"
    then show ?thesis using k(1)[rule_format, of s] k(2)[rule_format, of s1 x] by (auto intro: r_trans)
  qed
qed

lemma k_catching: "keeps R m \<Longrightarrow> (\<And>e. keeps R (h e)) \<Longrightarrow> keeps R (catching m h)"
  unfolding keeps_def
proof
  fix s
  assume k: "\<forall>s. R s (snd (m s))" "\<And>e. \<forall>s. R s (snd (h e s))"
  obtain r s1 where m: "m s = (r, s1)" by (cases "m s")
  then show "R s (snd (catching m h s))"
    using k(1)[rule_format, of s] k(2)[rule_format, of s1] by (cases r) (auto simp: catching_def intro: r_trans)
qed

lemma k_if: "(c \<Longrightarrow> keeps R m) \<Longrightarrow> (\<not> c \<Longrightarrow> keeps R m') \<Longrightarrow> keeps R (if c then m else m')"
  by simp

lemma k_only_if: "(c \<Longrightarrow> keeps R m) \<Longrightarrow> keeps R (only_if c m x)"
  by (cases c) (simp_all add: k_ret)

lemma k_option: "keeps R m \<Longrightarrow> (\<And>x. keeps R (f x)) \<Longrightarrow> keeps R (case v of None \<Rightarrow> m | Some x \<Rightarrow> f x)"
  by (cases v) simp_all

lemmas k_rules = k_ret k_fail k_peek k_of_res k_bnd k_catching k_if k_only_if k_option

end

end
