(* ===== verification/Trace.thy ===== *)
theory Trace
  imports Broker Effects
begin

text \<open>
  What a client sends: a channel that keeps the calls with their parameters in their order, and the
  rules by which the calls an operation can make are read off its definition (collection
  \<open>calls_intros\<close>).
\<close>

section \<open>Traces\<close>

type_synonym trace = "(string \<times> pyval option) list"

definition traced :: "'w rpc_fun \<Rightarrow> ('w \<times> trace) rpc_fun" where
  "traced rpc rq wl = (fst (rpc rq (fst wl)), snd (rpc rq (fst wl)), snd wl @ [(rq_method rq, rq_params rq)])"

lemma checked_call_traced:
  "checked_call (traced rpc) m tmo params (b, w, l) =
     (fst (checked_call rpc m tmo params (b, w)), b\<lparr>bk_json_id := bk_json_id b + 1\<rparr>,
      snd (snd (checked_call rpc m tmo params (b, w))), l @ [(m, params)])"
  by (simp add: checked_call_def call_simps traced_def)

section \<open>Reading\<close>

text \<open>Reading values sets none.\<close>

definition reads_only :: "trace \<Rightarrow> trace \<Rightarrow> bool" where
  "reads_only l l' \<longleftrightarrow> (\<exists>rest. l' = l @ rest \<and> ''set'' \<notin> fst ` set rest)"

lemma reads_only_refl: "reads_only l l"
  by (simp add: reads_only_def)

lemma reads_only_snoc: "reads_only l l' \<Longrightarrow> m \<noteq> ''set'' \<Longrightarrow> reads_only l (l' @ [(m, p)])"
  unfolding reads_only_def by (elim exE) (rule_tac x = "rest @ [(m, p)]" in exI, auto)

lemma status_world:
  assumes "call rpc ''status'' tmo (Some (PDict [(''data'', PList (map PStr (remove1 ''message_time'' ns))),
                (''style'', PStr (if v then ''verbose'' else ''terse''))])) bw = (x, b1, w1)"
  shows "snd (snd (snd (status rpc ns v tmo bw))) = w1"
proof (cases x)
  case (PDict d)
  show ?thesis
  proof (cases "dhas d ''error''")
    case False
    show ?thesis
    proof (cases "dget_or d ''result'' PNone")
      case (PDict res)
      then show ?thesis using assms \<open>x = PDict d\<close> False
        by (cases "dget_or res ''message_time'' PNone") (simp_all add: status_def Let_def)
    qed (use assms PDict False in \<open>simp_all add: status_def Let_def\<close>)
  qed (use assms PDict in \<open>simp add: status_def Let_def\<close>)
qed (use assms in \<open>simp_all add: status_def Let_def\<close>)

lemma status_reads:
  assumes "reads_only l0 l"
  shows "reads_only l0 (snd (snd (snd (snd (status (traced rpc) ns v tmo (b, w, l))))))"
proof -
  obtain p w1 where "snd (snd (snd (status (traced rpc) ns v tmo (b, w, l)))) = (w1, l @ [(''status'', p)])"
    by (rule that, rule status_world, simp add: call_simps traced_def)
  then show ?thesis using reads_only_snoc[OF assms, of "''status''"] by simp
qed

lemma value_getter_reads:
  assumes "reads_only l0 l"
  shows "reads_only l0 (snd (snd (snd (value_getter (traced rpc) now n (b, w, l)))))"
proof -
  have "reads_only l0 (snd (snd (snd (case status (traced rpc) [m] False None (b, w, l) of (r, ns, bw1) \<Rightarrow> (Inr (f bw1), bw1)))))" for m f
    using status_reads[OF assms, of rpc "[m]" False None b w] by (auto split: prod.split)
  then show ?thesis using assms by (auto simp: value_getter_def Let_def split: option.split)
qed

lemma get_value_reads:
  assumes "reads_only l0 l"
  shows "reads_only l0 (snd (snd (snd (get_value (traced rpc) ns v tmo (b, w, l)))))"
proof (cases "resolve_names b ns")
  case (Inr r)
  show ?thesis
  proof (cases r)
    case (Some ms)
    then show ?thesis using Inr status_reads[OF assms, of rpc ms v tmo b w]
      by (auto simp: get_value_def split: prod.split pyval.split)
  qed (simp add: Inr get_value_def assms)
qed (simp add: get_value_def assms)

section \<open>The calls an operation can make\<close>

definition sent :: "string set \<Rightarrow> broker \<times> 'w \<times> trace \<Rightarrow> broker \<times> 'w \<times> trace \<Rightarrow> bool" where
  "sent M s s' \<longleftrightarrow> (\<exists>rest. snd (snd s') = snd (snd s) @ rest \<and> fst ` set rest \<subseteq> M)"

interpretation sent: kept "sent M" for M :: "string set"
proof
  show "sent M s s" for s :: "broker \<times> 'w \<times> trace" by (simp add: sent_def)
  show "sent M s u" if "sent M s t" "sent M t u" for s t u :: "broker \<times> 'w \<times> trace"
    using that unfolding sent_def by (elim exE conjE) (rule exI[of _ "_ @ _"], auto)
qed

named_theorems calls_intros

lemmas [calls_intros] = sent.k_rules

lemma sent_one: "snd (snd s') = snd (snd s) @ [(m, p)] \<Longrightarrow> m \<in> M \<Longrightarrow> sent M s s'"
  by (auto simp: sent_def)

lemma checked_call_sends [calls_intros]: "m \<in> M \<Longrightarrow> keeps (sent M) (plain (checked_call (traced rpc) m t p))"
  by (auto simp: keeps_def plain_def checked_call_traced intro: sent_one split: prod.split)

lemma plain_sends: "(\<And>s. sent M s (snd (f s))) \<Longrightarrow> keeps (sent M) (plain f)"
  by (auto simp: keeps_def plain_def split: prod.split) (metis snd_conv)

lemma status_sends: "''status'' \<in> M \<Longrightarrow> sent M (b, w, l) (snd (snd (status (traced rpc) ns v t (b, w, l))))"
proof (rule sent_one)
  show "snd (snd (snd (snd (status (traced rpc) ns v t (b, w, l))))) =
      snd (snd (b, w, l)) @ [(''status'', Some (PDict [(''data'', PList (map PStr (remove1 ''message_time'' ns))),
                (''style'', PStr (if v then ''verbose'' else ''terse''))]))]"
    by (subst status_world) (auto simp: call_simps traced_def)
qed

lemma value_getter_sends [calls_intros]: "''status'' \<in> M \<Longrightarrow> keeps (sent M) (value_getter (traced rpc) now n)"
proof -
  assume m: "''status'' \<in> M"
  have s: "sent M (b, w, l) (snd (case status (traced rpc) ns False None (b, w, l) of (r, ns, bw1) \<Rightarrow> (Inr (f bw1), bw1)))"
    for b w l ns and f :: "_ \<Rightarrow> pyval"
    using status_sends[OF m, of b w l rpc ns False None] by (auto split: prod.split)
  show ?thesis
    using s sent.r_refl by (auto simp: keeps_def value_getter_def Let_def split: option.split)
qed

lemma get_value_sends [calls_intros]: "''status'' \<in> M \<Longrightarrow> keeps (sent M) (get_value (traced rpc) ns v t)"
proof -
  assume m: "''status'' \<in> M"
  have "sent M (b, w, l) (snd (get_value (traced rpc) ns v t (b, w, l)))" for b w l
  proof (cases "resolve_names b ns")
    case (Inr r)
    show ?thesis
    proof (cases r)
      case (Some ms)
      then show ?thesis using Inr status_sends[OF m, of b w l rpc ms v t]
        by (auto simp: get_value_def split: prod.split pyval.split)
    qed (simp add: Inr get_value_def sent.r_refl)
  qed (simp add: get_value_def sent.r_refl)
  then show ?thesis by (auto simp: keeps_def)
qed

lemma checked_call_sent: "m \<in> M \<Longrightarrow> sent M (b0, w, l) (snd (checked_call (traced rpc) m t p (b, w, l)))"
  by (rule sent_one) (auto simp: checked_call_traced)

lemma broker_status_sends: "''broker_status'' \<in> M \<Longrightarrow> sent M (b0, w, l) (snd (broker_status (traced rpc) t (b, w, l)))"
  using checked_call_sent[of "''broker_status''" M b0 w l rpc t None b]
  by (auto simp: broker_status_def sent_def split: prod.splits)

lemma unsubscribe_pass_sends: "''unsubscribe'' \<in> M \<Longrightarrow> sent M (b, w, l) (snd (unsubscribe_pass (traced rpc) ns t (b, w, l)))"
proof -
  assume m: "''unsubscribe'' \<in> M"
  obtain e c b1 where k: "unsubscribe_names ns [] b = (e, c, b1)" by (rule prod_cases3)
  have "sent M (b, w, l) (snd (case checked_call (traced rpc) ''unsubscribe'' t p (b2, w, l) of (r, b3, w3) \<Rightarrow>
      (None :: pyexn option, fold unsub_local cs b3, w3)))" for p b2 cs
    using checked_call_sent[OF m, of b w l rpc t p b2] by (auto simp: sent_def split: prod.split)
  then show ?thesis using k by (cases e) (auto simp: unsubscribe_pass_def Let_def sent_def)
qed

lemma unsubscribe_sends: "''unsubscribe'' \<in> M \<Longrightarrow> sent M (b, w, l) (snd (unsubscribe n (traced rpc) ns t (b, w, l)))"
proof (induction n arbitrary: b w l ns t)
  case (Suc n)
  obtain e b1 w1 l1 where k: "unsubscribe_pass (traced rpc) ns t (b, w, l) = (e, b1, w1, l1)" by (metis prod.collapse)
  then have s: "sent M (b, w, l) (b1, w1, l1)" using unsubscribe_pass_sends[OF Suc.prems, of b w l rpc ns t] by simp
  then have "sent M (b, w, l) (b1\<lparr>bk_sub_running := False\<rparr>, w1, l1)" by (simp add: sent_def)
  then show ?case using k s sent.r_trans[OF s Suc.IH[OF Suc.prems]] by (cases e) auto
qed (simp add: sent.r_refl)

lemma unsubscribe_all_sends: "''unsubscribe'' \<in> M \<Longrightarrow> sent M (b, w, l) (snd (unsubscribe_all n (traced rpc) (b, w, l)))"
proof -
  assume m: "''unsubscribe'' \<in> M"
  obtain e b1 w1 l1 where k: "(if bk_subs b \<noteq> [] then unsubscribe n (traced rpc) (dkeys (bk_subs b)) None (b, w, l) else (None, b, w, l)) =
      (e, b1, w1, l1)" by (metis prod.collapse)
  then have "sent M (b, w, l) (b1, w1, l1)"
    using unsubscribe_sends[OF m, of b w l n rpc "dkeys (bk_subs b)" None] by (auto simp: sent.r_refl split: if_splits)
  then show ?thesis using k by (cases e) (auto simp: unsubscribe_all_def sent_def)
qed

lemma set_params_sends [calls_intros]: "''set'' \<in> M \<Longrightarrow> keeps (sent M) (set_params (traced rpc) now ps ws t)"
proof -
  assume m: "''set'' \<in> M"
  have "sent M (b, w, l) (snd (set_params (traced rpc) now ps ws t (b, w, l)))" for b w l
  proof -
    obtain x c b1 where c: "check_params now ps [] b = (x, c, b1)" by (rule prod_cases3)
    show ?thesis
    proof (cases "x = None \<and> c \<noteq> []")
      case True
      then show ?thesis using c checked_call_sent[OF m, of b w l rpc t _ b1]
        by (simp add: set_params_def Let_def split: prod.split) (metis snd_conv)
    next
      case False
      then show ?thesis using c by (auto simp: set_params_def sent_def split: option.split)
    qed
  qed
  then show ?thesis by (auto simp: keeps_def)
qed

lemma add_subscriptions_sends [calls_intros]:
  "''subscribe'' \<in> M \<Longrightarrow> keeps (sent M) (add_subscriptions (traced rpc) ns opts t)"
proof -
  assume m: "''subscribe'' \<in> M"
  have "sent M (b, w, l) (snd (add_subscriptions (traced rpc) ns opts t (b, w, l)))" for b w l
  proof -
    obtain x c b1 where c: "subscribe_names (ns @ [''message_time'']) [] b = (x, c, b1)" by (rule prod_cases3)
    show ?thesis
    proof (cases "bk_initialized b \<and> ns \<noteq> [] \<and> x = None \<and> remove1 ''message_time'' c \<noteq> []")
      case True
      then show ?thesis using c checked_call_sent[OF m, of b w l rpc t _ b1]
        by (simp add: add_subscriptions_def Let_def split: prod.split) (metis snd_conv)
    next
      case False
      then show ?thesis using c by (auto simp: add_subscriptions_def Let_def sent_def split: option.split)
    qed
  qed
  then show ?thesis by (auto simp: keeps_def)
qed

section \<open>Writing\<close>

definition set_of :: "(string \<times> pyval) list \<Rightarrow> string \<times> pyval option" where
  "set_of ps = (''set'', Some (PDict ps))"

text \<open>The parameter is known under its own name and writable.\<close>

definition writable :: "broker \<Rightarrow> string \<Rightarrow> bool" where
  "writable b n \<longleftrightarrow> dget (bk_attrs b) n = Some (AItem n) \<and>
     (case dget (bk_items b) n of None \<Rightarrow> False | Some i \<Rightarrow> di_name i = n \<and> CHR ''W'' \<in> set (di_type i))"

text \<open>What a client keeps of its own state while it sends values.\<close>

definition same_client :: "broker \<Rightarrow> broker \<Rightarrow> bool" where
  "same_client b b' \<longleftrightarrow> bk_token b' = bk_token b \<and> bk_initialized b' = bk_initialized b \<and> bk_subs b' = bk_subs b \<and>
     bk_stale b' = bk_stale b \<and> (\<forall>n. writable b' n = writable b n)"

lemma same_client_refl: "same_client b b"
  by (simp add: same_client_def)

lemma same_client_trans: "same_client b b' \<Longrightarrow> same_client b' b'' \<Longrightarrow> same_client b b''"
  by (simp add: same_client_def)

lemma upd_item_client:
  assumes "\<And>i. di_name (f i) = di_name i" "\<And>i. di_type (f i) = di_type i"
  shows "same_client b (upd_item n f b)"
proof -
  have "bk_token (upd_item n f b) = bk_token b \<and> bk_initialized (upd_item n f b) = bk_initialized b \<and> bk_stale (upd_item n f b) = bk_stale b"
    by (simp add: upd_item_def split: option.split)
  moreover have "writable (upd_item n f b) k = writable b k" for k
    by (simp add: writable_def upd_item_items assms split: option.split)
  ultimately show ?thesis by (simp add: same_client_def)
qed

lemma writableD:
  assumes "writable b n"
  obtains i where "has_attr b n" "item_of b n = Inr i" "di_name i = n" "CHR ''W'' \<in> set (di_type i)"
  using assms by (auto simp: writable_def item_of_def has_attr_def dhas_def dget_def split: option.splits)

text \<open>Parameters that are all writable are sent as they are.\<close>

lemma check_params_all:
  "\<forall>k \<in> fst ` set ps. writable b k \<Longrightarrow> distinct (map fst ps) \<Longrightarrow> fst ` set ps \<inter> fst ` set acc = {} \<Longrightarrow>
     \<exists>b'. check_params now ps acc b = (None, acc @ ps, b') \<and> same_client b b'"
proof (induction ps arbitrary: acc b)
  case Nil
  show ?case by (simp add: same_client_refl)
next
  case (Cons p ps)
  obtain k v where p: "p = (k, v)" by (cases p)
  obtain i where i: "has_attr b k" "item_of b k = Inr i" "di_name i = k" "CHR ''W'' \<in> set (di_type i)"
    using Cons.prems(1) p by (auto elim: writableD)
  let ?b = "upd_item k (\<lambda>i. i\<lparr>di_set_to := Some v, di_set_at := Some now\<rparr>) b"
  have s: "same_client b ?b" by (rule upd_item_client) simp_all
  have acc: "dset acc k v = acc @ [(k, v)]" using Cons.prems(3) p by (intro dset_fresh) auto
  have "\<exists>b'. check_params now ps (acc @ [(k, v)]) ?b = (None, (acc @ [(k, v)]) @ ps, b') \<and> same_client ?b b'"
    using Cons.prems p s by (intro Cons.IH) (auto simp: same_client_def)
  then show ?case using i s p acc by (auto intro: same_client_trans)
qed

lemma same_client_id: "same_client b b' \<Longrightarrow> same_client b (b'\<lparr>bk_json_id := i\<rparr>)"
  by (simp add: same_client_def writable_def)

lemma set_traced:
  assumes "\<forall>k \<in> fst ` set ps. writable b k" "distinct (map fst ps)" "ps \<noteq> []"
  shows "\<exists>r b' w'. set_params (traced rpc) now ps False tmo (b, w, l) = (Inr r, b', w', l @ [set_of ps]) \<and>
    same_client b b' \<and> is_dict r"
proof -
  obtain b1 where b1: "check_params now ps [] b = (None, ps, b1)" "same_client b b1"
    using check_params_all[of ps b "[]" now] assms(1,2) by auto
  then show ?thesis
    using assms(3) same_client_id[OF b1(2)]
    by (simp add: set_params_def checked_call_traced set_of_def checked_call_dict)
qed

section \<open>Taking the token\<close>

text \<open>\<open>get_token\<close> sends nothing but requests for the token and leaves attributes and items.\<close>

definition token_methods :: "string set" where
  "token_methods = {''tokenOwner'', ''tokenAcquire'', ''tokenForceAcquire''}"

definition token_step :: "broker \<times> 'w \<times> trace \<Rightarrow> broker \<times> 'w \<times> trace \<Rightarrow> bool" where
  "token_step s s' \<longleftrightarrow> sent token_methods s s' \<and> bk_attrs (fst s') = bk_attrs (fst s) \<and> bk_items (fst s') = bk_items (fst s)"

interpretation tok: kept token_step
  by unfold_locales (auto simp: token_step_def intro: sent.r_refl sent.r_trans)

lemma get_token_seq:
  "get_token rpc program caller override =
     bnd (plain (token_owner rpc)) (\<lambda>o1.
       case py_in program (owner_of o1) of
         Inl e \<Rightarrow> fail e
       | Inr mine \<Rightarrow>
           (let forceful = mine \<or> owner_of o1 \<noteq> PStr [] \<and> override;
                kind = (if forceful then ''_token_force_acquire'' else ''_token_acquire'');
                tags = (''tokenOwner 1'', o1) # (if mine \<or> owner_of o1 = PStr [] then [] else [(''acquire_type'', PStr kind)])
            in bnd (ask_token rpc (program @ ''.'' @ caller) forceful)
                 (\<lambda>r. finish_token rpc (tags @ [(kind, r), (''acquire_result'', r)]) r)))"
  by (simp add: fun_eq_iff get_token_def bnd_def plain_def fail_def Let_def split: prod.split sum.split)

lemma checked_call_token: "m \<in> token_methods \<Longrightarrow> token_step (b, w, l) (snd (checked_call (traced rpc) m t p (b, w, l)))"
  by (auto simp: token_step_def checked_call_traced sent_def)

lemma token_ops:
  "keeps token_step (plain (token_owner (traced rpc)))" "keeps token_step (ask_token (traced rpc) name f)"
  "keeps token_step (finish_token (traced rpc) answers r)"
proof -
  have o: "token_step (b, w, l) (snd (token_owner (traced rpc) (b, w, l)))" for b w l
    unfolding token_owner_def by (rule checked_call_token) (simp add: token_methods_def)
  then show "keeps token_step (plain (token_owner (traced rpc)))"
    by (auto simp: keeps_def plain_def split: prod.split) (metis snd_conv)
  have a: "token_step (b, w, l) (snd (ask_token (traced rpc) name f (b, w, l)))" for b w l
    using checked_call_token[of "''tokenForceAcquire''" b w l rpc None "Some (PDict [(''name'', PStr name)])"]
      checked_call_token[of "''tokenAcquire''" b w l rpc None "Some (PDict [(''name'', PStr name)])"]
    by (auto simp: ask_token_def token_force_acquire_def token_acquire_def token_methods_def token_step_def sent_def
        checked_call_traced split: option.split pyval.split)
  then show "keeps token_step (ask_token (traced rpc) name f)" by (auto simp: keeps_def)
  have f: "token_step (b, w, l) (snd (finish_token (traced rpc) answers r (b, w, l)))" for b w l
  proof (cases "is_ok r")
    case True
    then show ?thesis using o[of b w l] by (auto simp: finish_token_def split: prod.split)
  next
    case False
    then show ?thesis using tok.r_refl[of "(b, w, l)"] by (auto simp: finish_token_def split: option.split pyval.split)
  qed
  then show "keeps token_step (finish_token (traced rpc) answers r)" by (auto simp: keeps_def)
qed

lemma get_token_step: "keeps token_step (get_token (traced rpc) program caller override)"
  unfolding get_token_seq Let_def
  by (intro tok.k_bnd token_ops, split sum.split) (auto intro!: tok.k_fail tok.k_bnd token_ops)

end
