(* ===== verification/Sonde.thy ===== *)
theory Sonde
  imports Trace
begin

text \<open>
  The client of the sonde, class \<open>SondeBroker\<close> of src/python/avp_broker.py: sampling and logging,
  the test whether the sonde is in the water, and the calibration of the pressure. The texts of
  messages are abbreviated; waiting is the list of instants at which a waiting loop runs.
\<close>

section \<open>Parts of a method\<close>

definition ask :: "'w rpc_fun \<Rightarrow> string \<Rightarrow> int option \<Rightarrow> pyval option \<Rightarrow> (broker \<times> 'w, pyval) act" where
  "ask rpc m tmo params = plain (checked_call rpc m tmo params)"

text \<open>A method of a client that is not initialised returns \<open>x\<close>.\<close>

definition if_ready :: "'a \<Rightarrow> (broker \<times> 'w, 'a) act \<Rightarrow> (broker \<times> 'w, 'a) act" where
  "if_ready x m bw = (if bk_initialized (fst bw) then m bw else (Inr x, bw))"

text \<open>The attribute \<open>subscribed\<close> of an item: None for one that cannot be read.\<close>

definition get_sub :: "string \<Rightarrow> (broker \<times> 'w, bool option) act" where
  "get_sub n bw =
     (case item_of (fst bw) n of
        Inl e \<Rightarrow> (Inl e, bw)
      | Inr i \<Rightarrow> (Inr (if di_type i \<in> set read_classes then Some (di_subscribed i) else None), bw))"

definition py_ge :: "pyval \<Rightarrow> rat \<Rightarrow> bool res" where
  "py_ge v q = (case num_of v of None \<Rightarrow> Inl TypeError | Some x \<Rightarrow> Inr (q \<le> x))"

text \<open>\<open>v * 1000\<close>: text and lists are repeated.\<close>

fun mul1000 :: "pyval \<Rightarrow> pyval res" where
  "mul1000 (PInt i) = Inr (PInt (i * 1000))"
| "mul1000 (PFloat q) = Inr (PFloat (q * 1000))"
| "mul1000 (PBool b) = Inr (PInt (if b then 1000 else 0))"
| "mul1000 (PStr s) = Inr (PStr (concat (replicate 1000 s)))"
| "mul1000 (PList xs) = Inr (PList (concat (replicate 1000 xs)))"
| "mul1000 _ = Inl TypeError"

section \<open>Sampling and logging\<close>

record sonde_cfg =
  sc_sample_timeout :: int
  sc_wipe_timeout :: int
  sc_inwater_cond :: rat
  sc_inwater_depth :: rat
  sc_pressure_error :: rat

definition default_sonde :: sonde_cfg where
  "default_sonde = \<lparr>sc_sample_timeout = 40, sc_wipe_timeout = 120, sc_inwater_cond = 3, sc_inwater_depth = 1 / 100,
     sc_pressure_error = 4 / 1000\<rparr>"

text \<open>\<open>wipe\<close> refuses, with 0, unless the sampling state equals False; the refusal reads it again.\<close>

definition wipe :: "'w rpc_fun \<Rightarrow> sonde_cfg \<Rightarrow> instant \<Rightarrow> (broker \<times> 'w, pyval) act" where
  "wipe rpc cfg now =
     if_ready (PDict []) (bnd (value_getter rpc now ''sampling'') (\<lambda>v.
       if \<not> eq_num v 0 then bnd (value_getter rpc now ''sampling'') (\<lambda>_. ret (PInt 0))
       else ask rpc ''wipe'' (Some (sc_wipe_timeout cfg)) None))"

definition cal_press :: "'w rpc_fun \<Rightarrow> int option \<Rightarrow> (broker \<times> 'w, pyval) act" where
  "cal_press rpc tmo = if_ready (PDict []) (ask rpc ''calibratePressure'' tmo None)"

definition start_sampling :: "'w rpc_fun \<Rightarrow> sonde_cfg \<Rightarrow> (broker \<times> 'w, pyval) act" where
  "start_sampling rpc cfg = if_ready (PDict []) (ask rpc ''start_sampling'' (Some (sc_sample_timeout cfg)) None)"

definition stop_logging :: "'w rpc_fun \<Rightarrow> int option \<Rightarrow> (broker \<times> 'w, pyval) act" where
  "stop_logging rpc tmo = if_ready (PDict []) (ask rpc ''stop_logging'' tmo None)"

definition on_change :: sub_opts where
  "on_change = \<lparr>su_on_change = True, su_min = None, su_max = None, su_verbose = False\<rparr>"

text \<open>\<open>is_logging\<close> looks at the subscription of \<open>sampling\<close>, then subscribes to \<open>logging\<close>.\<close>

definition is_logging :: "'w rpc_fun \<Rightarrow> instant \<Rightarrow> int option \<Rightarrow> (broker \<times> 'w, pyval) act" where
  "is_logging rpc now tmo =
     if_ready (PDict []) (bnd (get_sub ''sampling'') (\<lambda>sub.
       bnd (if sub = Some True then ret True
            else bnd (add_subscriptions rpc [''logging''] on_change tmo) (\<lambda>_.
                 catching (bnd (get_value rpc [''logging''] False None) (\<lambda>_. ret True)) (\<lambda>e. ret False))) (\<lambda>known.
       if known then value_getter rpc now ''logging'' else ret (PInt 0))))"

definition stop_sampling :: "'w rpc_fun \<Rightarrow> instant \<Rightarrow> int option \<Rightarrow> (broker \<times> 'w, pyval) act" where
  "stop_sampling rpc now tmo =
     if_ready (PDict []) (bnd (is_logging rpc now tmo) (\<lambda>g.
       bnd (only_if (truthy g) (stop_logging rpc tmo) PNone) (\<lambda>_. ask rpc ''stop_sampling'' tmo None)))"

definition start_logging :: "'w rpc_fun \<Rightarrow> sonde_cfg \<Rightarrow> instant \<Rightarrow> pyval \<Rightarrow> int option \<Rightarrow> (broker \<times> 'w, pyval) act" where
  "start_logging rpc cfg now cast tmo =
     if_ready (PDict []) (bnd (value_getter rpc now ''sampling'') (\<lambda>v.
       bnd (only_if (\<not> eq_num v 1) (start_sampling rpc cfg) PNone) (\<lambda>_.
       ask rpc ''start_logging'' tmo (Some (PDict [(''cast_number'', cast)])))))"

section \<open>In the water\<close>

text \<open>Python's \<open>and\<close> and \<open>or\<close> on True, False and None.\<close>

fun py_and :: "bool option \<Rightarrow> bool option \<Rightarrow> bool option" where
  "py_and (Some True) y = y"
| "py_and x y = x"

fun py_or :: "bool option \<Rightarrow> bool option \<Rightarrow> bool option" where
  "py_or (Some True) y = Some True"
| "py_or x y = y"

definition decide :: "string \<Rightarrow> bool option \<Rightarrow> bool option \<Rightarrow> bool option" where
  "decide instrument depth spcond =
     (if instrument = ''all'' then py_and depth spcond
      else if instrument = ''any'' then py_or depth spcond
      else if instrument = ''depth_m'' then depth
      else if instrument = ''spcond_mScm'' \<or> instrument = ''spcond_uScm'' then spcond
      else None)"

definition water_instruments :: "string list" where
  "water_instruments = [''any'', ''all'', ''spcond_mScm'', ''spcond_uScm'', ''depth_m'']"

text \<open>An item that is not subscribed is asked for before its value is read.\<close>

definition fresh :: "'w rpc_fun \<Rightarrow> string \<Rightarrow> (broker \<times> 'w, pyval) act" where
  "fresh rpc n = bnd (get_sub n) (\<lambda>s. only_if (s = Some False) (get_value rpc [n] False None) PNone)"

definition has_item :: "string \<Rightarrow> (broker \<times> 'w, bool) act" where
  "has_item n = peek (\<lambda>bw. has_attr (fst bw) n)"

text \<open>
  The conductivity: either unit, the one in uS/cm multiplied by 1000. A TypeError ends the
  search and what has been found until then counts.
\<close>

definition conductivity :: "'w rpc_fun \<Rightarrow> instant \<Rightarrow> (broker \<times> 'w, pyval) act" where
  "conductivity rpc now =
     bnd (has_item ''spcond_mScm'') (\<lambda>m.
     bnd (catching (only_if m (bnd (fresh rpc ''spcond_mScm'') (\<lambda>_. bnd (value_getter rpc now ''spcond_mScm'') (\<lambda>v. ret (Some v)))) (Some PNone))
           (\<lambda>e. if e = TypeError then ret None else fail e)) (\<lambda>r.
     case r of
       None \<Rightarrow> ret PNone
     | Some c \<Rightarrow>
         bnd (has_item ''spcond_uScm'') (\<lambda>u.
         catching (only_if u (bnd (fresh rpc ''spcond_uScm'') (\<lambda>_. bnd (value_getter rpc now ''spcond_uScm'') (\<lambda>v. of_res (mul1000 v)))) c)
           (\<lambda>e. if e = TypeError then ret c else fail e))))"

definition above :: "pyval \<Rightarrow> rat \<Rightarrow> (broker \<times> 'w, bool option) act" where
  "above v q = (if v = PNone then ret None else bnd (of_res (py_ge v q)) (\<lambda>g. ret (Some g)))"

text \<open>The depth is read for the test against None, for the comparison and for the message.\<close>

definition depth_in_water :: "'w rpc_fun \<Rightarrow> instant \<Rightarrow> rat \<Rightarrow> (broker \<times> 'w, bool option) act" where
  "depth_in_water rpc now limit =
     bnd (value_getter rpc now ''depth_m'') (\<lambda>d1.
     if d1 = PNone then ret None
     else bnd (value_getter rpc now ''depth_m'') (\<lambda>d2. bnd (of_res (py_ge d2 limit)) (\<lambda>g.
          bnd (value_getter rpc now ''depth_m'') (\<lambda>_. ret (Some g)))))"

text \<open>\<open>in_water\<close>, the first element of the result. \<open>err\<close> is the client's \<open>pressure_error\<close>.\<close>

definition in_water :: "'w rpc_fun \<Rightarrow> sonde_cfg \<Rightarrow> instant \<Rightarrow> rat \<Rightarrow> string \<Rightarrow> (broker \<times> 'w, bool option) act" where
  "in_water rpc cfg now err instrument =
     if_ready None (if instrument \<notin> set water_instruments then ret None
       else bnd (value_getter rpc now ''sampling'') (\<lambda>s.
            bnd (only_if (s \<noteq> PBool True) (start_sampling rpc cfg) PNone) (\<lambda>_.
            bnd (conductivity rpc now) (\<lambda>c.
            bnd (fresh rpc ''depth_m'') (\<lambda>_.
            bnd (above c (sc_inwater_cond cfg)) (\<lambda>spc.
            bnd (depth_in_water rpc now (sc_inwater_depth cfg + err)) (\<lambda>dep.
            ret (decide instrument dep spc))))))))"

section \<open>Calibration\<close>

text \<open>The instants of the passes of the second waiting loop, each of which reads the depth.\<close>

record cal_times =
  ct_start :: instant
  ct_polls :: "instant list"
  ct_end :: instant

fun watch_depth :: "'w rpc_fun \<Rightarrow> instant list \<Rightarrow> (broker \<times> 'w, unit) act" where
  "watch_depth rpc [] = ret ()"
| "watch_depth rpc (t # ts) = bnd (value_getter rpc t ''depth_m'') (\<lambda>_. watch_depth rpc ts)"

definition water_value :: "bool option \<Rightarrow> pyval" where
  "water_value t = PList [case t of None \<Rightarrow> PNone | Some b \<Rightarrow> PBool b, PStr ''message'']"

text \<open>The state is the client's \<open>pressure_error\<close> and the client; methods of the client leave it.\<close>

definition on_client :: "(broker \<times> 'w, 'a) act \<Rightarrow> (rat \<times> broker \<times> 'w, 'a) act" where
  "on_client m s = (case m (snd s) of (r, bw) \<Rightarrow> (r, fst s, bw))"

text \<open>The check of the new depth: its absolute value against the limit.\<close>

definition depth_ok :: "'w rpc_fun \<Rightarrow> sonde_cfg \<Rightarrow> instant \<Rightarrow> (broker \<times> 'w, bool) act" where
  "depth_ok rpc cfg now =
     bnd (get_value rpc [''depth_m''] False None) (\<lambda>_. bnd (value_getter rpc now ''depth_m'') (\<lambda>d.
     case num_of d of None \<Rightarrow> fail TypeError
     | Some x \<Rightarrow> bnd (value_getter rpc now ''depth_m'') (\<lambda>_. ret (\<bar>x\<bar> \<le> sc_pressure_error cfg))))"

definition recalibrate :: "'w rpc_fun \<Rightarrow> sonde_cfg \<Rightarrow> cal_times \<Rightarrow> (string \<times> pyval) list \<Rightarrow> int option \<Rightarrow>
    (rat \<times> broker \<times> 'w, pyval) act" where
  "recalibrate rpc cfg ct res tmo =
     bnd (on_client (value_getter rpc (ct_start ct) ''depth_m'')) (\<lambda>_.
     bnd (on_client (value_getter rpc (ct_start ct) ''sampling'')) (\<lambda>sampling.
     bnd (on_client (value_getter rpc (ct_start ct) ''sampling'')) (\<lambda>s2.
     bnd (if eq_num s2 0 then ret res
          else bnd (on_client (stop_sampling rpc (ct_start ct) None)) (\<lambda>r. ret (dset res ''stop_sampling'' r))) (\<lambda>res1.
     bnd (on_client (cal_press rpc (Some 60))) (\<lambda>c.
     bnd (on_client (start_sampling rpc cfg)) (\<lambda>g.
     bnd (on_client (watch_depth rpc (ct_polls ct))) (\<lambda>_.
     bnd (on_client (depth_ok rpc cfg (ct_end ct))) (\<lambda>ok.
     bnd (modify (\<lambda>s. (0, snd s))) (\<lambda>_.
     let res2 = dset (dset res1 ''_cal_press'' c) ''SondeBroker.start_sampling'' g;
         res3 = (if ok then dset res2 ''result'' (PStr ''ok'')
                 else dset res2 ''error'' (PDict [(''message'', PStr ''bad calibration''), (''code'', PInt 0)]))
     in if truthy sampling then ret (PDict res3)
        else bnd (on_client (stop_sampling rpc (ct_end ct) tmo)) (\<lambda>r. ret (PDict (dset res3 ''stop_sampling'' r))))))))))))"

text \<open>
  \<open>calibrate_pressure\<close>: a sonde that seems to be in the water is not calibrated if the caller
  wants the check; the message reads the conductivity.
\<close>

definition calibrate_pressure :: "'w rpc_fun \<Rightarrow> sonde_cfg \<Rightarrow> cal_times \<Rightarrow> bool \<Rightarrow> int option \<Rightarrow>
    (rat \<times> broker \<times> 'w, pyval) act" where
  "calibrate_pressure rpc cfg ct check tmo s =
     (if \<not> bk_initialized (fst (snd s)) then (Inr (PDict []), s)
      else bnd (on_client (in_water rpc cfg (ct_start ct) (fst s) ''spcond_mScm'')) (\<lambda>wet.
           let res = [(''in_water'', water_value wet)]
           in bnd (on_client (only_if (wet = Some True) (value_getter rpc (ct_start ct) ''spcond_mScm'') PNone)) (\<lambda>_.
              if wet = Some True \<and> check then ret (PDict (dset res ''error'' (PStr ''may be in water'')))
              else recalibrate rpc cfg ct res tmo)) s)"

section \<open>Lemmas\<close>

lemma ask_sends [calls_intros]: "m \<in> M \<Longrightarrow> keeps (sent M) (ask (traced rpc) m t p)"
  unfolding ask_def by (rule checked_call_sends)

lemma if_ready_sends [calls_intros]: "keeps (sent M) m \<Longrightarrow> keeps (sent M) (if_ready x m)"
  by (auto simp: keeps_def if_ready_def sent.r_refl)

lemma get_sub_sends [calls_intros]: "keeps (sent M) (get_sub n)"
  by (simp add: keeps_def get_sub_def sent.r_refl split: sum.split)

lemma has_item_sends [calls_intros]: "keeps (sent M) (has_item n)"
  unfolding has_item_def by (rule sent.k_peek)

lemma fresh_sends [calls_intros]: "''status'' \<in> M \<Longrightarrow> keeps (sent M) (fresh (traced rpc) n)"
  unfolding fresh_def by (intro calls_intros)

lemma in_water_sends:
  "keeps (sent {''status'', ''start_sampling''}) (in_water (traced rpc) cfg now err instrument)"
  unfolding in_water_def conductivity_def above_def depth_in_water_def start_sampling_def
  by (intro calls_intros) simp_all

text \<open>An item that is subscribed and current is read without a call.\<close>

definition current :: "broker \<Rightarrow> instant \<Rightarrow> string \<Rightarrow> pyval \<Rightarrow> bool" where
  "current b now n v \<longleftrightarrow> dget (bk_attrs b) n = Some (AItem n) \<and>
     (case dget (bk_items b) n of None \<Rightarrow> False
      | Some i \<Rightarrow> di_type i \<in> set read_classes \<and> di_subscribed i \<and> di_value i = v \<and>
          (case di_sample i of None \<Rightarrow> False | Some t \<Rightarrow> now - bk_stale b \<le> t))"

lemma current_read: "current b now n v \<Longrightarrow> value_getter rpc now n (b, w) = (Inr v, b, w)"
  by (auto simp: current_def value_getter_def Let_def split: option.splits)

lemma current_fresh: "current b now n v \<Longrightarrow> fresh rpc n (b, w) = (Inr PNone, b, w)"
  by (auto simp: current_def fresh_def get_sub_def item_of_def bnd_def ret_def split: option.splits)

lemma current_has: "current b now n v \<Longrightarrow> has_attr b n"
  by (simp add: current_def has_attr_def dhas_def dget_def)

section \<open>Properties\<close>

text \<open>
  C14. While the values are subscribed and current, the test sends nothing and its answer is the
  comparison of the readings with the two limits, combined as the caller asks. The factor of the
  conductivity is 1 in mS/cm and 1000 in uS/cm, where one uS/cm is a thousandth of one mS/cm: in
  that unit the limit is reached a million times too early.
\<close>

theorem in_water_decision:
  assumes "bk_initialized b" "instrument \<in> set water_instruments"
    and "current b now ''sampling'' (PBool True)" "current b now ''depth_m'' (PFloat d)" "current b now unit (PFloat c)"
    and "unit = ''spcond_mScm'' \<and> k = 1 \<and> \<not> has_attr b ''spcond_uScm'' \<or> unit = ''spcond_uScm'' \<and> k = 1000 \<and> \<not> has_attr b ''spcond_mScm''"
  shows "in_water rpc cfg now err instrument (b, w) =
    (Inr (decide instrument (Some (sc_inwater_depth cfg + err \<le> d)) (Some (sc_inwater_cond cfg \<le> k * c))), b, w)"
proof -
  have c: "conductivity rpc now (b, w) = (Inr (PFloat (k * c)), b, w)"
    using assms(6) current_has[OF assms(5)] current_read[OF assms(5), of rpc w] current_fresh[OF assms(5), of rpc w]
    by (elim disjE conjE) (simp_all add: conductivity_def has_item_def peek_def bnd_def catching_def ret_def of_res_def only_if_def)
  show ?thesis
    using assms(1,2) current_read[OF assms(3), of rpc w] current_read[OF assms(4), of rpc w] current_fresh[OF assms(4), of rpc w]
    by (simp add: in_water_def if_ready_def bnd_def ret_def only_if_def c above_def depth_in_water_def of_res_def py_ge_def)
qed


section \<open>Witnesses\<close>

definition demo_reading :: "string \<Rightarrow> pyval \<Rightarrow> data_item" where
  "demo_reading n v = (demo_item n ''RO'' PNone)\<lparr>di_subscribed := True, di_value := v\<rparr>"

definition demo_sonde :: "string \<Rightarrow> rat \<Rightarrow> broker" where
  "demo_sonde unit c = demo_broker\<lparr>bk_name := ''sonde'',
     bk_attrs := map (\<lambda>n. (n, AItem n)) [''sampling'', ''depth_m'', unit],
     bk_items := [(''sampling'', demo_reading ''sampling'' (PBool True)), (''depth_m'', demo_reading ''depth_m'' (PFloat 0)),
                  (unit, demo_reading unit (PFloat c))]\<rparr>"

lemma demo_sonde_reads:
  "bk_initialized (demo_sonde u c)"
  "current (demo_sonde ''spcond_uScm'' (1/200)) 0 ''sampling'' (PBool True)"
  "current (demo_sonde ''spcond_uScm'' (1/200)) 0 ''depth_m'' (PFloat 0)"
  "current (demo_sonde ''spcond_uScm'' (1/200)) 0 ''spcond_uScm'' (PFloat (1/200))"
  "\<not> has_attr (demo_sonde ''spcond_uScm'' (1/200)) ''spcond_mScm''"
  by (simp add: demo_sonde_def demo_broker_def) code_simp+

theorem in_water_decision_witness:
  "in_water script_rpc default_sonde 0 0 ''any'' (demo_sonde ''spcond_uScm'' (1/200), []) =
     (Inr (Some True), demo_sonde ''spcond_uScm'' (1/200), [])"
proof -
  have "''any'' \<in> set water_instruments" by (simp add: water_instruments_def)
  note in_water_decision[OF demo_sonde_reads(1) this demo_sonde_reads(2-4), of 1000 script_rpc default_sonde 0 "[]"]
  then show ?thesis using demo_sonde_reads(5) by (simp add: decide_def default_sonde_def)
qed

lemma demo_wet:
  "\<exists>s1. in_water (traced script_rpc) default_sonde 0 0 ''spcond_mScm'' (demo_sonde ''spcond_mScm'' 5, [], []) = (Inr (Some True), s1)"
proof -
  have "fst (in_water (traced script_rpc) default_sonde 0 0 ''spcond_mScm'' (demo_sonde ''spcond_mScm'' 5, [], [])) = Inr (Some True)"
    by code_simp
  then show ?thesis by (metis prod.collapse)
qed


end
