(* ===== verification/Samplers.thy ===== *)
theory Samplers
  imports Sonde
begin

text \<open>
  The clients of the water sampler, the particle sizer and the anemometer: \<open>IscoBroker\<close>,
  \<open>LisstBroker\<close> and \<open>WindBroker\<close> of src/python/avp_broker.py. A pause between two steps of a
  method has no effect of its own and is left out.
\<close>

section \<open>The water sampler\<close>

definition isco_status :: "(int \<times> string) list" where
  "isco_status = [(1, ''WAITING TO SAMPLE''), (4, ''POWER FAILED''), (5, ''PUMP JAMMED''), (6, ''DISTRIBUTOR JAMMED''),
     (9, ''SAMPLER OFF''), (12, ''SAMPLE IN PROGRESS''), (20, ''INVALID COMMAND''), (21, ''CHECKSUM MISMATCH''),
     (22, ''INVALID BOTTLE''), (23, ''VOLUME OUT OF RANGE'')]"

definition sample_status :: "(int \<times> string) list" where
  "sample_status = [(0, ''SAMPLE OK''), (1, ''NO LIQUID FOUND''), (2, ''LIQUID LOST''), (3, ''USER STOPPED''),
     (4, ''POWER FAILED''), (5, ''PUMP JAMMED''), (6, ''DISTRIBUTOR JAMMED''), (8, ''PUMP LATCH OPEN''),
     (9, ''SAMPLER SHUT OFF''), (11, ''NO DISTRIBUTOR''), (12, ''SAMPLE IN PROGRESS'')]"

definition take_sample :: "'w rpc_fun \<Rightarrow> pyval \<Rightarrow> int \<Rightarrow> pyval \<Rightarrow> pyval \<Rightarrow> int option \<Rightarrow> (broker \<times> 'w, pyval) act" where
  "take_sample rpc bottle volume cast depth tmo =
     if_ready (PDict []) (ask rpc ''take_sample'' tmo (Some (PDict [(''bottle_num'', bottle),
       (''sample_volume'', PInt volume), (''cast_number'', cast), (''sample_depth'', depth)])))"

definition sampler_on :: "'w rpc_fun \<Rightarrow> int option \<Rightarrow> (broker \<times> 'w, pyval) act" where
  "sampler_on rpc tmo = if_ready (PDict []) (ask rpc ''sampler_on'' tmo None)"

text \<open>
  The text of a status: a number that equals a key (booleans and floats compare like numbers); a
  list or dictionary cannot be looked up. Without a number the item is read, for both tables
  the item \<open>sample_status\<close>.
\<close>

definition lookup_status :: "(int \<times> string) list \<Rightarrow> pyval \<Rightarrow> pyval res" where
  "lookup_status table v =
     (if \<not> hashable v then Inl TypeError
      else Inr (case find (\<lambda>(k, t). eq_num v (of_int k)) table of
                  Some (k, t) \<Rightarrow> PStr t | None \<Rightarrow> PStr ''unknown status''))"

definition get_status :: "(int \<times> string) list \<Rightarrow> 'w rpc_fun \<Rightarrow> instant \<Rightarrow> pyval \<Rightarrow> (broker \<times> 'w, pyval) act" where
  "get_status table rpc now num =
     if_ready (PDict []) (bnd (if num = PNone then value_getter rpc now ''sample_status'' else ret num)
       (\<lambda>v. of_res (lookup_status table v)))"

definition get_sample_status :: "'w rpc_fun \<Rightarrow> instant \<Rightarrow> pyval \<Rightarrow> (broker \<times> 'w, pyval) act" where
  "get_sample_status = get_status sample_status"

definition get_isco_status :: "'w rpc_fun \<Rightarrow> instant \<Rightarrow> pyval \<Rightarrow> (broker \<times> 'w, pyval) act" where
  "get_isco_status = get_status isco_status"

section \<open>The particle sizer\<close>

record lisst_cfg =
  lc_flush_time :: rat
  lc_max_flush :: rat
  lc_file_timeout :: int
  lc_program :: string

definition default_lisst :: lisst_cfg where
  "default_lisst = \<lparr>lc_flush_time = 5, lc_max_flush = 60, lc_file_timeout = 20, lc_program = ''avp_broker''\<rparr>"

definition get_file :: "'w rpc_fun \<Rightarrow> lisst_cfg \<Rightarrow> string option \<Rightarrow> (broker \<times> 'w, pyval) act" where
  "get_file rpc cfg file =
     if_ready (PDict []) (ask rpc ''get_file'' (Some (lc_file_timeout cfg))
       (map_option (\<lambda>f. PDict [(''lisst_file'', PStr f)]) file))"

definition delete_file :: "'w rpc_fun \<Rightarrow> string \<Rightarrow> int option \<Rightarrow> (broker \<times> 'w, pyval) act" where
  "delete_file rpc file tmo = if_ready (PDict []) (ask rpc ''delete_file'' tmo (Some (PDict [(''lisst_file'', PStr file)])))"

definition start_collection :: "'w rpc_fun \<Rightarrow> pyval \<Rightarrow> int \<Rightarrow> int option \<Rightarrow> (broker \<times> 'w, pyval) act" where
  "start_collection rpc cast pump_delay tmo =
     if_ready (PDict []) (ask rpc ''start_collection'' tmo (Some (PDict [(''cast_number'', cast), (''pump_delay'', PInt pump_delay)])))"

definition stop_collection :: "'w rpc_fun \<Rightarrow> int option \<Rightarrow> (broker \<times> 'w, pyval) act" where
  "stop_collection rpc tmo = if_ready (PDict []) (ask rpc ''stop_collection'' tmo None)"

text \<open>A truth value read from the broker; an answer that is no dictionary has no \<open>get\<close>.\<close>

definition read_flag :: "'w rpc_fun \<Rightarrow> string \<Rightarrow> (broker \<times> 'w, bool option) act" where
  "read_flag rpc n =
     bnd (get_value rpc [n] False None) (\<lambda>r.
       if is_dict r then ret (t_or_f (pget_or r n (PBool False))) else fail AttributeError)"

definition is_pumping :: "'w rpc_fun \<Rightarrow> (broker \<times> 'w, bool option) act" where
  "is_pumping rpc = read_flag rpc ''seawater_pump''"

definition is_flushing :: "'w rpc_fun \<Rightarrow> (broker \<times> 'w, bool option) act" where
  "is_flushing rpc = read_flag rpc ''clean_water_flush''"

definition start_pump :: "'w rpc_fun \<Rightarrow> instant \<Rightarrow> int option \<Rightarrow> (broker \<times> 'w, pyval) act" where
  "start_pump rpc now tmo = set_params rpc now [(''seawater_pump'', PBool True)] False tmo"

definition stop_pump :: "'w rpc_fun \<Rightarrow> instant \<Rightarrow> int option \<Rightarrow> (broker \<times> 'w, pyval) act" where
  "stop_pump rpc now tmo = set_params rpc now [(''seawater_pump'', PBool False)] False tmo"

definition flush_on :: "'w rpc_fun \<Rightarrow> instant \<Rightarrow> (broker \<times> 'w, pyval) act" where
  "flush_on rpc now = set_params rpc now [(''clean_water_flush'', PBool True)] False None"

text \<open>
  \<open>_flush_off\<close>: a token error has code -31929; then the token is taken and the valve is closed
  again. An error that is no dictionary has no \<open>get\<close>.
\<close>

definition flush_off :: "'w rpc_fun \<Rightarrow> lisst_cfg \<Rightarrow> instant \<Rightarrow> (broker \<times> 'w, pyval) act" where
  "flush_off rpc cfg now =
     (let close = set_params rpc now [(''clean_water_flush'', PBool False)] False None
      in bnd close (\<lambda>r.
           case pget_or r ''error'' (PDict []) of
             PDict e \<Rightarrow>
               (if eq_num (dget_or e ''code'' (PBool False)) (- 31929)
                then bnd (get_token rpc (lc_program cfg) ''LisstBroker'' True) (\<lambda>_. close)
                else ret r)
           | _ \<Rightarrow> fail AttributeError))"

text \<open>\<open>_do_flush\<close>; started as a thread it returns None.\<close>

definition do_flush :: "'w rpc_fun \<Rightarrow> lisst_cfg \<Rightarrow> instant \<Rightarrow> rat option \<Rightarrow> bool \<Rightarrow> (broker \<times> 'w, pyval) act" where
  "do_flush rpc cfg now flush_time thread =
     (let t = (case flush_time of None \<Rightarrow> lc_flush_time cfg | Some t \<Rightarrow> t)
      in if t > lc_max_flush cfg then ret (PDict [(''error'', PStr ''> MAX_FLUSH_TIME'')])
         else bnd (flush_on rpc now) (\<lambda>r1. bnd (flush_off rpc cfg now) (\<lambda>r2.
              ret (if thread then PNone else PDict [(''flush_on'', r1), (''flush_off'', r2)]))))"

text \<open>
  \<open>flush\<close>: the time of a blocking call is passed on; a thread gets it under the name
  \<open>FLUSH_TIME\<close>, which \<open>_do_flush\<close> does not know and ignores. The second component is the
  operation that is started.
\<close>

definition flush_valve :: "'w rpc_fun \<Rightarrow> lisst_cfg \<Rightarrow> instant \<Rightarrow> bool \<Rightarrow> rat option \<Rightarrow>
    (broker \<times> 'w, pyval \<times> (broker \<times> 'w, pyval) act option) act" where
  "flush_valve rpc cfg now blocking flush_time =
     (let t = (case flush_time of None \<Rightarrow> lc_flush_time cfg | Some t \<Rightarrow> t)
      in if blocking then bnd (do_flush rpc cfg now (Some t) False) (\<lambda>r. ret (r, None))
         else ret (PDict [(''result'', PStr ''ok'')], Some (do_flush rpc cfg now None True)))"

definition zero_sample :: "'w rpc_fun \<Rightarrow> lisst_cfg \<Rightarrow> instant \<Rightarrow> pyval \<Rightarrow> (broker \<times> 'w, pyval) act" where
  "zero_sample rpc cfg now cast =
     bnd (flush_valve rpc cfg now True (Some (lc_flush_time cfg))) (\<lambda>f.
     bnd (start_collection rpc cast 0 None) (\<lambda>a.
     bnd (stop_collection rpc None) (\<lambda>z.
     ret (PDict [(''flush'', fst f), (''start_collection'', a), (''stop_collection'', z)]))))"

section \<open>The anemometer\<close>

definition wind_start :: "'w rpc_fun \<Rightarrow> int option \<Rightarrow> (broker \<times> 'w, pyval) act" where
  "wind_start rpc tmo = if_ready (PDict []) (ask rpc ''startCollection'' tmo None)"

definition wind_stop :: "'w rpc_fun \<Rightarrow> int option \<Rightarrow> (broker \<times> 'w, pyval) act" where
  "wind_stop rpc tmo = if_ready (PDict []) (ask rpc ''stopCollection'' tmo None)"

section \<open>Lemmas\<close>

text \<open>The writes to the valve, by a client that may write it.\<close>

definition valve_set :: "bool \<Rightarrow> string \<times> pyval option" where
  "valve_set v = set_of [(''clean_water_flush'', PBool v)]"

lemma set_valve:
  assumes "writable b ''clean_water_flush''"
  shows "\<exists>r b' w'. set_params (traced rpc) now [(''clean_water_flush'', PBool v)] False None (b, w, l) =
    (Inr r, b', w', l @ [valve_set v]) \<and> writable b' ''clean_water_flush'' \<and> is_dict r"
  using set_traced[of "[(''clean_water_flush'', PBool v)]" b rpc now None w l] assms
  by (fastforce simp: valve_set_def same_client_def)

definition writes :: "trace \<Rightarrow> trace" where
  "writes l = filter (\<lambda>c. fst c = ''set'') l"

lemma writes_simps [simp]:
  "writes (l @ l') = writes l @ writes l'" "writes (valve_set v # l) = valve_set v # writes l" "writes [] = []"
  by (simp_all add: writes_def valve_set_def set_of_def)

lemma token_no_writes: "fst ` set l \<subseteq> token_methods \<Longrightarrow> writes l = []"
  by (auto simp: writes_def token_methods_def filter_empty_conv)

lemma flush_off_writes:
  assumes "writable b ''clean_water_flush''"
  shows "\<exists>rest n. snd (snd (snd (flush_off (traced rpc) cfg now (b, w, l)))) = l @ rest \<and>
    writes rest = replicate (Suc n) (valve_set False) \<and> n \<le> 1"
proof -
  let ?set = "set_params (traced rpc) now [(''clean_water_flush'', PBool False)] False None"
  obtain r b1 w1 where s: "?set (b, w, l) = (Inr r, b1, w1, l @ [valve_set False])" "writable b1 ''clean_water_flush''"
    using set_valve[OF assms, of rpc now False w l] by blast
  have once: "snd (snd (snd (flush_off (traced rpc) cfg now (b, w, l)))) = l @ [valve_set False] \<Longrightarrow> ?thesis"
    by (intro exI[of _ "[valve_set False]"] exI[of _ 0]) simp
  show ?thesis
  proof (cases "\<exists>e. pget_or r ''error'' (PDict []) = PDict e \<and> eq_num (dget_or e ''code'' (PBool False)) (- 31929)")
    case False
    then show ?thesis
      using s(1) by (intro once) (auto simp: flush_off_def Let_def bnd_def fail_def ret_def split: pyval.split)
  next
    case True
    let ?tok = "get_token (traced rpc) (lc_program cfg) ''LisstBroker'' True"
    have off: "flush_off (traced rpc) cfg now (b, w, l) = bnd ?tok (\<lambda>_. ?set) (b1, w1, l @ [valve_set False])"
      using True s(1) by (auto simp: flush_off_def Let_def bnd_run)
    obtain x b2 w2 l2 where t: "?tok (b1, w1, l @ [valve_set False]) = (x, b2, w2, l2)" by (metis prod.exhaust)
    have step: "token_step (b1, w1, l @ [valve_set False]) (b2, w2, l2)" by (rule keepsD[OF get_token_step t])
    then obtain rest where rest: "l2 = l @ [valve_set False] @ rest" "writes rest = []"
      by (auto simp: token_step_def sent_def token_no_writes)
    have b2: "writable b2 ''clean_water_flush''" using step s(2) by (simp add: token_step_def writable_def)
    show ?thesis
    proof (cases x)
      case (Inl e)
      then show ?thesis using off t rest by (intro exI[of _ "[valve_set False] @ rest"] exI[of _ 0]) (simp add: bnd_def)
    next
      case (Inr y)
      obtain r3 b3 w3 where "?set (b2, w2, l2) = (Inr r3, b3, w3, l2 @ [valve_set False])"
        using set_valve[OF b2, of rpc now False w2 l2] by blast
      with Inr show ?thesis using off t rest
        by (intro exI[of _ "[valve_set False] @ rest @ [valve_set False]"] exI[of _ 1]) (simp add: bnd_def)
    qed
  qed
qed

section \<open>Properties\<close>


definition demo_lisst :: broker where
  "demo_lisst = demo_broker\<lparr>bk_name := ''lisst'', bk_attrs := [(''clean_water_flush'', AItem ''clean_water_flush'')],
     bk_items := [(''clean_water_flush'', demo_item ''clean_water_flush'' ''RW'' PNone)]\<rparr>"


end
