(* ===== verification/Monitor.thy ===== *)
theory Monitor
  imports Calendar
begin

text \<open>
  The loop that watches a move of the winch, \<open>Winch.monitor_move\<close> of src/python/avp_winch.py. One
  pass is a function of the loop's state and of what the pass reads; the loop runs over a list of
  passes, None standing for a loop that has not ended with them. The text that describes the stop
  is left out, the code of the stop is kept.
\<close>

section \<open>Options, readings, state\<close>

record mon_opts =
  mo_max_stopped :: timespan
  mo_stop_name :: string
  mo_max_zero_v :: timespan
  mo_limit_stop :: bool
  mo_neg_max :: timespan
  mo_pos_max :: timespan
  mo_in_pos :: bool
  mo_in_pos_max :: timespan
  mo_ipc_poll :: bool

text \<open>The constants of the loop: the two of the configuration and the two positions read before it.\<close>

record mon_env =
  me_min_speed :: int
  me_position_db :: int
  me_start_pos :: "int option"
  me_desired :: "int option"

text \<open>
  What one pass reads: the clock, the truth of the stop function's result, whether the poll of the
  database reports something and the reason then selected (None when it is empty or cannot be
  read), the keyboard, the relay, the newest time stamp, whether the line of feedback can be
  printed, and the values of the controller. \<open>mi_update\<close> is the outcome of a write to the database.
\<close>

record mon_input =
  mi_now :: instant
  mi_stop :: "bool res"
  mi_poll :: bool
  mi_reason :: "string option"
  mi_key :: bool
  mi_relay_off :: bool
  mi_ts :: "instant res"
  mi_shown :: bool
  mi_in_pos :: "int option"
  mi_neg :: "int option"
  mi_pos :: "int option"
  mi_vel :: "int option"
  mi_position :: "int option"
  mi_update :: "pyexn option"

record mon_state =
  ms_code :: "string option"
  ms_same_pos :: instant
  ms_stop_time :: instant
  ms_zero_v :: instant
  ms_lim_on :: instant
  ms_in_pos_on :: instant
  ms_old_ts :: instant
  ms_iterations :: nat
  ms_stop_funct :: instant

datatype mon_out = Go mon_state | Ended string | Raised pyexn

definition week :: timespan where
  "week = 7 * 24 * 3600 * 1000000"

definition mon_start :: "instant \<Rightarrow> instant \<Rightarrow> mon_state" where
  "mon_start now long_ago =
     \<lparr>ms_code = None, ms_same_pos = now, ms_stop_time = now, ms_zero_v = now, ms_lim_on = now, ms_in_pos_on = now,
      ms_old_ts = long_ago, ms_iterations = 0, ms_stop_funct = now + 2 * week\<rparr>"

text \<open>\<open>max\<close> of the two time stamps; without a sonde the one of the controller.\<close>

definition newest_ts :: "instant option \<Rightarrow> instant option option \<Rightarrow> instant res" where
  "newest_ts mm3 sonde =
     (case sonde of
        None \<Rightarrow> (case mm3 of None \<Rightarrow> Inl TypeError | Some t \<Rightarrow> Inr t)
      | Some None \<Rightarrow> Inl TypeError
      | Some (Some s) \<Rightarrow> (case mm3 of None \<Rightarrow> Inl TypeError | Some t \<Rightarrow> Inr (max t s)))"

section \<open>Checks of new data\<close>

text \<open>\<open>x == 1\<close> holds for no missing value; comparing one with a number raises.\<close>

definition need :: "int option \<Rightarrow> int res" where
  "need v = (case v of None \<Rightarrow> Inl TypeError | Some x \<Rightarrow> Inr x)"

definition check_in_pos :: "mon_opts \<Rightarrow> mon_input \<Rightarrow> mon_state \<Rightarrow> mon_state" where
  "check_in_pos opt i st =
     (if \<not> mo_in_pos opt then st
      else if mi_in_pos i = Some 1
      then (if mi_now i - ms_in_pos_on st \<ge> mo_in_pos_max opt then st\<lparr>ms_code := Some ''in_position''\<rparr> else st)
      else st\<lparr>ms_in_pos_on := mi_now i\<rparr>)"

definition check_neg :: "mon_opts \<Rightarrow> mon_input \<Rightarrow> mon_state \<Rightarrow> mon_state res" where
  "check_neg opt i st =
     (if mi_neg i = Some 1
      then res_bind (need (mi_vel i)) (\<lambda>v.
           Inr (if v < 0 \<and> mi_now i - ms_lim_on st \<ge> mo_neg_max opt then st\<lparr>ms_code := Some ''neg_limit_switch''\<rparr> else st))
      else Inr st)"

definition check_pos :: "mon_opts \<Rightarrow> mon_input \<Rightarrow> mon_state \<Rightarrow> mon_state res" where
  "check_pos opt i st =
     (if mi_pos i = Some 1
      then res_bind (need (mi_vel i)) (\<lambda>v.
           Inr (if v > 0 \<and> mi_now i - ms_lim_on st \<ge> mo_pos_max opt then st\<lparr>ms_code := Some ''pos_limit_switch''\<rparr> else st))
      else Inr st)"

definition check_limits :: "mon_opts \<Rightarrow> mon_input \<Rightarrow> mon_state \<Rightarrow> mon_state res" where
  "check_limits opt i st =
     (if \<not> mo_limit_stop opt then Inr st
      else if mi_neg i = Some 1 \<or> mi_pos i = Some 1 then res_bind (check_neg opt i st) (check_pos opt i)
      else Inr (st\<lparr>ms_lim_on := mi_now i\<rparr>))"

definition check_velocity :: "mon_env \<Rightarrow> mon_opts \<Rightarrow> mon_input \<Rightarrow> mon_state \<Rightarrow> mon_state res" where
  "check_velocity e opt i st =
     res_bind (need (mi_vel i)) (\<lambda>v.
       Inr (if \<bar>v\<bar> > me_min_speed e then st\<lparr>ms_zero_v := mi_now i\<rparr>
            else if mi_now i > ms_zero_v st + mo_max_zero_v opt then st\<lparr>ms_code := Some ''max_zero_v''\<rparr> else st))"

text \<open>The position is compared with the one before the move, which is never brought up to date.\<close>

definition check_moved :: "mon_env \<Rightarrow> mon_opts \<Rightarrow> mon_input \<Rightarrow> mon_state \<Rightarrow> mon_state" where
  "check_moved e opt i st =
     (if me_start_pos e \<noteq> mi_position i then st\<lparr>ms_same_pos := mi_now i\<rparr>
      else if mi_now i > ms_same_pos st + mo_max_zero_v opt then st\<lparr>ms_code := Some ''max_no_pos_change''\<rparr> else st)"

definition check_arrived :: "mon_env \<Rightarrow> mon_opts \<Rightarrow> mon_input \<Rightarrow> mon_state \<Rightarrow> mon_state res" where
  "check_arrived e opt i st =
     (if mo_in_pos opt \<and> ms_iterations st \<ge> 20
      then res_bind (need (mi_position i)) (\<lambda>p. res_bind (need (me_desired e)) (\<lambda>d.
           Inr (if \<bar>p - d\<bar> \<le> me_position_db e then st\<lparr>ms_code := Some ''in_position''\<rparr> else st)))
      else Inr st)"

text \<open>The part of the pass for a new time stamp. A value that is missing cannot be printed.\<close>

definition new_data :: "mon_env \<Rightarrow> mon_opts \<Rightarrow> mon_input \<Rightarrow> instant \<Rightarrow> mon_state \<Rightarrow> mon_state res" where
  "new_data e opt i ts st =
     (if \<not> mi_shown i then Inl TypeError
      else (let st1 = st\<lparr>ms_old_ts := ts, ms_iterations := ms_iterations st + 1, ms_stop_time := mi_now i\<rparr>
            in res_bind (check_limits opt i (check_in_pos opt i st1)) (\<lambda>st2.
               res_bind (check_velocity e opt i st2) (\<lambda>st3.
               check_arrived e opt i (check_moved e opt i st3)))))"

section \<open>One pass\<close>

text \<open>The stop function must stay true for a second; an AttributeError counts as false.\<close>

definition stop_true :: "mon_input \<Rightarrow> bool res" where
  "stop_true i = (case mi_stop i of Inl AttributeError \<Rightarrow> Inr False | r \<Rightarrow> r)"

definition stop_timer :: "bool \<Rightarrow> mon_input \<Rightarrow> mon_state \<Rightarrow> mon_state" where
  "stop_timer b i st =
     (if b then (if mi_now i + week < ms_stop_funct st then st\<lparr>ms_stop_funct := mi_now i\<rparr> else st)
      else st\<lparr>ms_stop_funct := mi_now i + 2 * week\<rparr>)"

text \<open>The rest of a pass, after the stop function.\<close>

definition mon_checks :: "mon_env \<Rightarrow> mon_opts \<Rightarrow> mon_input \<Rightarrow> mon_state \<Rightarrow> mon_out" where
  "mon_checks e opt i st =
     (if mo_ipc_poll opt \<and> mi_poll i \<and> mi_reason i \<noteq> None then Ended ''ipc_conn''
      else if mi_key i then Go (st\<lparr>ms_code := Some ''kbhit''\<rparr>)
      else if mi_relay_off i then Go (st\<lparr>ms_code := Some ''relay_5V''\<rparr>)
      else if mi_now i \<ge> ms_stop_time st + mo_max_stopped opt then Go (st\<lparr>ms_code := Some ''max_stopped''\<rparr>)
      else (case mi_ts i of
              Inl x \<Rightarrow> Raised x
            | Inr ts \<Rightarrow>
                if ts > ms_old_ts st
                then (case new_data e opt i ts st of Inl x \<Rightarrow> Raised x | Inr st1 \<Rightarrow> Go st1)
                else Go st))"

definition mon_pass :: "mon_env \<Rightarrow> mon_opts \<Rightarrow> mon_input \<Rightarrow> mon_state \<Rightarrow> mon_out" where
  "mon_pass e opt i st =
     (case ms_code st of
        Some c \<Rightarrow> (case mi_update i of None \<Rightarrow> Ended c | Some x \<Rightarrow> Raised x)
      | None \<Rightarrow>
          (case stop_true i of
             Inl x \<Rightarrow> Raised x
           | Inr b \<Rightarrow>
               (let st1 = stop_timer b i st
                in if b \<and> ms_stop_funct st1 < mi_now i - 1000000 then Go (st1\<lparr>ms_code := Some ''stop_funct''\<rparr>)
                   else mon_checks e opt i st1)))"

text \<open>
  The loop, and the last line of feedback after it, for which the pass that ended the loop tells
  whether it can be printed.
\<close>

fun mon_run :: "mon_env \<Rightarrow> mon_opts \<Rightarrow> mon_input list \<Rightarrow> mon_state \<Rightarrow> string res option" where
  "mon_run e opt [] st = None"
| "mon_run e opt (i # is) st =
     (case mon_pass e opt i st of
        Go st1 \<Rightarrow> mon_run e opt is st1
      | Ended c \<Rightarrow> Some (case mi_ts i of Inl x \<Rightarrow> Inl x | Inr t \<Rightarrow> if mi_shown i then Inr c else Inl TypeError)
      | Raised x \<Rightarrow> Some (Inl x))"

section \<open>Lemmas\<close>

text \<open>The checks raise or change the code and the times; none clears a code.\<close>

lemmas check_defs = check_in_pos_def check_neg_def check_pos_def check_limits_def check_velocity_def check_moved_def
  check_arrived_def need_def res_bind_def

lemma check_in_pos_keeps:
  "ms_zero_v (check_in_pos opt i st) = ms_zero_v st" "ms_stop_time (check_in_pos opt i st) = ms_stop_time st"
  by (simp_all add: check_in_pos_def)

lemma check_limits_keeps:
  assumes "check_limits opt i st = Inr st'"
  shows "ms_zero_v st' = ms_zero_v st \<and> ms_stop_time st' = ms_stop_time st"
  using assms by (auto simp: check_limits_def check_neg_def check_pos_def need_def res_bind_def split: if_splits option.splits)

lemma check_moved_keeps:
  "ms_zero_v (check_moved e opt i st) = ms_zero_v st" "ms_stop_time (check_moved e opt i st) = ms_stop_time st"
  "ms_code st \<noteq> None \<Longrightarrow> ms_code (check_moved e opt i st) \<noteq> None"
  by (auto simp: check_moved_def)

lemma check_arrived_keeps:
  assumes "check_arrived e opt i st = Inr st'"
  shows "ms_zero_v st' = ms_zero_v st \<and> ms_stop_time st' = ms_stop_time st \<and> (ms_code st \<noteq> None \<longrightarrow> ms_code st' \<noteq> None)"
  using assms by (auto simp: check_arrived_def need_def res_bind_def split: if_splits option.splits)

text \<open>New data of a winch that does not move: either the time has run out, or the timer keeps running.\<close>

lemma new_data_still:
  assumes "new_data e opt i ts st = Inr st'" "mi_vel i = Some v" "\<bar>v\<bar> \<le> me_min_speed e"
  shows "ms_zero_v st' = ms_zero_v st \<and> ms_stop_time st' = mi_now i \<and>
    (ms_code st' \<noteq> None \<or> mi_now i \<le> ms_zero_v st + mo_max_zero_v opt)"
proof -
  let ?st1 = "st\<lparr>ms_old_ts := ts, ms_iterations := ms_iterations st + 1, ms_stop_time := mi_now i\<rparr>"
  obtain st2 where st2: "check_limits opt i (check_in_pos opt i ?st1) = Inr st2"
    and "\<exists>st3. check_velocity e opt i st2 = Inr st3 \<and> check_arrived e opt i (check_moved e opt i st3) = Inr st'"
    using assms(1) by (auto simp: new_data_def res_bind_def Let_def split: if_splits sum.splits)
  then obtain st3 where st3: "check_velocity e opt i st2 = Inr st3" "check_arrived e opt i (check_moved e opt i st3) = Inr st'"
    by blast
  have k2: "ms_zero_v st2 = ms_zero_v st" "ms_stop_time st2 = mi_now i"
    using check_limits_keeps[OF st2] by (simp_all add: check_in_pos_keeps)
  have k3: "ms_zero_v st3 = ms_zero_v st \<and> ms_stop_time st3 = mi_now i \<and>
      (ms_code st3 \<noteq> None \<or> mi_now i \<le> ms_zero_v st + mo_max_zero_v opt)"
    using st3(1) assms(2,3) k2 by (auto simp: check_velocity_def need_def res_bind_def split: if_splits)
  show ?thesis using check_arrived_keeps[OF st3(2)] check_moved_keeps[where e = e and opt = opt and i = i and st = st3] k3 by auto
qed

lemma stop_timer_keeps [simp]:
  "ms_zero_v (stop_timer b i st) = ms_zero_v st" "ms_stop_time (stop_timer b i st) = ms_stop_time st"
  "ms_code (stop_timer b i st) = ms_code st"
  by (simp_all add: stop_timer_def)

definition still :: "mon_env \<Rightarrow> mon_input \<Rightarrow> bool" where
  "still e i \<longleftrightarrow> (case mi_vel i of None \<Rightarrow> False | Some v \<Rightarrow> \<bar>v\<bar> \<le> me_min_speed e)"

text \<open>What holds while a still winch is watched: a code is set, or the timers have not run out.\<close>

definition waiting :: "mon_opts \<Rightarrow> instant \<Rightarrow> mon_state \<Rightarrow> bool" where
  "waiting opt z st \<longleftrightarrow> ms_code st \<noteq> None \<or> ms_zero_v st = z \<and> ms_stop_time st \<le> z + mo_max_zero_v opt"

lemma still_checks:
  assumes "waiting opt z st" "ms_code st = None" "still e i" "mon_checks e opt i st = Go st'"
  shows "waiting opt z st' \<and> (mi_now i \<ge> z + mo_max_zero_v opt + mo_max_stopped opt \<longrightarrow> ms_code st' \<noteq> None)"
proof (cases "mi_key i \<or> mi_relay_off i \<or> mi_now i \<ge> ms_stop_time st + mo_max_stopped opt")
  case True
  then show ?thesis using assms(4) by (auto simp: mon_checks_def waiting_def split: if_splits)
next
  case False
  then obtain ts where ts: "mi_ts i = Inr ts" "if ts > ms_old_ts st then new_data e opt i ts st = Inr st' else st' = st"
    using assms(4) by (auto simp: mon_checks_def split: if_splits sum.splits)
  obtain v where v: "mi_vel i = Some v" "\<bar>v\<bar> \<le> me_min_speed e" using assms(3) by (auto simp: still_def split: option.splits)
  have w: "ms_zero_v st = z" "ms_stop_time st \<le> z + mo_max_zero_v opt" using assms(1,2) by (simp_all add: waiting_def)
  show ?thesis
  proof (cases "ts > ms_old_ts st")
    case True
    then show ?thesis using new_data_still[OF _ v, of opt ts st st'] ts(2) w False by (auto simp: waiting_def)
  next
    case nonew: False
    then show ?thesis using ts(2) w False assms(1) by simp
  qed
qed

lemma still_pass:
  assumes "waiting opt z st" "still e i" "mon_pass e opt i st = Go st'"
  shows "waiting opt z st' \<and> ms_code st = None \<and>
    (mi_now i \<ge> z + mo_max_zero_v opt + mo_max_stopped opt \<longrightarrow> ms_code st' \<noteq> None)"
proof (cases "ms_code st")
  case (Some c)
  then show ?thesis using assms(3) by (simp add: mon_pass_def split: option.splits)
next
  case None
  then obtain b where b: "stop_true i = Inr b" using assms(3) by (auto simp: mon_pass_def split: sum.splits)
  have w: "waiting opt z (stop_timer b i st)" using assms(1) by (simp add: waiting_def)
  show ?thesis
  proof (cases "b \<and> ms_stop_funct (stop_timer b i st) < mi_now i - 1000000")
    case True
    then have "ms_code st' \<noteq> None" using assms(3) None b by (auto simp: mon_pass_def Let_def)
    then show ?thesis using None by (simp add: waiting_def)
  next
    case False
    then have "mon_checks e opt i (stop_timer b i st) = Go st'"
      using assms(3) None b by (simp add: mon_pass_def Let_def split: if_splits)
    from still_checks[OF w _ assms(2) this] None show ?thesis by simp
  qed
qed

lemma still_run:
  assumes "waiting opt z st" "list_all (still e) (ins @ [i, j])"
    "mi_now i \<ge> z + mo_max_zero_v opt + mo_max_stopped opt"
  shows "mon_run e opt (ins @ [i, j]) st \<noteq> None"
  using assms
proof (induction ins arbitrary: st)
  case Nil
  show ?case
  proof (cases "mon_pass e opt i st")
    case (Go st1)
    then obtain c where "ms_code st1 = Some c" using still_pass[OF Nil(1) _ Go] Nil(2,3) by auto
    then show ?thesis using Go by (simp add: mon_pass_def split: option.split)
  qed simp_all
next
  case (Cons k ins)
  show ?case
  proof (cases "mon_pass e opt k st")
    case (Go st1)
    then have "waiting opt z st1" using still_pass[OF Cons.prems(1) _ Go] Cons.prems(2) by simp
    then show ?thesis using Cons.IH[of st1] Cons.prems Go by simp
  qed simp_all
qed

text \<open>A winch whose position differs from the one before the move.\<close>

lemma off_start_checks:
  assumes "me_start_pos e \<noteq> mi_position i" "new_data e opt i ts st = Inr st'" "ms_code st = None"
  shows "ms_code st' \<noteq> Some ''max_no_pos_change''"
proof -
  obtain st2 where st2: "check_limits opt i (check_in_pos opt i (st\<lparr>ms_old_ts := ts, ms_iterations := ms_iterations st + 1, ms_stop_time := mi_now i\<rparr>)) = Inr st2"
    and "\<exists>st3. check_velocity e opt i st2 = Inr st3 \<and> check_arrived e opt i (check_moved e opt i st3) = Inr st'"
    using assms(2) by (auto simp: new_data_def res_bind_def Let_def split: if_splits sum.splits)
  then obtain st3 where st3: "check_velocity e opt i st2 = Inr st3" "check_arrived e opt i (check_moved e opt i st3) = Inr st'"
    by blast
  have "ms_code st2 \<noteq> Some ''max_no_pos_change''"
    using st2 assms(3) by (auto simp: check_limits_def check_in_pos_def check_neg_def check_pos_def need_def res_bind_def split: if_splits option.splits)
  then have "ms_code st3 \<noteq> Some ''max_no_pos_change''"
    using st3(1) by (auto simp: check_velocity_def need_def res_bind_def split: if_splits option.splits)
  then show ?thesis
    using st3(2) assms(1) by (auto simp: check_arrived_def check_moved_def need_def res_bind_def split: if_splits option.splits)
qed

lemma off_start_pass:
  assumes "me_start_pos e \<noteq> mi_position i" "ms_code st \<noteq> Some ''max_no_pos_change''"
  shows "mon_pass e opt i st = Go st' \<Longrightarrow> ms_code st' \<noteq> Some ''max_no_pos_change''"
    and "mon_pass e opt i st \<noteq> Ended ''max_no_pos_change''"
proof -
  have c: "ms_code st' \<noteq> Some ''max_no_pos_change''" if g: "mon_checks e opt i (stop_timer b i st) = Go st'" and n: "ms_code st = None" for b
    using g off_start_checks[OF assms(1), of opt _ "stop_timer b i st" st'] n
    by (auto simp: mon_checks_def split: if_splits sum.splits)
  have d: "mon_checks e opt i s \<noteq> Ended ''max_no_pos_change''" for s
    by (simp add: mon_checks_def split: sum.split)
  show "mon_pass e opt i st = Go st' \<Longrightarrow> ms_code st' \<noteq> Some ''max_no_pos_change''"
    using c by (auto simp: mon_pass_def Let_def split: option.splits sum.splits if_splits)
  show "mon_pass e opt i st \<noteq> Ended ''max_no_pos_change''"
    using d assms(2) by (auto simp: mon_pass_def Let_def split: option.split sum.split)
qed

lemma off_start_run:
  "\<forall>i \<in> set ins. me_start_pos e \<noteq> mi_position i \<Longrightarrow> ms_code st \<noteq> Some ''max_no_pos_change'' \<Longrightarrow>
     mon_run e opt ins st \<noteq> Some (Inr ''max_no_pos_change'')"
proof (induction ins arbitrary: st)
  case (Cons i ins)
  show ?case
  proof (cases "mon_pass e opt i st")
    case (Go st1)
    then have "ms_code st1 \<noteq> Some ''max_no_pos_change''" using off_start_pass(1)[OF _ Cons.prems(2) Go] Cons.prems(1) by simp
    then show ?thesis using Go Cons.IH[of st1] Cons.prems(1) by simp
  next
    case (Ended c)
    then have "c \<noteq> ''max_no_pos_change''" using off_start_pass(2)[OF _ Cons.prems(2)] Cons.prems(1) by fastforce
    then show ?thesis using Ended by (simp split: sum.split)
  qed simp
qed simp

section \<open>Properties\<close>

text \<open>
  C17. The loop never watches a winch that stands still for ever: when the motor reports no speed
  above the minimum, and a pass comes later than the two time-outs together, the loop has ended
  with the pass after it, whatever else the passes read.
\<close>

theorem still_winch_given_up:
  assumes "list_all (still e) (ins @ [i, j])" "mi_now i \<ge> t0 + mo_max_zero_v opt + mo_max_stopped opt" "0 \<le> mo_max_zero_v opt"
  shows "\<exists>r. mon_run e opt (ins @ [i, j]) (mon_start t0 past) = Some r"
proof -
  have "waiting opt t0 (mon_start t0 past)" using assms(3) by (simp add: waiting_def mon_start_def)
  from still_run[OF this assms(1,2)] show ?thesis by blast
qed

text \<open>
  Because the position is only compared with the one before the move, a winch that has left
  its start is never seen to have stopped moving by the position check, however long its position
  stays the same.
\<close>

theorem position_check_blind:
  assumes "\<forall>i \<in> set ins. me_start_pos e \<noteq> mi_position i"
  shows "mon_run e opt ins (mon_start t0 past) \<noteq> Some (Inr ''max_no_pos_change'')"
  using off_start_run[OF assms] by (simp add: mon_start_def)

section \<open>Witnesses\<close>

definition demo_opts :: mon_opts where
  "demo_opts = \<lparr>mo_max_stopped = 30000000, mo_stop_name = ''null'', mo_max_zero_v = 3000000, mo_limit_stop = True,
     mo_neg_max = 750000, mo_pos_max = 750000, mo_in_pos = False, mo_in_pos_max = 2000000, mo_ipc_poll = True\<rparr>"

definition demo_stop_env :: mon_env where
  "demo_stop_env = \<lparr>me_min_speed = 1, me_position_db = 100, me_start_pos = Some 0, me_desired = Some 900\<rparr>"

definition demo_input :: "instant \<Rightarrow> int \<Rightarrow> int \<Rightarrow> mon_input" where
  "demo_input t v p = \<lparr>mi_now = t, mi_stop = Inr False, mi_poll = False, mi_reason = None, mi_key = False,
     mi_relay_off = False, mi_ts = Inr t, mi_shown = True, mi_in_pos = Some 0, mi_neg = Some 0, mi_pos = Some 0,
     mi_vel = Some v, mi_position = Some p, mi_update = None\<rparr>"

theorem still_winch_given_up_witness:
  "\<exists>r. mon_run demo_stop_env demo_opts [demo_input 1000000 0 500, demo_input 33000000 1 500, demo_input 33100000 0 500]
     (mon_start 0 (-1)) = Some r"
proof -
  have 1: "list_all (still demo_stop_env) ([demo_input 1000000 0 500] @ [demo_input 33000000 1 500, demo_input 33100000 0 500])"
    by (simp add: still_def demo_input_def demo_stop_env_def)
  have 2: "mi_now (demo_input 33000000 1 500) \<ge> 0 + mo_max_zero_v demo_opts + mo_max_stopped demo_opts" "0 \<le> mo_max_zero_v demo_opts"
    by (simp_all add: demo_input_def demo_opts_def)
  from still_winch_given_up[OF 1 2] show ?thesis by simp
qed

theorem position_check_blind_witness:
  "mon_run demo_stop_env demo_opts (map (\<lambda>t. demo_input (t * 20000000) 2 500) [0..180]) (mon_start 0 (-1)) \<noteq> Some (Inr ''max_no_pos_change'')"
  by (rule position_check_blind) (simp add: demo_stop_env_def demo_input_def)

end
