(* ===== verification/Mm3.thy ===== *)
theory Mm3
  imports Trace
begin

text \<open>
  The client of the motor controller, class \<open>MM3Broker\<close> of src/python/avp_broker.py: moves, the
  stop, the defaults, and the callbacks for motor faults. Besides the broker it writes the reason
  of a stop to a table of the database (\<open>ipc_db\<close>), which is an input like the channel. The clock
  is read once per operation.
\<close>

section \<open>Surroundings\<close>

text \<open>\<open>io_ipc broker param value\<close> updates a row of the table; it may raise.\<close>

record 'w mm3_io =
  io_rpc :: "'w rpc_fun"
  io_ipc :: "string \<Rightarrow> string \<Rightarrow> string \<Rightarrow> 'w \<Rightarrow> pyexn option \<times> 'w"

record mm3_cfg =
  mc_amps_limit :: int
  mc_default_speed :: int
  mc_defaults :: "(string \<times> pyval) list"
  mc_program :: string

definition default_cfg :: mm3_cfg where
  "default_cfg = \<lparr>mc_amps_limit = 3500, mc_default_speed = 5, mc_defaults = [], mc_program = ''avp''\<rparr>"

definition set_now :: "'w mm3_io \<Rightarrow> instant \<Rightarrow> (string \<times> pyval) list \<Rightarrow> broker \<times> 'w \<Rightarrow> pyval res \<times> broker \<times> 'w" where
  "set_now io now ps bw = set_params (io_rpc io) now ps False None bw"

text \<open>An exception object kept in a result.\<close>

definition exn_value :: pyval where
  "exn_value = PStr ''exception''"

section \<open>Defaults\<close>

text \<open>\<open>str(v)\<close> where the configuration, whose values are strings, can equal it.\<close>

fun str_equal :: "pyval \<Rightarrow> pyval \<Rightarrow> bool" where
  "str_equal (PStr s) (PInt i) = (s = int_to_string i)"
| "str_equal (PStr s) (PStr t) = (s = t)"
| "str_equal (PStr s) (PBool b) = (s = (if b then ''True'' else ''False''))"
| "str_equal (PStr s) PNone = (s = ''None'')"
| "str_equal _ _ = False"

definition check_defaults :: "'w mm3_io \<Rightarrow> mm3_cfg \<Rightarrow> instant \<Rightarrow> broker \<times> 'w \<Rightarrow> pyval res \<times> broker \<times> 'w" where
  "check_defaults io cfg now bw =
     (if mc_defaults cfg = [] then (Inr (PInt 0), bw)
      else (let checked = filter (\<lambda>(k, v). has_attr (fst bw) k) (mc_defaults cfg)
            in case get_value (io_rpc io) (map fst checked) False None bw of
                 (Inl e, bw1) \<Rightarrow> (Inl e, bw1)
               | (Inr cur, bw1) \<Rightarrow>
                   (case pget cur ''error'' of
                      Some e \<Rightarrow> (if is_dict e then Inr (PInt 0) else Inl AttributeError, bw1)
                    | None \<Rightarrow> (let todo = filter (\<lambda>(k, v). \<not> str_equal v (pget_or cur k PNone)) checked
                          in if todo = [] then (Inr (PInt 1), bw1)
                             else (case get_token (io_rpc io) (mc_program cfg) ''mm3._check_defaults'' True bw1 of
                                     (Inl e, bw2) \<Rightarrow> (Inl e, bw2)
                                   | (Inr tok, bw2) \<Rightarrow>
                                       (case set_now io now todo bw2 of
                                          (Inl e, bw3) \<Rightarrow> (Inl e, bw3)
                                        | (Inr r, bw3) \<Rightarrow> (Inr r, snd (token_release (io_rpc io) bw3))))))))"

section \<open>Stopping\<close>

definition stop_params :: "(string \<times> pyval) list" where
  "stop_params = [(''move_at'', PInt 0), (''PWM_limit'', PInt 0), (''disable_pid'', PInt 1)]"

text \<open>
  \<open>stop\<close>: the token is taken, overriding its owner, only if the client does not have it, and is
  released only then.
\<close>

definition stop_motor :: "'w mm3_io \<Rightarrow> mm3_cfg \<Rightarrow> instant \<Rightarrow> bool \<Rightarrow> broker \<times> 'w \<Rightarrow> pyval res \<times> broker \<times> 'w" where
  "stop_motor io cfg now defaults bw =
     (let taken = \<not> bk_token (fst bw);
          (x, bw1) = (if taken then (case get_token (io_rpc io) (mc_program cfg) ''mm3.stop'' True bw of
                                       (Inl e, bw1) \<Rightarrow> (Some e, bw1) | (Inr r, bw1) \<Rightarrow> (None, bw1))
                      else (None, bw))
      in case x of Some e \<Rightarrow> (Inl e, bw1)
         | None \<Rightarrow>
             (case set_now io now stop_params bw1 of
                (Inl e, bw2) \<Rightarrow> (Inl e, bw2)
              | (Inr r, bw2) \<Rightarrow>
                  (let bw3 = (if taken then snd (token_release (io_rpc io) bw2) else bw2)
                   in if defaults
                      then (case check_defaults io cfg now bw3 of (Inl e, bw4) \<Rightarrow> (Inl e, bw4)
                            | (Inr d, bw4) \<Rightarrow> (Inr (PDict [(''set'', r)]), bw4))
                      else (Inr (PDict [(''set'', r)]), bw3))))"

text \<open>\<open>_clear_stop_reason\<close>: a failing database stops the motor.\<close>

definition clear_stop_reason :: "'w mm3_io \<Rightarrow> mm3_cfg \<Rightarrow> instant \<Rightarrow> broker \<times> 'w \<Rightarrow> pyval res \<times> broker \<times> 'w" where
  "clear_stop_reason io cfg now bw =
     (case io_ipc io ''mm3'' ''stop_reason'' [] (snd bw) of
        (None, w1) \<Rightarrow> (Inr (PDict [(''result'', PNone)]), fst bw, w1)
      | (Some e, w1) \<Rightarrow>
          (case stop_motor io cfg now False (fst bw, w1) of
             (Inl e', bw2) \<Rightarrow> (Inl e', bw2)
           | (Inr r, bw2) \<Rightarrow> (Inr (PDict [(''stop'', r), (''error'', exn_value)]), bw2)))"

section \<open>Moves\<close>

text \<open>The speed is whatever the caller passes, which may be a text.\<close>

record move_opts =
  mo_speed :: "pyval option"
  mo_amps :: "int option"
  mo_vel_enable :: int
  mo_enable_db :: int
  mo_pwm :: int
  mo_disable_pid :: int

definition plain_move :: move_opts where
  "plain_move = \<lparr>mo_speed = None, mo_amps = None, mo_vel_enable = 1, mo_enable_db = 1, mo_pwm = 1023, mo_disable_pid = 0\<rparr>"

definition setup_params :: "mm3_cfg \<Rightarrow> move_opts \<Rightarrow> (string \<times> pyval) list" where
  "setup_params cfg mo =
     [(''velocity_limit'', case mo_speed mo of None \<Rightarrow> PInt (mc_default_speed cfg) | Some v \<Rightarrow> v),
      (''velocity_limit_enable'', PInt (mo_vel_enable mo)),
      (''enable_db'', PInt (mo_enable_db mo)),
      (''PWM_limit'', PInt (mo_pwm mo)),
      (''amps_limit'', PInt (case mo_amps mo of None \<Rightarrow> mc_amps_limit cfg | Some a \<Rightarrow> a)),
      (''disable_pid'', PInt (mo_disable_pid mo))]"

definition move_to_setup :: "'w mm3_io \<Rightarrow> mm3_cfg \<Rightarrow> instant \<Rightarrow> move_opts \<Rightarrow> broker \<times> 'w \<Rightarrow> pyval res \<times> broker \<times> 'w" where
  "move_to_setup io cfg now mo bw =
     (case set_now io now (setup_params cfg mo) bw of
        (Inl e, bw1) \<Rightarrow> (Inl e, bw1) | (Inr r, bw1) \<Rightarrow> (Inr (PDict [(''set'', r)]), bw1))"

text \<open>
  What the two moves share: setup, clearing the stop reason, the command. An exception of the
  command stops the motor; one of the setup is raised. \<open>ok\<close> and \<open>stopped\<close> are the entries the
  two methods put beside the shared ones.
\<close>

definition guarded_move ::
  "'w mm3_io \<Rightarrow> mm3_cfg \<Rightarrow> instant \<Rightarrow> move_opts \<Rightarrow> string \<times> pyval \<Rightarrow> (string \<times> pyval) list \<Rightarrow>
     (pyval \<Rightarrow> (string \<times> pyval) list) \<Rightarrow> broker \<times> 'w \<Rightarrow> pyval res \<times> broker \<times> 'w" where
  "guarded_move io cfg now mo command ok stopped bw =
     (if \<not> bk_initialized (fst bw) then (Inr (PDict []), bw)
      else (case move_to_setup io cfg now mo bw of
        (Inl e, bw1) \<Rightarrow> (Inl e, bw1)
      | (Inr r1, bw1) \<Rightarrow>
          (case clear_stop_reason io cfg now bw1 of
             (Inl e, bw2) \<Rightarrow> (Inl e, bw2)
           | (Inr r2, bw2) \<Rightarrow>
               (let done1 = [(''_move_to_setup'', r1), (''_clear_stop_reason'', r2)]
                in case set_now io now [command] bw2 of
                     (Inr r3, bw3) \<Rightarrow> (Inr (PDict (done1 @ (''set'', r3) # ok)), bw3)
                   | (Inl e, bw3) \<Rightarrow>
                       (case stop_motor io cfg now False bw3 of
                          (Inl e', bw4) \<Rightarrow> (Inl e', bw4)
                        | (Inr r4, bw4) \<Rightarrow> (Inr (PDict (done1 @ stopped r4 @ [(''error'', exn_value)])), bw4))))))"

definition move_to_position ::
  "'w mm3_io \<Rightarrow> mm3_cfg \<Rightarrow> instant \<Rightarrow> int \<Rightarrow> pyval option \<Rightarrow> int option \<Rightarrow> int \<Rightarrow> broker \<times> 'w \<Rightarrow> pyval res \<times> broker \<times> 'w" where
  "move_to_position io cfg now location speed amps enable_db bw =
     guarded_move io cfg now (plain_move\<lparr>mo_speed := speed, mo_amps := amps, mo_enable_db := enable_db\<rparr>)
       (''move_to_absolute'', PInt location) [(''stop'', PStr [])] (\<lambda>r. [(''stop'', r)]) bw"

definition move_to_relative ::
  "'w mm3_io \<Rightarrow> mm3_cfg \<Rightarrow> instant \<Rightarrow> int \<Rightarrow> move_opts \<Rightarrow> broker \<times> 'w \<Rightarrow> pyval res \<times> broker \<times> 'w" where
  "move_to_relative io cfg now distance mo bw =
     guarded_move io cfg now mo (''move_to_rel'', PInt distance) [] (\<lambda>r. []) bw"

text \<open>
  \<open>move_at_speed\<close>, for a speed that is an integer. The direction gives the sign. The current limit
  is read, and set only if it differs.
\<close>

definition run_params :: "int \<Rightarrow> (string \<times> pyval) list" where
  "run_params enable_db =
     [(''velocity_limit_enable'', PInt 0), (''velocity_limit'', PInt 99), (''enable_db'', PInt enable_db),
      (''PWM_limit'', PInt 1023), (''disable_pid'', PInt 0)]"

definition signed_speed :: "int \<Rightarrow> string \<Rightarrow> int option" where
  "signed_speed speed direction =
     (if direction = ''up'' then Some (- \<bar>speed\<bar>) else if direction = ''down'' then Some \<bar>speed\<bar> else None)"

text \<open>The body of the \<open>try\<close>, with the entries it leaves in the result.\<close>

definition run_at ::
  "'w mm3_io \<Rightarrow> mm3_cfg \<Rightarrow> instant \<Rightarrow> int \<Rightarrow> bool \<Rightarrow> broker \<times> 'w \<Rightarrow> (string \<times> pyval) list \<times> pyexn option \<times> broker \<times> 'w" where
  "run_at io cfg now v enable_db bw =
     (case clear_stop_reason io cfg now bw of
        (Inl e, bw1) \<Rightarrow> ([], Some e, bw1)
      | (Inr r1, bw1) \<Rightarrow>
          (case set_now io now (run_params (if enable_db then 1 else 0)) bw1 of
             (Inl e, bw2) \<Rightarrow> ([(''_clear_stop_reason'', r1)], Some e, bw2)
           | (Inr r2, bw2) \<Rightarrow>
               (let done = [(''_clear_stop_reason'', r1), (''set(velocity_limit_enable)'', r2)]
                in case set_now io now [(''move_at'', PInt v)] bw2 of
                     (Inl e, bw3) \<Rightarrow> (done, Some e, bw3)
                   | (Inr r3, bw3) \<Rightarrow> (done @ [(''set(move_at)'', r3)], None, bw3))))"

definition move_at_speed ::
  "'w mm3_io \<Rightarrow> mm3_cfg \<Rightarrow> instant \<Rightarrow> int \<Rightarrow> string \<Rightarrow> int option \<Rightarrow> bool \<Rightarrow> broker \<times> 'w \<Rightarrow> pyval res \<times> broker \<times> 'w" where
  "move_at_speed io cfg now speed direction amps enable_db bw =
     (if \<not> bk_initialized (fst bw) then (Inr (PDict []), bw)
      else (case signed_speed speed direction of
        None \<Rightarrow> (Inr (PDict []), bw)
      | Some v \<Rightarrow>
          (let limit = (case amps of None \<Rightarrow> mc_amps_limit cfg | Some a \<Rightarrow> a)
           in case value_getter (io_rpc io) now ''amps_limit'' bw of
                (Inl e, bw1) \<Rightarrow> (Inl e, bw1)
              | (Inr cur, bw1) \<Rightarrow>
                  (case (if eq_num cur (of_int limit) then (Inr [], bw1)
                         else (case set_now io now [(''amps_limit'', PInt limit)] bw1 of
                                 (Inl e, bw2) \<Rightarrow> (Inl e, bw2) | (Inr r, bw2) \<Rightarrow> (Inr [(''set(amps_limit)'', r)], bw2))) of
                     (Inl e, bw2) \<Rightarrow> (Inl e, bw2)
                   | (Inr d1, bw2) \<Rightarrow>
                       (case run_at io cfg now v enable_db bw2 of
                          (d2, None, bw3) \<Rightarrow> (Inr (PDict (d1 @ d2)), bw3)
                        | (d2, Some e, bw3) \<Rightarrow>
                            (case stop_motor io cfg now False bw3 of
                               (Inl e', bw4) \<Rightarrow> (Inl e', bw4)
                             | (Inr r4, bw4) \<Rightarrow>
                                 (Inr (PDict (d1 @ d2 @ [(''set(move_at)'', PDict [(''error'', exn_value)])])), bw4)))))))"

section \<open>Callbacks\<close>

text \<open>
  \<open>motor_cb\<close>: a fault stops the motor, and the reason is written to the table. The messages read
  further values, which may ask the broker again.
\<close>

definition motor_cb :: "'w mm3_io \<Rightarrow> mm3_cfg \<Rightarrow> instant \<Rightarrow> string \<Rightarrow> broker \<times> 'w \<Rightarrow> pyexn option \<times> broker \<times> 'w" where
  "motor_cb io cfg now n bw =
     (case value_getter (io_rpc io) now n bw of
        (Inl e, bw1) \<Rightarrow> (Some e, bw1)
      | (Inr v, bw1) \<Rightarrow>
          (if \<not> eq_num v 1 then (None, bw1)
           else (case stop_motor io cfg now False bw1 of
             (Inl e, bw2) \<Rightarrow> (Some e, bw2)
           | (Inr r, b2, w2) \<Rightarrow>
               (case io_ipc io ''mm3'' ''stop_reason'' n w2 of
                  (Some e, w3) \<Rightarrow> (Some e, b2, w3)
                | (None, w3) \<Rightarrow>
                    (let ask = (\<lambda>m bw. case value_getter (io_rpc io) now m bw of
                                  (Inl e, bw') \<Rightarrow> (Some e, bw') | (Inr x, bw') \<Rightarrow> (None, bw'))
                     in if n = ''current_limit'' then ask ''amps_limit'' (b2, w3)
                        else if n = ''temp_fault'' \<and> \<not> dhas (bk_subs b2) ''temperature'' then
                          (case get_value (io_rpc io) [''temperature''] False None (b2, w3) of
                             (Inl e, bw4) \<Rightarrow> (Some e, bw4) | (Inr x, bw4) \<Rightarrow> ask ''temperature'' bw4)
                        else ask ''temperature'' (b2, w3))))))"

text \<open>\<open>limit_cb\<close> only reports: the position is asked for when it is not subscribed, and read.\<close>

definition limit_cb :: "'w mm3_io \<Rightarrow> instant \<Rightarrow> string \<Rightarrow> broker \<times> 'w \<Rightarrow> pyexn option \<times> broker \<times> 'w" where
  "limit_cb io now n bw =
     (case value_getter (io_rpc io) now n bw of
        (Inl e, bw1) \<Rightarrow> (Some e, bw1)
      | (Inr v, bw1) \<Rightarrow>
          (if \<not> eq_num v 1 then (None, bw1)
           else (case (if dhas (bk_subs (fst bw1)) ''position'' then (Inr PNone, bw1)
                       else get_value (io_rpc io) [''position''] False None bw1) of
             (Inl e, bw2) \<Rightarrow> (Some e, bw2)
           | (Inr r, bw2) \<Rightarrow>
               (if n = ''neg_limit_switch'' \<or> n = ''pos_limit_switch''
                then (case value_getter (io_rpc io) now ''position'' bw2 of
                        (Inl e, bw3) \<Rightarrow> (Some e, bw3) | (Inr p, bw3) \<Rightarrow> (None, bw3))
                else (None, bw2)))))"

section \<open>Commands of the controller\<close>

definition reset_mm3 :: "'w mm3_io \<Rightarrow> broker \<times> 'w \<Rightarrow> pyval \<times> broker \<times> 'w" where
  "reset_mm3 io bw =
     (if bk_initialized (fst bw) then checked_call (io_rpc io) ''reset'' None None bw else (PInt 0, bw))"

definition restore_mm3 :: "'w mm3_io \<Rightarrow> broker \<times> 'w \<Rightarrow> pyval \<times> broker \<times> 'w" where
  "restore_mm3 io bw =
     (if bk_initialized (fst bw) then checked_call (io_rpc io) ''restore'' None None bw else (PInt 0, bw))"

definition do_write_store :: "'w mm3_io \<Rightarrow> instant \<Rightarrow> (string \<times> pyval) list \<Rightarrow> broker \<times> 'w \<Rightarrow> pyval res \<times> broker \<times> 'w" where
  "do_write_store io now ps bw =
     (if bk_initialized (fst bw) then set_params (io_rpc io) now ps True None bw else (Inr (PDict []), bw))"

definition store_position :: "'w mm3_io \<Rightarrow> instant \<Rightarrow> int option \<Rightarrow> broker \<times> 'w \<Rightarrow> pyval res \<times> broker \<times> 'w" where
  "store_position io now pos bw =
     (if \<not> bk_initialized (fst bw) then (Inr (PDict []), bw)
      else (case pos of
              Some p \<Rightarrow> do_write_store io now [(''position'', PInt p)] bw
            | None \<Rightarrow>
                (case get_value (io_rpc io) [''position''] False None bw of
                   (Inl e, bw1) \<Rightarrow> (Inl e, bw1)
                 | (Inr r, bw1) \<Rightarrow>
                     (case value_getter (io_rpc io) now ''position'' bw1 of
                        (Inl e, bw2) \<Rightarrow> (Inl e, bw2)
                      | (Inr v, bw2) \<Rightarrow> do_write_store io now [(''position'', v)] bw2))))"

section \<open>Lemmas\<close>

text \<open>Surroundings that keep what is sent: the calls, and the rows written, in their order.\<close>

definition traced_io :: "'w mm3_io \<Rightarrow> ('w \<times> trace) mm3_io" where
  "traced_io io =
     \<lparr>io_rpc = traced (io_rpc io),
      io_ipc = (\<lambda>br p v wl. (fst (io_ipc io br p v (fst wl)), snd (io_ipc io br p v (fst wl)),
                             snd wl @ [(''row'', Some (PDict [(p, PStr v)]))]))\<rparr>"

definition row_of :: "string \<Rightarrow> string \<times> pyval option" where
  "row_of v = (''row'', Some (PDict [(''stop_reason'', PStr v)]))"

lemma set_now_traced:
  assumes "\<forall>k \<in> fst ` set ps. writable b k" "distinct (map fst ps)" "ps \<noteq> []"
  shows "\<exists>r b' w'. set_now (traced_io io) now ps (b, w, l) = (Inr r, b', w', l @ [set_of ps]) \<and> same_client b b' \<and> is_dict r"
  using set_traced[OF assms, of "io_rpc io" now None w l] by (simp add: set_now_def traced_io_def)

text \<open>What a move needs of the client.\<close>

definition move_params :: "string list" where
  "move_params = [''move_at'', ''move_to_absolute'', ''move_to_rel'', ''PWM_limit'', ''disable_pid'', ''velocity_limit'',
     ''velocity_limit_enable'', ''enable_db'', ''amps_limit'']"

definition mm3_ready :: "broker \<Rightarrow> bool" where
  "mm3_ready b \<longleftrightarrow> bk_initialized b \<and> list_all (writable b) move_params"

lemma mm3_ready_same: "mm3_ready b \<Longrightarrow> same_client b b' \<Longrightarrow> mm3_ready b'"
  by (simp add: mm3_ready_def same_client_def move_params_def)

lemma mm3_ready_params: "mm3_ready b \<Longrightarrow> fst ` set ps \<subseteq> set move_params \<Longrightarrow> \<forall>k \<in> fst ` set ps. writable b k"
  unfolding mm3_ready_def list_all_iff by blast

lemma set_ready:
  assumes "mm3_ready b" "fst ` set ps \<subseteq> set move_params" "distinct (map fst ps)" "ps \<noteq> []"
  shows "\<exists>r b' w'. set_now (traced_io io) now ps (b, w, l) = (Inr r, b', w', l @ [set_of ps]) \<and>
    same_client b b' \<and> is_dict r \<and> mm3_ready b'"
  using set_now_traced[OF mm3_ready_params[OF assms(1,2)] assms(3,4), of io now w l] mm3_ready_same[OF assms(1)] by blast

lemma stop_params_ok:
  "fst ` set stop_params \<subseteq> set move_params" "distinct (map fst stop_params)" "stop_params \<noteq> []"
  by (simp_all add: stop_params_def move_params_def)

lemma stop_holding:
  assumes "mm3_ready b" "bk_token b"
  shows "\<exists>r b' w'. stop_motor (traced_io io) cfg now False (b, w, l) = (Inr (PDict [(''set'', r)]), b', w', l @ [set_of stop_params]) \<and>
    same_client b b' \<and> is_dict r"
  using set_ready[OF assms(1) stop_params_ok, of io now w l] assms(2) by (auto simp: stop_motor_def)

lemma clear_traced:
  "io_ipc io ''mm3'' ''stop_reason'' [] w = (None, w1) \<Longrightarrow>
     clear_stop_reason (traced_io io) cfg now (b, w, l) = (Inr (PDict [(''result'', PNone)]), b, w1, l @ [row_of []])"
  by (simp add: clear_stop_reason_def traced_io_def row_of_def)

lemma setup_params_ok:
  "fst ` set (setup_params cfg mo) \<subseteq> set move_params" "distinct (map fst (setup_params cfg mo))" "setup_params cfg mo \<noteq> []"
  by (simp_all add: setup_params_def move_params_def)

section \<open>Properties\<close>

text \<open>
  C12. A move of a client that has its parameters sends exactly two writes, the limits first and the
  command after the old stop reason has been cleared. This holds whatever the controller answers:
  a refused or lost command never counts as an error of the move and never stops the motor.
\<close>

theorem move_limits_first:
  assumes "mm3_ready b" "\<And>v. fst (io_ipc io ''mm3'' ''stop_reason'' [] v) = None"
  shows "\<exists>r1 r3 b' w'. move_to_position (traced_io io) cfg now loc speed amps db (b, w, l) =
      (Inr (PDict [(''_move_to_setup'', r1), (''_clear_stop_reason'', PDict [(''result'', PNone)]), (''set'', r3), (''stop'', PStr [])]),
       b', w', l @ [set_of (setup_params cfg (plain_move\<lparr>mo_speed := speed, mo_amps := amps, mo_enable_db := db\<rparr>)),
                    row_of [], set_of [(''move_to_absolute'', PInt loc)]])"
proof -
  let ?mo = "plain_move\<lparr>mo_speed := speed, mo_amps := amps, mo_enable_db := db\<rparr>"
  obtain r1 b1 w1 where s: "set_now (traced_io io) now (setup_params cfg ?mo) (b, w, l) = (Inr r1, b1, w1, l @ [set_of (setup_params cfg ?mo)])"
    "mm3_ready b1"
    using set_ready[OF assms(1) setup_params_ok, of io now cfg ?mo w l] by blast
  obtain w2 where c: "io_ipc io ''mm3'' ''stop_reason'' [] w1 = (None, w2)"
    using assms(2)[of w1] by (cases "io_ipc io ''mm3'' ''stop_reason'' [] w1") simp
  have p: "fst ` set [(''move_to_absolute'', PInt loc)] \<subseteq> set move_params" by (simp add: move_params_def)
  obtain r3 b3 w3 where m: "set_now (traced_io io) now [(''move_to_absolute'', PInt loc)] (b1, w2, (l @ [set_of (setup_params cfg ?mo)]) @ [row_of []]) =
      (Inr r3, b3, w3, ((l @ [set_of (setup_params cfg ?mo)]) @ [row_of []]) @ [set_of [(''move_to_absolute'', PInt loc)]])"
    using set_ready[OF s(2) p, of io now w2 "(l @ [set_of (setup_params cfg ?mo)]) @ [row_of []]"] by auto
  show ?thesis
    using assms(1) s(1) clear_traced[OF c] m
    by (simp add: move_to_position_def guarded_move_def move_to_setup_def mm3_ready_def)
qed


section \<open>Witnesses\<close>

text \<open>A client with every parameter of a move, holding the token, and a fault that has just been notified.\<close>

definition demo_mm3 :: broker where
  "demo_mm3 = demo_broker\<lparr>bk_token := True,
     bk_attrs := map (\<lambda>n. (n, AItem n)) (''current_limit'' # move_params),
     bk_items := (''current_limit'', (demo_item ''current_limit'' ''RO'' PNone)\<lparr>di_subscribed := True, di_value := PInt 1\<rparr>) #
       map (\<lambda>n. (n, demo_item n ''RW'' PNone)) move_params\<rparr>"

definition demo_io :: "pyval list mm3_io" where
  "demo_io = \<lparr>io_rpc = script_rpc, io_ipc = (\<lambda>br p v w. (None, w))\<rparr>"

lemma demo_mm3_ready: "mm3_ready demo_mm3"
  by code_simp

lemma demo_fault: "value_getter (io_rpc (traced_io demo_io)) 0 ''current_limit'' (demo_mm3, [], []) = (Inr (PInt 1), demo_mm3, [], [])"
  by code_simp

theorem move_limits_first_witness:
  "\<exists>r b' w'. move_to_position (traced_io demo_io) default_cfg 0 1000 None None 1 (demo_mm3, [], []) =
     (Inr r, b', w', [set_of (setup_params default_cfg (plain_move\<lparr>mo_speed := None, mo_amps := None, mo_enable_db := 1\<rparr>)),
                      row_of [], set_of [(''move_to_absolute'', PInt 1000)]])"
proof -
  have "fst (io_ipc demo_io ''mm3'' ''stop_reason'' [] v) = None" for v by (simp add: demo_io_def)
  from move_limits_first[OF demo_mm3_ready this, of default_cfg 0 1000 None None 1 "[]" "[]"] show ?thesis by auto
qed


end
