(* ===== verification/Winch.thy ===== *)
theory Winch
  imports Monitor Mm3 Sonde
begin

text \<open>
  The winch, class \<open>Winch\<close> of src/python/avp_winch.py: conversions, limits of current, stop
  functions, moves, parking and calibration. It drives the clients of the motor controller, the
  sonde and the analogue board. What happens while a move is watched is an input: the passes of
  the loop, and the clients after it.
\<close>

section \<open>State and surroundings\<close>

record 'w boat =
  wn_mm3 :: broker
  wn_sonde :: "broker option"
  wn_err :: rat
  wn_aio :: broker
  wn_conf :: "(string \<times> pyval) list"
  wn_wl_cond :: int
  wn_wl_press :: int
  wn_wl :: int
  wn_world :: 'w

text \<open>
  \<open>wi_watch\<close> gives the passes of the loop that watches a move with the given options, and the
  state that the other threads and the brokers have made meanwhile.
\<close>

record 'w winch_io =
  wi_mm3 :: "'w mm3_io"
  wi_sonde :: "'w rpc_fun"
  wi_aio :: "'w rpc_fun"
  wi_watch :: "mon_opts \<Rightarrow> 'w boat \<Rightarrow> mon_input list \<times> 'w boat"
  wi_now :: instant
  wi_past :: instant

record winch_cfg =
  wc_slow :: int
  wc_med :: int
  wc_fast :: int
  wc_slowdown_position :: int
  wc_position_db :: int
  wc_max_depth :: rat
  wc_clicks_per_meter :: rat
  wc_clicks_per_rev :: int
  wc_min_speed :: int
  wc_amps :: "((string \<times> string \<times> string) \<times> int) list option"
  wc_mm3 :: mm3_cfg
  wc_sonde :: sonde_cfg

text \<open>Operations of the three clients. Without a sonde there is no attribute to read.\<close>

definition on_mm3 :: "(broker \<times> 'w, 'a) act \<Rightarrow> ('w boat, 'a) act" where
  "on_mm3 m s = (case m (wn_mm3 s, wn_world s) of (r, b, w) \<Rightarrow> (r, s\<lparr>wn_mm3 := b, wn_world := w\<rparr>))"

definition on_aio :: "(broker \<times> 'w, 'a) act \<Rightarrow> ('w boat, 'a) act" where
  "on_aio m s = (case m (wn_aio s, wn_world s) of (r, b, w) \<Rightarrow> (r, s\<lparr>wn_aio := b, wn_world := w\<rparr>))"

definition on_sonde :: "(broker \<times> 'w, 'a) act \<Rightarrow> ('w boat, 'a) act" where
  "on_sonde m s =
     (case wn_sonde s of
        None \<Rightarrow> (Inl AttributeError, s)
      | Some b0 \<Rightarrow> (case m (b0, wn_world s) of (r, b, w) \<Rightarrow> (r, s\<lparr>wn_sonde := Some b, wn_world := w\<rparr>)))"

definition rd_mm3 :: "'w winch_io \<Rightarrow> string \<Rightarrow> ('w boat, pyval) act" where
  "rd_mm3 io n = on_mm3 (value_getter (io_rpc (wi_mm3 io)) (wi_now io) n)"

definition rd_sonde :: "'w winch_io \<Rightarrow> string \<Rightarrow> ('w boat, pyval) act" where
  "rd_sonde io n = on_sonde (value_getter (wi_sonde io) (wi_now io) n)"

definition rd_aio :: "'w winch_io \<Rightarrow> string \<Rightarrow> ('w boat, pyval) act" where
  "rd_aio io n = on_aio (value_getter (wi_aio io) (wi_now io) n)"

definition sonde_in_water :: "'w winch_io \<Rightarrow> winch_cfg \<Rightarrow> string \<Rightarrow> ('w boat, bool option) act" where
  "sonde_in_water io cfg instrument s = on_sonde (in_water (wi_sonde io) (wc_sonde cfg) (wi_now io) (wn_err s) instrument) s"

definition sonde_has :: "string \<Rightarrow> ('w boat, bool) act" where
  "sonde_has n = peek (\<lambda>s. case wn_sonde s of None \<Rightarrow> False | Some b \<Rightarrow> has_attr b n)"

text \<open>A reading that must be a number.\<close>

definition number :: "pyval \<Rightarrow> rat res" where
  "number v = (case num_of v of None \<Rightarrow> Inl TypeError | Some x \<Rightarrow> Inr x)"

definition num_mm3 :: "'w winch_io \<Rightarrow> string \<Rightarrow> ('w boat, rat) act" where
  "num_mm3 io n = bnd (rd_mm3 io n) (\<lambda>v. of_res (number v))"

definition num_sonde :: "'w winch_io \<Rightarrow> string \<Rightarrow> ('w boat, rat) act" where
  "num_sonde io n = bnd (rd_sonde io n) (\<lambda>v. of_res (number v))"

section \<open>Conversions\<close>

definition meters_to_clicks :: "winch_cfg \<Rightarrow> rat \<Rightarrow> int" where
  "meters_to_clicks cfg m = trunc (m * wc_clicks_per_meter cfg)"

definition clicks_to_meters :: "winch_cfg \<Rightarrow> int \<Rightarrow> rat" where
  "clicks_to_meters cfg c = of_int c / wc_clicks_per_meter cfg"

section \<open>Limits of the current\<close>

definition sub_dict :: "pyval \<Rightarrow> string \<Rightarrow> pyval res" where
  "sub_dict v k = (case v of PDict d \<Rightarrow> Inr (dget_or d k (PDict [])) | _ \<Rightarrow> Inl AttributeError)"

definition amp_keys :: "(string \<times> string \<times> string) list" where
  "amp_keys = List.product [''up'', ''down''] (List.product [''in'', ''out''] [''low'', ''med'', ''high''])"

definition amp_entry :: "pyval \<Rightarrow> string \<times> string \<times> string \<Rightarrow> int res" where
  "amp_entry conf k =
     (case k of (dir, loc, speed) \<Rightarrow>
        res_bind (sub_dict conf dir) (\<lambda>a. res_bind (sub_dict a loc) (\<lambda>b.
        case b of PDict d \<Rightarrow> py_int (dget_or d speed (PInt 3000)) | _ \<Rightarrow> Inl AttributeError)))"

fun amp_table :: "pyval \<Rightarrow> (string \<times> string \<times> string) list \<Rightarrow> ((string \<times> string \<times> string) \<times> int) list option" where
  "amp_table conf [] = Some []"
| "amp_table conf (k # ks) =
     (case amp_entry conf k of
        Inl e \<Rightarrow> None
      | Inr a \<Rightarrow> map_option (\<lambda>t. (k, a) # t) (amp_table conf ks))"

text \<open>\<open>get_amps_limits\<close>; None stands for the dictionary that only holds the error.\<close>

definition get_amps_limits :: "pyval \<Rightarrow> ((string \<times> string \<times> string) \<times> int) list option" where
  "get_amps_limits conf = amp_table conf amp_keys"

definition speed_type :: "winch_cfg \<Rightarrow> int \<Rightarrow> string option" where
  "speed_type cfg speed =
     (if speed = wc_fast cfg then Some ''high'' else if speed = wc_med cfg then Some ''med''
      else if speed = wc_slow cfg then Some ''low'' else None)"

definition lookup_amps :: "winch_cfg \<Rightarrow> int \<Rightarrow> bool \<Rightarrow> bool \<Rightarrow> (string \<times> pyval) list" where
  "lookup_amps cfg speed up wet =
     (case speed_type cfg speed of
        None \<Rightarrow> [(''error'', PStr ''No match found'')]
      | Some t \<Rightarrow>
          (case wc_amps cfg of
             None \<Rightarrow> [(''error'', exn_value)]
           | Some table \<Rightarrow>
               (case map_of table (if up then ''up'' else ''down'', if wet then ''in'' else ''out'', t) of
                  None \<Rightarrow> [(''error'', exn_value)] | Some a \<Rightarrow> [(''result'', PInt a)])))"

text \<open>Whether the sonde is in the water is found out when the caller does not know.\<close>

definition amps_for_speed :: "'w winch_io \<Rightarrow> winch_cfg \<Rightarrow> pyval \<Rightarrow> bool \<Rightarrow> bool option \<Rightarrow> ('w boat, (string \<times> pyval) list) act" where
  "amps_for_speed io cfg speed up known =
     bnd (case known of
            Some b \<Rightarrow> ret b
          | None \<Rightarrow>
              catching
                (bnd (if up then ret ''depth_m''
                      else bnd (sonde_has ''spcond_mScm'') (\<lambda>h. ret (if h then ''spcond_mScm'' else ''spcond_uScm'')))
                   (\<lambda>i. bnd (sonde_in_water io cfg i) (\<lambda>r. ret (r = Some True))))
                (\<lambda>e. if e = AttributeError then ret True else fail e))
       (\<lambda>wet. bnd (of_res (py_int speed)) (\<lambda>v. ret (lookup_amps cfg v up wet)))"

section \<open>Stop functions\<close>

text \<open>The truth of the result of \<open>_check_wl\<close>: a waterline that cannot be determined is a reason as well.\<close>

definition check_wl :: "'w winch_io \<Rightarrow> winch_cfg \<Rightarrow> bool \<Rightarrow> string \<Rightarrow> ('w boat, bool) act" where
  "check_wl io cfg raising instrument =
     bnd (sonde_in_water io cfg instrument) (\<lambda>r. ret (case r of Some b \<Rightarrow> b \<noteq> raising | None \<Rightarrow> True))"

definition press_wl :: "'w winch_io \<Rightarrow> winch_cfg \<Rightarrow> bool \<Rightarrow> ('w boat, bool) act" where
  "press_wl io cfg raising = check_wl io cfg raising ''depth_m''"

definition cond_wl :: "'w winch_io \<Rightarrow> winch_cfg \<Rightarrow> bool \<Rightarrow> ('w boat, bool) act" where
  "cond_wl io cfg raising =
     bnd (sonde_has ''spcond_mScm'') (\<lambda>m. bnd (sonde_has ''spcond_uScm'') (\<lambda>u.
       check_wl io cfg raising (if u then ''spcond_uScm'' else if m then ''spcond_mScm'' else ''None'')))"

definition any_wl :: "'w winch_io \<Rightarrow> winch_cfg \<Rightarrow> bool \<Rightarrow> ('w boat, bool) act" where
  "any_wl io cfg raising = check_wl io cfg raising ''any''"

definition all_wl :: "'w winch_io \<Rightarrow> winch_cfg \<Rightarrow> bool \<Rightarrow> ('w boat, bool) act" where
  "all_wl io cfg raising = check_wl io cfg raising ''all''"

text \<open>\<open>at_depth\<close>: the depth is read for the test that applies and for the message.\<close>

definition at_depth :: "'w winch_io \<Rightarrow> bool \<Rightarrow> rat \<Rightarrow> ('w boat, bool) act" where
  "at_depth io raising stop =
     bnd (num_sonde io ''depth_m'') (\<lambda>d.
       if (if raising then d \<le> stop else stop \<le> d) then bnd (rd_sonde io ''depth_m'') (\<lambda>_. ret True) else ret False)"

section \<open>Parts of a move\<close>

definition warn_zero :: "'w winch_io \<Rightarrow> string \<Rightarrow> bool \<Rightarrow> ('w boat, pyval) act" where
  "warn_zero io n again = bnd (rd_aio io n) (\<lambda>v. only_if (eq_num v 0 \<and> again) (rd_aio io n) PNone)"

definition move_warnings :: "'w winch_io \<Rightarrow> ('w boat, pyval) act" where
  "move_warnings io =
     bnd (warn_zero io ''reset_MM3'' False) (\<lambda>_. bnd (warn_zero io ''limit_switch_enable'' True) (\<lambda>_.
       warn_zero io ''tension_switch_enable'' True))"

text \<open>The cached value of an item, written without asking the broker.\<close>

definition set_cached :: "string \<Rightarrow> pyval \<Rightarrow> (broker \<times> 'w, unit) act" where
  "set_cached n v bw =
     (case item_of (fst bw) n of
        Inl e \<Rightarrow> (Inl e, bw)
      | Inr i \<Rightarrow> (Inr (), upd_item (di_name i) (\<lambda>i. i\<lparr>di_value := v\<rparr>) (fst bw), snd bw))"

definition winch_move_setup :: "bool \<Rightarrow> bool \<Rightarrow> ('w boat, unit) act" where
  "winch_move_setup limit_stop in_pos =
     bnd (only_if limit_stop (bnd (on_mm3 (set_cached ''neg_limit_switch'' (PInt 0))) (\<lambda>_.
            on_mm3 (set_cached ''pos_limit_switch'' (PInt 0)))) ()) (\<lambda>_.
       only_if in_pos (on_mm3 (set_cached ''in_position'' (PInt 0))) ())"

definition winch_move_finish :: "'w winch_io \<Rightarrow> winch_cfg \<Rightarrow> ('w boat, pyval) act" where
  "winch_move_finish io cfg =
     bnd (on_mm3 (stop_motor (wi_mm3 io) (wc_mm3 cfg) (wi_now io) False)) (\<lambda>r. ret (PDict [(''mm3.stop'', r)]))"

definition int_value :: "pyval \<Rightarrow> int option" where
  "int_value v = map_option trunc (num_of v)"

text \<open>
  \<open>monitor_move\<close>: the two positions are read, then the loop runs over the passes. Passes that do
  not end the loop stand for a loop that goes on; the value for it is no exception of the program.
\<close>

definition endless :: pyexn where
  "endless = UserException ''the loop goes on''"

definition monitor_move :: "'w winch_io \<Rightarrow> winch_cfg \<Rightarrow> mon_opts \<Rightarrow> ('w boat, pyval) act" where
  "monitor_move io cfg opts =
     bnd (rd_mm3 io ''position'') (\<lambda>p. bnd (rd_mm3 io ''desired_position'') (\<lambda>d s.
       case wi_watch io opts s of (ins, s1) \<Rightarrow>
         (case mon_run \<lparr>me_min_speed = wc_min_speed cfg, me_position_db = wc_position_db cfg,
                        me_start_pos = int_value p, me_desired = int_value d\<rparr> opts ins (mon_start (wi_now io) (wi_past io)) of
            None \<Rightarrow> (Inl endless, s1)
          | Some (Inl e) \<Rightarrow> (Inl e, s1)
          | Some (Inr c) \<Rightarrow> (Inr (PDict [(''stop_code'', PStr c), (''stop_desc'', PStr c)]), s1))))"

definition with_stop :: "(string \<times> pyval) list \<Rightarrow> pyval \<Rightarrow> (string \<times> pyval) list" where
  "with_stop res m = res @ [(''monitor_move'', m), (''stop_code'', traverse_tree m ''stop_code''),
     (''stop_desc'', traverse_tree m ''stop_desc'')]"

definition finish_move :: "'w winch_io \<Rightarrow> winch_cfg \<Rightarrow> (string \<times> pyval) list \<Rightarrow> ('w boat, pyval) act" where
  "finish_move io cfg res = bnd (winch_move_finish io cfg) (\<lambda>f. ret (PDict (res @ [(''_winch_move_finish'', f)])))"

text \<open>\<open>pop('result', default)\<close>: the limit that was found, or the controller's own.\<close>

definition pop_amps :: "winch_cfg \<Rightarrow> (string \<times> pyval) list \<Rightarrow> int" where
  "pop_amps cfg r = (case dget r ''result'' of Some (PInt a) \<Rightarrow> a | _ \<Rightarrow> mc_amps_limit (wc_mm3 cfg))"

section \<open>Moves\<close>

definition abs_opts :: "bool \<Rightarrow> string \<Rightarrow> mon_opts" where
  "abs_opts in_pos stop =
     \<lparr>mo_max_stopped = seconds 30, mo_stop_name = stop, mo_max_zero_v = seconds 3, mo_limit_stop = True,
      mo_neg_max = 750000, mo_pos_max = 750000, mo_in_pos = in_pos, mo_in_pos_max = seconds 2, mo_ipc_poll = True\<rparr>"

text \<open>The depth after the move is only logged; the bare \<open>except\<close> catches whatever reading it raises.\<close>

definition log_depth :: "'w winch_io \<Rightarrow> ('w boat, unit) act" where
  "log_depth io =
     bnd (peek (\<lambda>s. case wn_sonde s of None \<Rightarrow> Inl AttributeError | Some b \<Rightarrow> Inr (bk_instr b = Some True))) (\<lambda>r.
     bnd (of_res r) (\<lambda>on. only_if on (catching (bnd (rd_sonde io ''depth_m'') (\<lambda>_. ret ())) (\<lambda>e. ret ())) ()))"

text \<open>The limit of the current of an absolute move, with the entry it leaves in the result.\<close>

definition abs_amps :: "'w winch_io \<Rightarrow> winch_cfg \<Rightarrow> int \<Rightarrow> pyval \<Rightarrow> int option \<Rightarrow> bool option \<Rightarrow>
    ('w boat, (string \<times> pyval) list \<times> int) act" where
  "abs_amps io cfg location speed amps known =
     (case amps of
        Some a \<Rightarrow> if a \<noteq> 0 then ret ([], a) else
          bnd (num_mm3 io ''position'') (\<lambda>p. bnd (amps_for_speed io cfg speed (of_int location \<le> p) known) (\<lambda>r.
            ret ([(''amps_limit'', PDict (dpop r ''result''))], pop_amps cfg r)))
      | None \<Rightarrow>
          bnd (num_mm3 io ''position'') (\<lambda>p. bnd (amps_for_speed io cfg speed (of_int location \<le> p) known) (\<lambda>r.
            ret ([(''amps_limit'', PDict (dpop r ''result''))], pop_amps cfg r))))"

text \<open>The error of the start is an exception object, which has no \<open>get\<close>.\<close>

definition winch_to_absolute :: "'w winch_io \<Rightarrow> winch_cfg \<Rightarrow> int \<Rightarrow> pyval option \<Rightarrow> int option \<Rightarrow> bool option \<Rightarrow> bool \<Rightarrow> string \<Rightarrow>
    ('w boat, pyval) act" where
  "winch_to_absolute io cfg location speed amps known in_pos stop =
     (let v = (case speed of None \<Rightarrow> PInt (mc_default_speed (wc_mm3 cfg)) | Some v \<Rightarrow> v)
      in bnd (move_warnings io) (\<lambda>_.
         bnd (abs_amps io cfg location v amps known) (\<lambda>(r1, a).
         bnd (winch_move_setup False in_pos) (\<lambda>_.
         bnd (on_mm3 (move_to_position (wi_mm3 io) (wc_mm3 cfg) (wi_now io) location (Some v) (Some a) 1)) (\<lambda>m.
         if pget m ''error'' \<noteq> None then fail AttributeError
         else bnd (monitor_move io cfg (abs_opts in_pos stop)) (\<lambda>w.
              bnd (log_depth io) (\<lambda>_.
              finish_move io cfg (with_stop (r1 @ [(''move_to_position'', m)]) w))))))))"

text \<open>
  What the relative move and the one at a speed share: after the start the error of the result is
  looked up with a subscript, which only a missing entry survives; then the move is watched.
\<close>

definition watch_started :: "'w winch_io \<Rightarrow> winch_cfg \<Rightarrow> mon_opts \<Rightarrow> (string \<times> pyval) list \<Rightarrow> pyval \<Rightarrow> ('w boat, pyval) act" where
  "watch_started io cfg opts res m =
     (case pget m ''error'' of
        Some (PDict e) \<Rightarrow>
          (if dhas e ''message'' then finish_move io cfg (res @ [(''monitor_move'', PStr ''error on startup'')])
           else bnd (monitor_move io cfg opts) (\<lambda>w.
                bnd (catching (rd_sonde io ''depth_m'') (\<lambda>e. if e = AttributeError then ret PNone else fail e)) (\<lambda>_.
                finish_move io cfg (with_stop res w))))
      | Some e \<Rightarrow> fail TypeError
      | None \<Rightarrow> bnd (monitor_move io cfg opts) (\<lambda>w.
                bnd (catching (rd_sonde io ''depth_m'') (\<lambda>e. if e = AttributeError then ret PNone else fail e)) (\<lambda>_.
                finish_move io cfg (with_stop res w))))"

datatype distance = Clicks int | Meters rat | Unknown_units

definition rel_opts :: "bool \<Rightarrow> string \<Rightarrow> bool \<Rightarrow> timespan \<Rightarrow> mon_opts" where
  "rel_opts in_pos stop limit_stop max_stopped =
     \<lparr>mo_max_stopped = max_stopped, mo_stop_name = stop, mo_max_zero_v = seconds 3, mo_limit_stop = limit_stop,
      mo_neg_max = seconds 1, mo_pos_max = seconds 1, mo_in_pos = in_pos, mo_in_pos_max = seconds 2, mo_ipc_poll = True\<rparr>"

definition opt_amps :: "'w winch_io \<Rightarrow> winch_cfg \<Rightarrow> pyval \<Rightarrow> bool \<Rightarrow> int option \<Rightarrow> bool option \<Rightarrow>
    ('w boat, (string \<times> pyval) list \<times> int) act" where
  "opt_amps io cfg speed up amps known =
     (case amps of
        Some a \<Rightarrow> ret ([], a)
      | None \<Rightarrow> bnd (amps_for_speed io cfg speed up known) (\<lambda>r.
                  ret ([(''amps_limit'', PDict (dpop r ''result''))], pop_amps cfg r)))"

text \<open>The switches are only looked at for a warning, which reads them again.\<close>

definition switch_warnings :: "'w winch_io \<Rightarrow> int \<Rightarrow> ('w boat, pyval) act" where
  "switch_warnings io sign =
     bnd (rd_mm3 io ''pos_limit_switch'') (\<lambda>p.
       if eq_num p 1 \<and> sign > 0 then rd_mm3 io ''pos_limit_switch''
       else bnd (rd_mm3 io ''neg_limit_switch'') (\<lambda>n. only_if (eq_num n 1 \<and> sign < 0) (rd_mm3 io ''neg_limit_switch'') PNone))"

definition winch_to_relative :: "'w winch_io \<Rightarrow> winch_cfg \<Rightarrow> distance \<Rightarrow> pyval option \<Rightarrow> int option \<Rightarrow> bool option \<Rightarrow> mon_opts \<Rightarrow>
    ('w boat, pyval) act" where
  "winch_to_relative io cfg distance speed amps known opts =
     (let v = (case speed of None \<Rightarrow> PInt (mc_default_speed (wc_mm3 cfg)) | Some v \<Rightarrow> v);
          go = (\<lambda>sign clicks.
            bnd (move_warnings io) (\<lambda>_.
            bnd (opt_amps io cfg v (sign < 0) amps known) (\<lambda>(r1, a).
            bnd (winch_move_setup False False) (\<lambda>_.
            bnd (switch_warnings io sign) (\<lambda>_.
            bnd (on_mm3 (move_to_relative (wi_mm3 io) (wc_mm3 cfg) (wi_now io) clicks
                   (plain_move\<lparr>mo_speed := Some v, mo_amps := Some a\<rparr>))) (\<lambda>m.
            watch_started io cfg opts (r1 @ [(''move_to_relative'', m)]) m))))))
      in case distance of
           Clicks c \<Rightarrow> go (sgn c) c
         | Meters d \<Rightarrow> go (if d > 0 then 1 else if d < 0 then - 1 else 0) (meters_to_clicks cfg d)
         | Unknown_units \<Rightarrow> ret (PInt 0))"

text \<open>
  \<open>move_at_speed\<close>: upwards the speed is made negative before the limit of the current is looked up
  with it.
\<close>

definition speed_opts :: "bool \<Rightarrow> string \<Rightarrow> bool \<Rightarrow> timespan \<Rightarrow> mon_opts" where
  "speed_opts in_pos stop limit_stop max_stopped =
     \<lparr>mo_max_stopped = max_stopped, mo_stop_name = stop, mo_max_zero_v = seconds 10, mo_limit_stop = limit_stop,
      mo_neg_max = seconds 1, mo_pos_max = seconds 1, mo_in_pos = in_pos, mo_in_pos_max = seconds 2, mo_ipc_poll = True\<rparr>"

definition winch_at_speed :: "'w winch_io \<Rightarrow> winch_cfg \<Rightarrow> pyval \<Rightarrow> string \<Rightarrow> int option \<Rightarrow> bool option \<Rightarrow> mon_opts \<Rightarrow>
    ('w boat, pyval) act" where
  "winch_at_speed io cfg speed direction amps known opts =
     (if direction \<noteq> ''up'' \<and> direction \<noteq> ''down'' then ret (PDict [(''Error'', PStr ''error'')])
      else bnd (of_res (py_int speed)) (\<lambda>n.
        let v = (if direction = ''up'' then - \<bar>n\<bar> else \<bar>n\<bar>)
        in bnd (move_warnings io) (\<lambda>_.
           bnd (opt_amps io cfg (PInt v) (direction = ''up'') amps known) (\<lambda>(r1, a).
           bnd (winch_move_setup False False) (\<lambda>_.
           bnd (on_mm3 (move_at_speed (wi_mm3 io) (wc_mm3 cfg) (wi_now io) v direction (Some a) True)) (\<lambda>m.
           watch_started io cfg opts (r1 @ [(''move_at_speed'', m)]) m))))))"

section \<open>Moving to a depth\<close>

definition clamp_depth :: "winch_cfg \<Rightarrow> rat \<Rightarrow> rat" where
  "clamp_depth cfg desired = (if desired > wc_max_depth cfg then wc_max_depth cfg else desired)"

text \<open>
  \<open>move_to_depth\<close>. A sonde that is not sampling is started, and since the answer, a dictionary, is
  compared with the text ok, that ends the method. The depth is read for the distance, for each of
  the comparisons and for a message.
\<close>

definition not_connected :: "('w boat, bool) act" where
  "not_connected s =
     (case wn_sonde s of None \<Rightarrow> (Inl AttributeError, s) | Some b \<Rightarrow> (Inr (bk_instr b = Some False), s))"

definition refresh_depth :: "'w winch_io \<Rightarrow> ('w boat, pyval) act" where
  "refresh_depth io =
     on_sonde (bnd (get_sub ''depth_m'') (\<lambda>b. only_if (b \<noteq> Some True) (get_value (wi_sonde io) [''depth_m''] False None) PNone))"

definition go_to_depth :: "'w winch_io \<Rightarrow> winch_cfg \<Rightarrow> int \<Rightarrow> pyval option \<Rightarrow> int option \<Rightarrow> mon_opts \<Rightarrow> ('w boat, pyval) act" where
  "go_to_depth io cfg clicks speed amps opts =
     bnd (move_warnings io) (\<lambda>_. bnd (winch_to_relative io cfg (Clicks clicks) speed amps None opts) (\<lambda>r.
       ret (PDict [(''self.move_to_relative'', r)])))"

definition winch_to_depth :: "'w winch_io \<Rightarrow> winch_cfg \<Rightarrow> rat \<Rightarrow> pyval option \<Rightarrow> int option \<Rightarrow> mon_opts \<Rightarrow> ('w boat, pyval) act" where
  "winch_to_depth io cfg desired speed amps opts =
     bnd not_connected (\<lambda>off.
     if off \<or> desired \<le> 0 then ret (PDict [])
     else bnd (rd_sonde io ''sampling'') (\<lambda>s.
       if \<not> eq_num s 1
       then bnd (rd_sonde io ''sampling'') (\<lambda>_. bnd (on_sonde (start_sampling (wi_sonde io) (wc_sonde cfg))) (\<lambda>x.
              ret (PDict [(''sonde.start_sampling'', x)])))
       else (let target = clamp_depth cfg desired
             in bnd (refresh_depth io) (\<lambda>_.
                bnd (num_sonde io ''depth_m'') (\<lambda>d1.
                let n = meters_to_clicks cfg \<bar>target - d1\<bar>
                in bnd (num_sonde io ''depth_m'') (\<lambda>d2.
                   bnd (num_sonde io ''depth_m'') (\<lambda>d3.
                   if d2 < target then go_to_depth io cfg n speed amps opts
                   else if d3 > target then go_to_depth io cfg (- n) speed amps opts
                   else bnd (rd_sonde io ''depth_m'') (\<lambda>_. ret (PDict [])))))))))"

section \<open>Parking\<close>

text \<open>The conductivity near the surface; the last of the two units counts, neither is a NameError.\<close>

definition surface_cond :: "'w winch_io \<Rightarrow> winch_cfg \<Rightarrow> ('w boat, pyval) act" where
  "surface_cond io cfg =
     bnd (sonde_in_water io cfg ''all'') (\<lambda>wet.
     if wet \<noteq> Some True then bnd (rd_mm3 io ''position'') (\<lambda>_. ret PNone)
     else bnd (sonde_has ''spcond_mScm'') (\<lambda>m. bnd (only_if m (rd_sonde io ''spcond_mScm'') PNone) (\<lambda>c1.
          bnd (sonde_has ''spcond_uScm'') (\<lambda>u. bnd (only_if u (rd_sonde io ''spcond_uScm'') c1) (\<lambda>c2.
          if m \<or> u then bnd (rd_sonde io ''depth_m'') (\<lambda>_. ret c2) else fail (UserException ''NameError''))))))"

text \<open>
  \<open>park\<close>: fast to the slow-down position if the winch is deeper, then slowly to the end. The part
  behind the last move is guarded by the negation of a data item, an object that is always true,
  so it never runs.
\<close>

definition park :: "'w winch_io \<Rightarrow> winch_cfg \<Rightarrow> int \<Rightarrow> int option \<Rightarrow> bool \<Rightarrow> bool \<Rightarrow> ('w boat, pyval) act" where
  "park io cfg location speed surface in_pos =
     bnd (rd_mm3 io ''position'') (\<lambda>_.
     bnd not_connected (\<lambda>off.
     bnd (num_mm3 io ''position'') (\<lambda>p.
     bnd (if p > of_int (wc_slowdown_position cfg)
          then bnd (winch_to_absolute io cfg (wc_slowdown_position cfg)
                      (Some (PInt (case speed of None \<Rightarrow> wc_fast cfg | Some v \<Rightarrow> v))) None (Some True) in_pos ''any_wl'')
                 (\<lambda>r. ret [(''winch.move_to_absolute(fast)'', r)])
          else ret []) (\<lambda>r1.
     bnd (only_if (surface \<and> \<not> off) (surface_cond io cfg) PNone) (\<lambda>c.
     bnd (winch_to_absolute io cfg location (Some (PInt (case speed of None \<Rightarrow> wc_slow cfg | Some v \<Rightarrow> v))) None (Some False) in_pos ''null'')
       (\<lambda>r2. bnd (peek (\<lambda>s. has_attr (wn_mm3 s) ''in_position'')) (\<lambda>h.
        if h then ret (PDict (r1 @ [(''surface_spcond'', c), (''winch.move_to_absolute'', r2)])) else fail AttributeError)))))))"

section \<open>Calibration\<close>

definition fatal_faults :: "string list" where
  "fatal_faults = [''pos_limit_switch'', ''temp_fault'', ''kbhit'', ''ipc_conn'']"

definition is_fatal :: "pyval \<Rightarrow> bool" where
  "is_fatal c \<longleftrightarrow> c \<in> set (map PStr fatal_faults)"

text \<open>
  Raising until the switch trips: the attempts that are left, and whether to go on with the
  calibration, give it up because of a fault, or because there were too many attempts.
\<close>

definition at_top :: "'w winch_io \<Rightarrow> ('w boat, bool) act" where
  "at_top io = bnd (rd_mm3 io ''neg_limit_switch'') (\<lambda>v. ret (v \<noteq> PInt 0))"

fun raise_to_top :: "nat \<Rightarrow> 'w winch_io \<Rightarrow> winch_cfg \<Rightarrow> ('w boat, bool) act" where
  "raise_to_top 0 io cfg = ret False"
| "raise_to_top (Suc n) io cfg =
     bnd (at_top io) (\<lambda>top.
     if top then ret True
     else bnd (winch_to_relative io cfg (Clicks (- wc_clicks_per_rev cfg)) (Some (PInt (wc_slow cfg))) None (Some False)
                 (rel_opts False ''null'' True (seconds 2))) (\<lambda>r.
          if is_fatal (traverse_tree r ''stop_code'') then ret False
          else bnd (catching (rd_sonde io ''depth_m'') (\<lambda>e. if e = AttributeError then ret PNone else fail e)) (\<lambda>_.
               raise_to_top n io cfg)))"

definition store_zero :: "'w winch_io \<Rightarrow> ('w boat, pyval) act" where
  "store_zero io = bnd (rd_mm3 io ''position'') (\<lambda>_. on_mm3 (store_position (wi_mm3 io) (wi_now io) (Some 0)))"

text \<open>An entry of the section \<open>winch\<close> of the configuration, and its integer value.\<close>

definition put_conf :: "string \<Rightarrow> pyval \<Rightarrow> ('w boat, unit) act" where
  "put_conf k v = modify (\<lambda>s. s\<lparr>wn_conf := dset (wn_conf s) k v\<rparr>)"

definition conf_int :: "string \<Rightarrow> ('w boat, int) act" where
  "conf_int k s = ((case dget (wn_conf s) k of None \<Rightarrow> Inl (KeyError k) | Some v \<Rightarrow> py_int v), s)"

text \<open>Lowering to a waterline: if the stop function ended the move, the position is kept under the given keys.\<close>

definition find_waterline :: "'w winch_io \<Rightarrow> winch_cfg \<Rightarrow> int \<Rightarrow> string \<Rightarrow> string list \<Rightarrow> ('w boat, unit) act" where
  "find_waterline io cfg location stop keys =
     bnd (winch_to_absolute io cfg location (Some (PInt (wc_slow cfg))) None (Some False) False stop) (\<lambda>r.
     if traverse_tree r ''stop_code'' = PStr ''stop_funct''
     then foldr (\<lambda>k rest. bnd (bnd (rd_mm3 io ''position'') (put_conf k)) (\<lambda>_. rest)) keys (ret ())
     else ret ())"

definition waterlines :: "'w winch_io \<Rightarrow> winch_cfg \<Rightarrow> int \<Rightarrow> ('w boat, unit) act" where
  "waterlines io cfg end_pos =
     (let step = \<bar>wc_clicks_per_rev cfg\<bar>
      in bnd (peek wn_wl_cond) (\<lambda>c. bnd (find_waterline io cfg (c + step) ''any_wl'' [''wl_cond_position'']) (\<lambda>_.
         bnd (peek wn_wl_press) (\<lambda>q. bnd (num_mm3 io ''position'') (\<lambda>p.
         bnd (find_waterline io cfg (max q (trunc p) + step) ''press_wl'' [''wl_press_position'', ''wl_position'']) (\<lambda>_.
         bnd (conf_int ''wl_cond_position'') (\<lambda>a. bnd (modify (\<lambda>s. s\<lparr>wn_wl_cond := a\<rparr>)) (\<lambda>_.
         bnd (conf_int ''wl_press_position'') (\<lambda>a. bnd (modify (\<lambda>s. s\<lparr>wn_wl_press := a\<rparr>)) (\<lambda>_.
         bnd (conf_int ''wl_position'') (\<lambda>a. bnd (modify (\<lambda>s. s\<lparr>wn_wl := a\<rparr>)) (\<lambda>_.
         bnd (park io cfg end_pos (Some (wc_slow cfg)) False False) (\<lambda>_.
         bnd (rd_sonde io ''depth_m'') (\<lambda>_. ret ()))))))))))))))"

definition calibrate_sonde :: "'w winch_io \<Rightarrow> winch_cfg \<Rightarrow> cal_times \<Rightarrow> ('w boat, pyval) act" where
  "calibrate_sonde io cfg ct s =
     (case wn_sonde s of
        None \<Rightarrow> (Inl AttributeError, s)
      | Some b0 \<Rightarrow>
          (case calibrate_pressure (wi_sonde io) (wc_sonde cfg) ct False None (wn_err s, b0, wn_world s) of
             (r, p, b, w) \<Rightarrow> (r, s\<lparr>wn_sonde := Some b, wn_err := p, wn_world := w\<rparr>)))"

text \<open>
  \<open>calibration\<close>; the value tells how far it got: up to the switch, the zero position, the pressure,
  the water lines. The argument \<open>instrumnet\<close> of the test for water is misspelt and ignored, so the
  test is the default one.
\<close>

datatype cal_result = Fault | No_sonde pyval | Wet | Pressure pyval pyval | Waterlines pyval pyval

definition calibration :: "'w winch_io \<Rightarrow> winch_cfg \<Rightarrow> cal_times \<Rightarrow> bool \<Rightarrow> int \<Rightarrow> ('w boat, cal_result) act" where
  "calibration io cfg ct do_wl end_pos =
     bnd (num_mm3 io ''position'') (\<lambda>p.
     bnd (park io cfg (trunc (min (p + of_int (wc_clicks_per_rev cfg)) (- of_int (wc_clicks_per_rev cfg)))) (Some (wc_slow cfg)) False False) (\<lambda>r.
     if is_fatal (traverse_tree r ''stop_code'') then ret Fault
     else bnd (raise_to_top 11 io cfg) (\<lambda>ok.
     if \<not> ok then ret Fault
     else bnd not_connected (\<lambda>off.
     if off then bnd (store_zero io) (\<lambda>z. ret (No_sonde z))
     else bnd (sonde_in_water io cfg ''all'') (\<lambda>wet.
     if wet \<noteq> Some False then ret Wet
     else bnd (store_zero io) (\<lambda>z. bnd (calibrate_sonde io cfg ct) (\<lambda>c.
          if do_wl then bnd (waterlines io cfg end_pos) (\<lambda>_. ret (Waterlines z c)) else ret (Pressure z c))))))))"

section \<open>Construction\<close>

text \<open>
  \<open>_add_subscriptions\<close> and the constructor: what is not subscribed yet is subscribed, a sonde is
  told to sample, the positions of the waterlines are taken from the configuration, and the two
  faults of the motor get the callback \<open>motor_cb\<close>, here the number 0.
\<close>

definition subscribe_missing :: "'w rpc_fun \<Rightarrow> string list \<Rightarrow> (broker \<times> 'w, pyval) act" where
  "subscribe_missing rpc names =
     bnd (peek (\<lambda>bw. filter (\<lambda>n. \<not> dhas (bk_subs (fst bw)) n) names)) (\<lambda>new.
       only_if (new \<noteq> []) (add_subscriptions rpc new on_change None) PNone)"

definition required_mm3 :: "string list" where
  "required_mm3 = [''current_limit'', ''desired_position'', ''in_position'', ''position'', ''velocity'', ''neg_limit_switch'',
     ''pos_limit_switch'', ''pwm_out'', ''PWM_limited'', ''amps'', ''amps_limit'', ''temp_fault'']"

definition desired_aio :: "string list" where
  "desired_aio = [''relay_5V'', ''reset_MM3'', ''limit_switch_enable'', ''tension_switch_enable'', ''voltage_ADC'']"

definition conf_position :: "string \<Rightarrow> int \<Rightarrow> ('w boat, int) act" where
  "conf_position k x s = ((case dget (wn_conf s) k of None \<Rightarrow> Inr x | Some v \<Rightarrow> py_int v), s)"

definition winch_init :: "'w winch_io \<Rightarrow> winch_cfg \<Rightarrow> ('w boat, unit) act" where
  "winch_init io cfg =
     bnd (conf_position ''wl_position'' 49000) (\<lambda>a. bnd (modify (\<lambda>s. s\<lparr>wn_wl := a\<rparr>)) (\<lambda>_.
     bnd (conf_position ''wl_press_position'' 48000) (\<lambda>a. bnd (modify (\<lambda>s. s\<lparr>wn_wl_press := a\<rparr>)) (\<lambda>_.
     bnd (conf_position ''wl_cond_position'' 35000) (\<lambda>a. bnd (modify (\<lambda>s. s\<lparr>wn_wl_cond := a\<rparr>)) (\<lambda>_.
     bnd (on_mm3 (subscribe_missing (io_rpc (wi_mm3 io)) required_mm3)) (\<lambda>_.
     bnd (peek wn_sonde) (\<lambda>sonde.
     bnd (case sonde of
            None \<Rightarrow> ret PNone
          | Some b \<Rightarrow>
              bnd (on_sonde (start_sampling (wi_sonde io) (wc_sonde cfg))) (\<lambda>_.
              on_sonde (subscribe_missing (wi_sonde io)
                ([''depth_m'', ''sampling''] @ filter (has_attr b) [''spcond_mScm'', ''spcond_uScm''])))) (\<lambda>_.
     bnd (on_aio (subscribe_missing (wi_aio io) desired_aio)) (\<lambda>_.
     modify (\<lambda>s. s\<lparr>wn_mm3 := add_callback [(''current_limit'', 0), (''temp_fault'', 0)] (wn_mm3 s)\<rparr>)))))))))))"

section \<open>Lemmas\<close>

lemma bnd_InrE:
  assumes "bnd m f s = (Inr r, s')"
  obtains x s1 where "m s = (Inr x, s1)" "f x s1 = (Inr r, s')"
  using assms by (auto simp: bnd_def split: prod.splits sum.splits)

lemma trunc_bounds: "0 \<le> q \<Longrightarrow> of_int (trunc q) \<le> q \<and> q < of_int (trunc q) + 1"
  using floor_correct[of q] by (simp add: trunc_def)

text \<open>The clicks of a distance lie within one click below it.\<close>

lemma clicks_bounds:
  assumes "0 < wc_clicks_per_meter cfg" "0 \<le> m"
  shows "clicks_to_meters cfg (meters_to_clicks cfg m) \<le> m" "m < clicks_to_meters cfg (meters_to_clicks cfg m) + 1 / wc_clicks_per_meter cfg"
    "0 \<le> clicks_to_meters cfg (meters_to_clicks cfg m)"
proof -
  let ?k = "wc_clicks_per_meter cfg" and ?n = "meters_to_clicks cfg m"
  have "0 \<le> m * ?k" using assms by simp
  then have b: "of_int ?n \<le> m * ?k" "m * ?k < of_int ?n + 1" and n: "0 \<le> ?n"
    using trunc_bounds[of "m * ?k"] by (simp_all add: meters_to_clicks_def trunc_def not_less)
  show "clicks_to_meters cfg ?n \<le> m" using b(1) assms(1) by (simp add: clicks_to_meters_def field_simps)
  show "m < clicks_to_meters cfg ?n + 1 / ?k" using b(2) assms(1) by (simp add: clicks_to_meters_def field_simps)
  show "0 \<le> clicks_to_meters cfg ?n" using n assms(1) by (simp add: clicks_to_meters_def)
qed

lemma read_current:
  assumes "wn_sonde s = Some b" "current b (wi_now io) n v"
  shows "rd_sonde io n s = (Inr v, s)"
  using assms current_read[OF assms(2), of "wi_sonde io" "wn_world s"]
  by (cases s) (simp add: rd_sonde_def on_sonde_def)

lemma num_current:
  assumes "wn_sonde s = Some b" "current b (wi_now io) n (PFloat x)"
  shows "num_sonde io n s = (Inr x, s)"
  using read_current[OF assms] by (simp add: num_sonde_def bnd_def of_res_def number_def)

lemma refresh_current:
  assumes "wn_sonde s = Some b" "current b (wi_now io) ''depth_m'' v"
  shows "refresh_depth io s = (Inr PNone, s)"
proof -
  have "get_sub ''depth_m'' (b, wn_world s) = (Inr (Some True), b, wn_world s)"
    using assms(2) by (auto simp: current_def get_sub_def item_of_def split: option.splits)
  then show ?thesis using assms(1)
    by (cases s) (simp add: refresh_depth_def on_sonde_def bnd_def only_if_def ret_def)
qed

section \<open>Properties\<close>


text \<open>
  C19. An absolute move that returns tells the code for which the watching loop ended, and the last
  thing it did was to stop the motor.
\<close>

theorem move_ends_with_stop:
  assumes "winch_to_absolute io cfg location speed amps known in_pos stop s = (Inr r, s')"
  shows "\<exists>res c f s1. r = PDict (res @ [(''stop_code'', PStr c), (''stop_desc'', PStr c), (''_winch_move_finish'', PDict [(''mm3.stop'', f)])]) \<and>
    on_mm3 (stop_motor (wi_mm3 io) (wc_mm3 cfg) (wi_now io) False) s1 = (Inr f, s')"
proof -
  obtain r1 a m s2 where "(if pget m ''error'' \<noteq> None then fail AttributeError
         else bnd (monitor_move io cfg (abs_opts in_pos stop)) (\<lambda>w. bnd (log_depth io) (\<lambda>_.
              finish_move io cfg (with_stop (r1 @ [(''move_to_position'', m)]) w)))) s2 = (Inr r, s')"
    using assms unfolding winch_to_absolute_def Let_def
    by (elim bnd_InrE) (simp split: prod.splits, elim bnd_InrE, blast)
  then have g: "bnd (monitor_move io cfg (abs_opts in_pos stop)) (\<lambda>w. bnd (log_depth io) (\<lambda>_.
              finish_move io cfg (with_stop (r1 @ [(''move_to_position'', m)]) w))) s2 = (Inr r, s')"
    by (simp add: fail_def split: if_splits)
  then obtain w s3 s4 where w: "monitor_move io cfg (abs_opts in_pos stop) s2 = (Inr w, s3)"
    and f: "finish_move io cfg (with_stop (r1 @ [(''move_to_position'', m)]) w) s4 = (Inr r, s')"
    by (elim bnd_InrE)
  obtain c where c: "w = PDict [(''stop_code'', PStr c), (''stop_desc'', PStr c)]"
    using w unfolding monitor_move_def
    by (elim bnd_InrE) (auto split: prod.splits option.splits sum.splits)
  obtain x s5 where x: "on_mm3 (stop_motor (wi_mm3 io) (wc_mm3 cfg) (wi_now io) False) s4 = (Inr x, s5)"
    and "ret (PDict [(''mm3.stop'', x)]) s5 = (Inr y, s6) \<Longrightarrow> s6 = s5 \<and> y = PDict [(''mm3.stop'', x)]" for y s6
    using f unfolding finish_move_def winch_move_finish_def by (elim bnd_InrE) (auto simp: ret_def)
  then have "r = PDict (with_stop (r1 @ [(''move_to_position'', m)]) w @ [(''_winch_move_finish'', PDict [(''mm3.stop'', x)])])" "s' = s5"
    using f by (auto simp: finish_move_def winch_move_finish_def bnd_def ret_def)
  then show ?thesis
    using x by (intro exI[of _ "r1 @ [(''move_to_position'', m), (''monitor_move'', w)]"] exI[of _ c] exI[of _ x] exI[of _ s4])
      (simp add: with_stop_def c)
qed

text \<open>
  Raising at a speed always uses the controller's own limit of the current: the speed has been
  made negative before it is compared with the speeds of the configuration, and no entry of the
  table for raising is ever used.
\<close>

theorem raising_ignores_table:
  assumes "0 < wc_slow cfg" "0 < wc_med cfg" "0 < wc_fast cfg" "signed_speed speed ''up'' = Some v"
    and "opt_amps io cfg (PInt v) True None known s = (Inr (r, a), s')"
  shows "a = mc_amps_limit (wc_mm3 cfg)"
proof -
  have "v \<le> 0" using assms(4) by (simp add: signed_speed_def)
  then have "speed_type cfg v = None" using assms(1-3) by (simp add: speed_type_def)
  then have "lookup_amps cfg v True wet = [(''error'', PStr ''No match found'')]" for wet by (simp add: lookup_amps_def)
  then show ?thesis using assms(5) unfolding opt_amps_def amps_for_speed_def
    by (auto elim!: bnd_InrE simp: ret_def of_res_def pop_amps_def)
qed

section \<open>Witnesses\<close>

definition demo_winch :: winch_cfg where
  "demo_winch = \<lparr>wc_slow = 5, wc_med = 10, wc_fast = 15, wc_slowdown_position = 80000, wc_position_db = 100, wc_max_depth = 8,
     wc_clicks_per_meter = 318310, wc_clicks_per_rev = 320000, wc_min_speed = 1, wc_amps = None, wc_mm3 = default_cfg,
     wc_sonde = default_sonde\<rparr>"

definition demo_client :: "string list \<Rightarrow> broker" where
  "demo_client ns = demo_broker\<lparr>bk_token := True,
     bk_attrs := map (\<lambda>n. (n, AItem n)) (ns @ move_params),
     bk_items := map (\<lambda>n. (n, demo_reading n (PInt 1))) ns @ map (\<lambda>n. (n, demo_item n ''RW'' PNone)) move_params\<rparr>"

definition demo_boat :: "pyval list boat" where
  "demo_boat = \<lparr>wn_mm3 = demo_client [''position'', ''desired_position''], wn_sonde = Some (demo_sonde ''spcond_mScm'' 0), wn_err = 0,
     wn_aio = demo_client [''reset_MM3'', ''limit_switch_enable'', ''tension_switch_enable''], wn_conf = [],
     wn_wl_cond = 35000, wn_wl_press = 48000, wn_wl = 49000, wn_world = []\<rparr>"

text \<open>A key is pressed during the second pass.\<close>

definition demo_winch_io :: "pyval list winch_io" where
  "demo_winch_io = \<lparr>wi_mm3 = demo_io, wi_sonde = script_rpc, wi_aio = script_rpc,
     wi_watch = (\<lambda>opts s. ([demo_input 100000 5 400, (demo_input 200000 5 500)\<lparr>mi_key := True\<rparr>, demo_input 300000 5 600], s)),
     wi_now = 0, wi_past = -1\<rparr>"

lemma demo_winch_depth:
  "current (demo_sonde ''spcond_mScm'' 0) 0 ''sampling'' (PBool True)" "current (demo_sonde ''spcond_mScm'' 0) 0 ''depth_m'' (PFloat 0)"
  "bk_instr (demo_sonde ''spcond_mScm'' 0) \<noteq> Some False"
  by code_simp+


lemma demo_move:
  "\<exists>r s'. winch_to_absolute demo_winch_io demo_winch 1000 None None (Some True) False ''null'' demo_boat = (Inr r, s')"
proof -
  have "(case fst (winch_to_absolute demo_winch_io demo_winch 1000 None None (Some True) False ''null'' demo_boat) of Inr r \<Rightarrow> True | Inl e \<Rightarrow> False)"
    by code_simp
  then show ?thesis
    by (cases "winch_to_absolute demo_winch_io demo_winch 1000 None None (Some True) False ''null'' demo_boat")
      (simp split: sum.splits)
qed

theorem move_ends_with_stop_witness:
  "\<exists>f s1 s'. on_mm3 (stop_motor (wi_mm3 demo_winch_io) (wc_mm3 demo_winch) (wi_now demo_winch_io) False) s1 = (Inr f, s') \<and>
     snd (winch_to_absolute demo_winch_io demo_winch 1000 None None (Some True) False ''null'' demo_boat) = s'"
proof -
  obtain r s' where m: "winch_to_absolute demo_winch_io demo_winch 1000 None None (Some True) False ''null'' demo_boat = (Inr r, s')"
    using demo_move by blast
  from move_ends_with_stop[OF m] m show ?thesis by auto
qed

theorem raising_ignores_table_witness:
  "fst (opt_amps demo_winch_io demo_winch (PInt (- 15)) True None (Some True) demo_boat) =
     Inr ([(''amps_limit'', PDict [(''error'', PStr ''No match found'')])], 3500)"
proof -
  have 1: "0 < wc_slow demo_winch" "0 < wc_med demo_winch" "0 < wc_fast demo_winch" "signed_speed 15 ''up'' = Some (- 15)"
    "mc_amps_limit (wc_mm3 demo_winch) = 3500"
    by (simp_all add: demo_winch_def signed_speed_def default_cfg_def)
  have 2: "opt_amps demo_winch_io demo_winch (PInt (- 15)) True None (Some True) demo_boat =
      (Inr ([(''amps_limit'', PDict [(''error'', PStr ''No match found'')])], pop_amps demo_winch [(''error'', PStr ''No match found'')]), demo_boat)"
    by (simp add: opt_amps_def amps_for_speed_def lookup_amps_def speed_type_def demo_winch_def ret_def of_res_def bnd_def dpop_def)
  from raising_ignores_table[OF 1(1-4) 2] show ?thesis using 2 1(5) by simp
qed

end
