(* ===== verification/Cast.thy ===== *)
theory Cast
  imports Launcher Samplers Winch
begin

text \<open>
  One cast: class \<open>Cast\<close> of src/python/avp_cast.py, from \<open>pre_config\<close> to \<open>finish_cast\<close>. The state
  holds the clients the cast drives and the attributes of the object; every phase of the
  procedure is one operation, and \<open>start_cast\<close> runs them in the order of \<open>start\<close>. The
  dictionaries of results that the phases return for the log are left out, and so are the
  messages; what a message reads from a client stays.
\<close>

section \<open>State and surroundings\<close>

record 'w fleet =
  fl_boat :: "'w boat"
  fl_sounder :: broker
  fl_gps :: "broker option"
  fl_lisst :: broker
  fl_isco :: broker

text \<open>\<open>lisst_cast\<close> is True, False or the text aborted.\<close>

datatype lisst_state = Lisst_no | Lisst_yes | Lisst_aborted

text \<open>
  \<open>cs_has\<close> lists the attributes that hold an object by now; \<open>cs_gps\<close> is None for a missing
  attribute, \<open>Some False\<close> for one that is None. \<open>cs_status\<close> collects the values written to the
  status column, the newest last. \<open>cs_cfg\<close> belongs to the sonde and the winch, whose threshold of
  the conductivity a cast changes.
\<close>

record 'w cast =
  cs_fleet :: "'w fleet"
  cs_cfg :: winch_cfg
  cs_has :: "string list"
  cs_gps :: "bool option"
  cs_abort :: "(string \<times> pyval) list"
  cs_lisst :: lisst_state
  cs_isco :: bool
  cs_profile :: bool
  cs_sample_time :: flt
  cs_depth_target :: rat
  cs_cast_number :: "int option"
  cs_cast_time :: instant
  cs_bottle :: int
  cs_volume :: int
  cs_wipe :: bool
  cs_over_cast :: rat
  cs_pre_cal :: bool
  cs_park_pos :: string
  cs_debug :: bool
  cs_bottom_strike :: bool
  cs_adjusted :: "rat option"
  cs_started :: nat
  cs_completed :: nat
  cs_status :: "string list"

text \<open>
  The surroundings: for each phase the channels and the clock of the clients, what
  \<open>context.startup\<close> makes of the clients, what brokers and other threads do while a phase begins
  or pauses, and what the database answers. \<open>ci_wipe_polls\<close> and \<open>ci_isco_polls\<close> are the instants
  of the passes of the two waiting loops.
\<close>

record 'w cast_io =
  ci_winch :: "string \<Rightarrow> 'w winch_io"
  ci_sounder :: "'w rpc_fun"
  ci_gps :: "'w rpc_fun"
  ci_lisst :: "'w rpc_fun"
  ci_isco :: "'w rpc_fun"
  ci_startup :: "string list \<Rightarrow> 'w fleet \<Rightarrow> pyexn option \<times> 'w fleet"
  ci_reload :: "'w fleet \<Rightarrow> pyexn option \<times> 'w fleet"
  ci_tick :: "string \<Rightarrow> 'w fleet \<Rightarrow> 'w fleet"
  ci_open_db :: "pyexn option"
  ci_insert :: "pyexn option"
  ci_max_no :: "int option res"
  ci_update :: "pyexn option"
  ci_wipe_polls :: "instant list"
  ci_isco_polls :: "instant list"
  ci_cal :: cal_times

record cast_cfg =
  kc_program :: string
  kc_relay_on :: rat
  kc_relay_off :: rat
  kc_cal_position :: int
  kc_cable :: rat
  kc_instr_offset :: rat
  kc_bottom_offset :: rat
  kc_target_error :: rat
  kc_lisst :: lisst_cfg
  kc_latency :: int
  kc_level_min :: rat
  kc_level_warn :: rat
  kc_isco_timeout :: int

section \<open>Operations on the parts\<close>

text \<open>Operations one after the other, for their effect.\<close>

definition steps :: "('s, unit) act list \<Rightarrow> ('s, unit) act" where
  "steps ms = foldr (\<lambda>m rest. bnd m (\<lambda>_. rest)) ms (ret ())"

definition ignoring :: "('s, 'a) act \<Rightarrow> ('s, unit) act" where
  "ignoring m = bnd m (\<lambda>_. ret ())"

text \<open>A call that only raises or returns.\<close>

definition raising :: "('s \<Rightarrow> pyexn option \<times> 's) \<Rightarrow> ('s, unit) act" where
  "raising f s = (case f s of (None, t) \<Rightarrow> (Inr (), t) | (Some e, t) \<Rightarrow> (Inl e, t))"

definition answers :: "pyexn option \<Rightarrow> ('s, unit) act" where
  "answers x = (case x of None \<Rightarrow> ret () | Some e \<Rightarrow> fail e)"

lemma steps_simps [simp]: "steps [] = ret ()" "steps (m # ms) = bnd m (\<lambda>_. steps ms)"
  by (simp_all add: steps_def)

context kept
begin

lemma k_steps: "(\<And>m. m \<in> set ms \<Longrightarrow> keeps R m) \<Longrightarrow> keeps R (steps ms)"
  by (induction ms) (auto intro!: k_ret k_bnd)

lemma k_ignoring: "keeps R m \<Longrightarrow> keeps R (ignoring m)"
  by (auto simp: ignoring_def intro!: k_bnd k_ret)

end

definition on_fleet :: "('w fleet, 'a) act \<Rightarrow> ('w cast, 'a) act" where
  "on_fleet m s = (case m (cs_fleet s) of (r, f) \<Rightarrow> (r, s\<lparr>cs_fleet := f\<rparr>))"

definition on_boat :: "('w boat, 'a) act \<Rightarrow> ('w cast, 'a) act" where
  "on_boat m = on_fleet (\<lambda>f. case m (fl_boat f) of (r, b) \<Rightarrow> (r, f\<lparr>fl_boat := b\<rparr>))"

text \<open>An attribute of the cast that has not been set yet raises.\<close>

definition needs :: "string \<Rightarrow> ('w cast, 'a) act \<Rightarrow> ('w cast, 'a) act" where
  "needs n m = bnd (peek (\<lambda>s. n \<in> set (cs_has s))) (\<lambda>h. if h then m else fail AttributeError)"

definition got :: "string \<Rightarrow> ('w cast, unit) act" where
  "got n = modify (\<lambda>s. s\<lparr>cs_has := List.insert n (cs_has s)\<rparr>)"

definition lost :: "string \<Rightarrow> ('w cast, unit) act" where
  "lost n = modify (\<lambda>s. s\<lparr>cs_has := removeAll n (cs_has s)\<rparr>)"

definition by_winch :: "('w boat, 'a) act \<Rightarrow> ('w cast, 'a) act" where
  "by_winch m = needs ''winch'' (on_boat m)"

definition by_aio :: "(broker \<times> 'w, 'a) act \<Rightarrow> ('w cast, 'a) act" where
  "by_aio m = needs ''aio'' (on_boat (on_aio m))"

definition by_mm3 :: "(broker \<times> 'w, 'a) act \<Rightarrow> ('w cast, 'a) act" where
  "by_mm3 m = needs ''mm3'' (on_boat (on_mm3 m))"

definition by_sonde :: "(broker \<times> 'w, 'a) act \<Rightarrow> ('w cast, 'a) act" where
  "by_sonde m = needs ''sonde'' (on_boat (on_sonde m))"

text \<open>A client that is not part of the winch, with the world the brokers live in.\<close>

definition on_part :: "('w fleet \<Rightarrow> broker) \<Rightarrow> (broker \<Rightarrow> 'w fleet \<Rightarrow> 'w fleet) \<Rightarrow> (broker \<times> 'w, 'a) act \<Rightarrow> ('w cast, 'a) act" where
  "on_part get put m =
     on_fleet (\<lambda>f. case m (get f, wn_world (fl_boat f)) of
       (r, b, w) \<Rightarrow> (r, put b (f\<lparr>fl_boat := (fl_boat f)\<lparr>wn_world := w\<rparr>\<rparr>)))"

definition by_sounder :: "(broker \<times> 'w, 'a) act \<Rightarrow> ('w cast, 'a) act" where
  "by_sounder m = needs ''sounder'' (on_part fl_sounder (\<lambda>b f. f\<lparr>fl_sounder := b\<rparr>) m)"

definition by_lisst :: "(broker \<times> 'w, 'a) act \<Rightarrow> ('w cast, 'a) act" where
  "by_lisst m = needs ''lisst'' (on_part fl_lisst (\<lambda>b f. f\<lparr>fl_lisst := b\<rparr>) m)"

definition by_isco :: "(broker \<times> 'w, 'a) act \<Rightarrow> ('w cast, 'a) act" where
  "by_isco m = needs ''isco'' (on_part fl_isco (\<lambda>b f. f\<lparr>fl_isco := b\<rparr>) m)"

definition by_gps :: "(broker \<times> 'w, 'a) act \<Rightarrow> ('w cast, 'a) act" where
  "by_gps m s =
     (case fl_gps (cs_fleet s) of
        Some b0 \<Rightarrow>
          (if cs_gps s = Some True
           then on_part (\<lambda>f. b0) (\<lambda>b f. f\<lparr>fl_gps := Some b\<rparr>) m s
           else (Inl AttributeError, s))
      | None \<Rightarrow> (Inl AttributeError, s))"

text \<open>Steps that the phases share.\<close>

definition tick :: "'w cast_io \<Rightarrow> string \<Rightarrow> ('w cast, unit) act" where
  "tick ci n = on_fleet (modify (ci_tick ci n))"

text \<open>\<open>_update_status\<close> catches whatever the database raises.\<close>

definition update_status :: "'w cast_io \<Rightarrow> string \<Rightarrow> ('w cast, unit) act" where
  "update_status ci n = bnd (modify (\<lambda>s. s\<lparr>cs_status := cs_status s @ [n]\<rparr>)) (\<lambda>_. tick ci n)"

definition unless_aborted :: "('w cast, unit) act \<Rightarrow> ('w cast, unit) act" where
  "unless_aborted m = bnd (peek (\<lambda>s. cs_abort s = [])) (\<lambda>go. if go then m else ret ())"

definition abort_cast :: "string \<Rightarrow> string \<Rightarrow> bool option \<Rightarrow> ('w cast, unit) act" where
  "abort_cast kind reason pk =
     modify (\<lambda>s. s\<lparr>cs_abort :=
       (let a = dset (dset (cs_abort s) ''type'' (PStr kind)) ''reason'' (PStr reason)
        in case pk of None \<Rightarrow> a | Some p \<Rightarrow> dset a ''park'' (PBool p))\<rparr>)"

definition reading :: "'w cast_io \<Rightarrow> string \<Rightarrow> ('w winch_io \<Rightarrow> 'w rpc_fun) \<Rightarrow> string \<Rightarrow> (broker \<times> 'w, pyval) act" where
  "reading ci ph rpc n = value_getter (rpc (ci_winch ci ph)) (wi_now (ci_winch ci ph)) n"

definition mm3_rpc :: "'w winch_io \<Rightarrow> 'w rpc_fun" where
  "mm3_rpc io = io_rpc (wi_mm3 io)"

definition sonde_value :: "'w cast_io \<Rightarrow> string \<Rightarrow> string \<Rightarrow> ('w cast, pyval) act" where
  "sonde_value ci ph n = by_sonde (reading ci ph wi_sonde n)"

definition mm3_value :: "'w cast_io \<Rightarrow> string \<Rightarrow> string \<Rightarrow> ('w cast, pyval) act" where
  "mm3_value ci ph n = by_mm3 (reading ci ph mm3_rpc n)"

definition aio_value :: "'w cast_io \<Rightarrow> string \<Rightarrow> string \<Rightarrow> ('w cast, pyval) act" where
  "aio_value ci ph n = by_aio (reading ci ph wi_aio n)"

definition lisst_value :: "'w cast_io \<Rightarrow> string \<Rightarrow> string \<Rightarrow> ('w cast, pyval) act" where
  "lisst_value ci ph n = by_lisst (reading ci ph (\<lambda>_. ci_lisst ci) n)"

definition isco_value :: "'w cast_io \<Rightarrow> string \<Rightarrow> string \<Rightarrow> ('w cast, pyval) act" where
  "isco_value ci ph n = by_isco (reading ci ph (\<lambda>_. ci_isco ci) n)"

text \<open>A reading used as a number.\<close>

definition numeric :: "('s, pyval) act \<Rightarrow> ('s, rat) act" where
  "numeric m = bnd m (\<lambda>v. of_res (number v))"

text \<open>\<open>get_token\<close>, and whether its answer contains an error.\<close>

definition cast_token :: "cast_cfg \<Rightarrow> 'w rpc_fun \<Rightarrow> bool \<Rightarrow> (broker \<times> 'w, pyval) act" where
  "cast_token kc rpc override = get_token rpc (kc_program kc) ''Cast'' override"

definition token_failed :: "('s, pyval) act \<Rightarrow> ('s, bool) act" where
  "token_failed m = bnd m (\<lambda>r. of_res (py_in ''error'' (pget_or r ''acquire_result'' PNone)))"

definition mm3_token :: "'w cast_io \<Rightarrow> cast_cfg \<Rightarrow> string \<Rightarrow> ('w cast, unit) act" where
  "mm3_token ci kc ph = ignoring (by_mm3 (cast_token kc (mm3_rpc (ci_winch ci ph)) False))"

definition cast_water :: "'w cast_io \<Rightarrow> string \<Rightarrow> string \<Rightarrow> ('w cast, bool option) act" where
  "cast_water ci ph instrument s =
     needs ''sonde'' (on_boat (sonde_in_water (ci_winch ci ph) (cs_cfg s) instrument)) s"

section \<open>Setting up\<close>

definition aio_names :: "string list" where
  "aio_names = [''voltage_ADC'', ''relay_ISCO'', ''relay_LISST'', ''reset_MM3'', ''relay_sonde'', ''relay_sounder'']"

definition is_on :: "cast_cfg \<Rightarrow> pyval \<Rightarrow> bool" where
  "is_on kc v \<longleftrightarrow> eq_num v (kc_relay_on kc)"

definition set_relay :: "'w cast_io \<Rightarrow> string \<Rightarrow> string \<Rightarrow> rat \<Rightarrow> ('w cast, unit) act" where
  "set_relay ci ph n v =
     by_aio (raising (value_setter (wi_aio (ci_winch ci ph)) (wi_now (ci_winch ci ph)) n (PFloat v)))"

text \<open>The relays are read for the status of the power; the two of the samplers only if they exist.\<close>

definition read_power :: "'w cast_io \<Rightarrow> ('w cast, unit) act" where
  "read_power ci =
     steps [ignoring (aio_value ci ''aio_setup'' ''relay_sonde''),
            ignoring (aio_value ci ''aio_setup'' ''relay_sounder''),
            bnd (by_aio (has_item ''relay_LISST'')) (\<lambda>h. only_if h (ignoring (aio_value ci ''aio_setup'' ''relay_LISST'')) ()),
            bnd (by_aio (has_item ''relay_ISCO'')) (\<lambda>h. only_if h (ignoring (aio_value ci ''aio_setup'' ''relay_ISCO'')) ())]"

definition isco_power :: "'w cast_io \<Rightarrow> cast_cfg \<Rightarrow> ('w cast, unit) act" where
  "isco_power ci kc =
     bnd (peek (\<lambda>s. (cs_isco s, cs_lisst s))) (\<lambda>(isco, lisst).
       if isco then bnd (aio_value ci ''aio_setup'' ''relay_ISCO'') (\<lambda>v.
         only_if (\<not> is_on kc v) (set_relay ci ''aio_setup'' ''relay_ISCO'' (kc_relay_on kc)) ())
       else if lisst = Lisst_yes then bnd (aio_value ci ''aio_setup'' ''relay_ISCO'') (\<lambda>v.
         only_if (is_on kc v) (set_relay ci ''aio_setup'' ''relay_ISCO'' (kc_relay_off kc)) ())
       else ret ())"

definition aio_setup :: "'w cast_io \<Rightarrow> cast_cfg \<Rightarrow> ('w cast, unit) act" where
  "aio_setup ci kc =
     (let rpc = wi_aio (ci_winch ci ''aio_setup'')
      in unless_aborted (steps [
           update_status ci ''aio_setup'',
           on_fleet (raising (ci_startup ci [''aio''])),
           got ''aio'',
           bnd (token_failed (by_aio (cast_token kc rpc True))) (\<lambda>bad.
             if bad then abort_cast ''soft'' ''Unable to acquire aio token.'' None
             else steps [
               ignoring (by_aio (add_subscriptions rpc aio_names on_change None)),
               tick ci ''aio_setup'',
               read_power ci,
               isco_power ci kc,
               ignoring (by_aio (plain (token_release rpc)))])]))"

definition needed_objects :: "'w cast \<Rightarrow> string list" where
  "needed_objects s = [''aio'', ''gps'', ''mm3'', ''sonde'', ''sounder''] @
     (if cs_lisst s = Lisst_yes then [''lisst''] else []) @ (if cs_isco s then [''isco''] else [])"

text \<open>The threshold of the conductivity follows the surface value of the previous cast.\<close>

definition adjust_threshold :: "('w cast, unit) act" where
  "adjust_threshold =
     bnd (peek cs_adjusted) (\<lambda>x. case x of
       None \<Rightarrow> ret ()
     | Some a \<Rightarrow>
         bnd (by_sonde (ret ())) (\<lambda>_.
         modify (\<lambda>s. s\<lparr>cs_cfg := (cs_cfg s)\<lparr>wc_sonde := (wc_sonde (cs_cfg s))\<lparr>sc_inwater_cond := a\<rparr>\<rparr>\<rparr>)))"

definition mm3_names :: "string list" where
  "mm3_names = [''neg_limit_switch'', ''pos_limit_switch'', ''in_position'', ''position'', ''enable_db'', ''deadband'',
     ''temp_fault'', ''amps'', ''amps_limit'', ''current_limit'', ''velocity'', ''pwm_out'', ''PWM_limited'',
     ''desired_position'', ''save_pos'', ''temperature'']"

definition on_new :: sub_opts where
  "on_new = on_change\<lparr>su_on_change := False\<rparr>"

definition gps_setup :: "'w cast_io \<Rightarrow> ('w cast, unit) act" where
  "gps_setup ci =
     bnd (peek (\<lambda>s. fl_gps (cs_fleet s) \<noteq> None)) (\<lambda>h.
       steps [modify (\<lambda>s. s\<lparr>cs_gps := Some h\<rparr>),
              only_if h (ignoring (by_gps (add_subscriptions (ci_gps ci) [''lat'', ''lon'', ''mode''] on_change None))) ()])"

definition broker_setup :: "'w cast_io \<Rightarrow> ('w cast, unit) act" where
  "broker_setup ci =
     (let io = ci_winch ci ''broker_setup''
      in unless_aborted (steps [
           update_status ci ''broker_setup'',
           bnd (peek needed_objects) (\<lambda>names. on_fleet (raising (ci_startup ci names))),
           bnd (peek cs_cfg) (\<lambda>cfg. on_boat (winch_init io cfg)),
           got ''winch'',
           got ''sonde'',
           adjust_threshold,
           got ''mm3'',
           ignoring (by_mm3 (add_subscriptions (mm3_rpc io) mm3_names on_new None)),
           got ''sounder'',
           lost ''lisst'', lost ''isco'',
           gps_setup ci,
           bnd (peek (\<lambda>s. (cs_lisst s, cs_isco s))) (\<lambda>(l, i).
             if l = Lisst_yes then got ''lisst'' else if i then got ''isco'' else ret ())]))"

text \<open>The tokens; that of the motor controller is not taken from another owner.\<close>

definition token_or_abort :: "('w cast, pyval) act \<Rightarrow> string \<Rightarrow> ('w cast, unit) act \<Rightarrow> ('w cast, unit) act" where
  "token_or_abort m reason rest = bnd (token_failed m) (\<lambda>bad. if bad then abort_cast ''soft'' reason None else rest)"

definition get_tokens :: "'w cast_io \<Rightarrow> cast_cfg \<Rightarrow> ('w cast, unit) act" where
  "get_tokens ci kc =
     (let io = ci_winch ci ''get_tokens''
      in unless_aborted (steps [
           update_status ci ''get_tokens'',
           token_or_abort (by_sonde (cast_token kc (wi_sonde io) True)) ''Unable to acquire sonde token.'' (
           token_or_abort (by_mm3 (cast_token kc (mm3_rpc io) False)) ''Unable to acquire mm3 token.'' (
           bnd (peek (\<lambda>s. (cs_lisst s, cs_isco s))) (\<lambda>(l, i).
             let isco = only_if i (token_or_abort (by_isco (cast_token kc (ci_isco ci) True)) ''Unable to acquire ISCO token.'' (ret ())) ()
             in if l = Lisst_yes
                then token_or_abort (by_lisst (cast_token kc (ci_lisst ci) True)) ''Unable to acquire LISST token.'' isco
                else isco)))]))"

section \<open>Checking the instruments\<close>

text \<open>
  An instrument that is not connected is resumed once; the value tells whether it is still not
  connected.
\<close>

definition offline_now :: "(broker \<times> 'w, bool) act" where
  "offline_now = peek (\<lambda>bw. bk_instr (fst bw) = Some False)"

definition reconnect :: "'w rpc_fun \<Rightarrow> (broker \<times> 'w, bool) act" where
  "reconnect rpc =
     bnd (plain (broker_status rpc None)) (\<lambda>_. bnd offline_now (\<lambda>off.
       if \<not> off then ret False
       else bnd (resume_broker rpc None) (\<lambda>_. bnd (plain (broker_status rpc None)) (\<lambda>_. offline_now))))"

text \<open>
  A LISST that is suspended is resumed, but the answer is looked up under another key than it has
  been stored under.
\<close>

definition wake_lisst :: "'w cast_io \<Rightarrow> ('w cast, unit) act" where
  "wake_lisst ci =
     bnd (by_lisst (peek (\<lambda>bw. bk_suspended (fst bw) = Some True))) (\<lambda>sus.
       if sus then bnd (by_lisst (resume_broker (ci_lisst ci) None)) (\<lambda>_. fail (KeyError ''09.03 lisst.resume_broker 1''))
       else ret ())"

definition lisst_aborted :: "('w cast, unit) act" where
  "lisst_aborted = modify (\<lambda>s. s\<lparr>cs_lisst := Lisst_aborted\<rparr>)"

text \<open>
  What is left from an earlier cast, and the level of the clean water: below the minimum there is
  only a warning, between the minimum and the level of a warning the LISST is given up.
\<close>

definition water_level :: "'w cast_io \<Rightarrow> cast_cfg \<Rightarrow> ('w cast, unit) act" where
  "water_level ci kc =
     (let level = lisst_value ci ''check_instrument_status'' ''clean_water_level''
      in bnd (numeric level) (\<lambda>a.
         if a < kc_level_min kc then ignoring level
         else bnd (numeric level) (\<lambda>b. if b < kc_level_warn kc then bnd level (\<lambda>_. lisst_aborted) else ret ())))"

definition lisst_leftovers :: "'w cast_io \<Rightarrow> cast_cfg \<Rightarrow> ('w cast, unit) act" where
  "lisst_leftovers ci kc =
     (let rd = lisst_value ci ''check_instrument_status''
      in steps [
           bnd (rd ''data_collection'') (\<lambda>v. only_if (truthy v) (ignoring (by_lisst (stop_collection (ci_lisst ci) None))) ()),
           bnd (rd ''data_file_transferred'') (\<lambda>t. only_if (t = PBool False)
             (bnd (rd ''data_file_name'') (\<lambda>n. only_if (n \<noteq> PNone)
                (bnd (rd ''data_file_name'') (\<lambda>_. ignoring (by_lisst (get_file (ci_lisst ci) (kc_lisst kc) None)))) ())) ()),
           water_level ci kc])"

definition check_lisst :: "'w cast_io \<Rightarrow> cast_cfg \<Rightarrow> ('w cast, unit) act" where
  "check_lisst ci kc =
     (let rpc = ci_lisst ci
      in steps [
           ignoring (by_lisst (plain (broker_status rpc None))),
           bnd (by_lisst (peek (\<lambda>bw. bk_power_on (fst bw) = Some False \<and> bk_instr (fst bw) = Some True))) (\<lambda>bad.
             only_if bad (steps [ignoring (by_lisst (plain (suspend_broker rpc None))),
                                 ignoring (by_lisst (plain (broker_status rpc None)))]) ()),
           wake_lisst ci,
           bnd (by_lisst offline_now) (\<lambda>off.
             if off then steps [ignoring (by_lisst (resume_broker rpc None)),
                                ignoring (by_lisst (plain (broker_status rpc None))),
                                bnd (by_lisst offline_now) (\<lambda>still. only_if still lisst_aborted ())]
             else lisst_leftovers ci kc),
           bnd (peek cs_lisst) (\<lambda>l.
             if l = Lisst_aborted then ignoring (by_lisst (plain (token_release rpc)))
             else ignoring (by_lisst (add_subscriptions rpc [] on_change None)))])"

definition sonde_names :: "string list" where
  "sonde_names = [''depth_m'', ''spcond_mScm'', ''sampling'', ''logging'']"

definition isco_sub :: sub_opts where
  "isco_sub = on_change\<lparr>su_min := Some 10\<rparr>"

definition check_instrument_status :: "'w cast_io \<Rightarrow> cast_cfg \<Rightarrow> ('w cast, unit) act" where
  "check_instrument_status ci kc =
     (let sonde = wi_sonde (ci_winch ci ''check_instrument_status'')
      in unless_aborted (steps [
           update_status ci ''check_instrument_status'',
           bnd (by_sonde (reconnect sonde)) (\<lambda>off. only_if off (abort_cast ''soft'' ''Sonde broker unable to connect'' None) ()),
           ignoring (by_sonde (add_subscriptions sonde sonde_names on_change None)),
           bnd (by_sounder (reconnect (ci_sounder ci))) (\<lambda>off. only_if off (abort_cast ''soft'' ''Sounder broker unable to connect'' None) ()),
           ignoring (by_sounder (add_subscriptions (ci_sounder ci) [''water_depth_working''] on_change None)),
           bnd (peek (\<lambda>s. (cs_lisst s, cs_isco s))) (\<lambda>(l, i).
             if l = Lisst_yes then check_lisst ci kc
             else only_if i (steps [
               bnd (by_isco (reconnect (ci_isco ci))) (\<lambda>off. only_if off (abort_cast ''soft'' ''ISCO broker unable to connect'' None) ()),
               ignoring (by_isco (add_subscriptions (ci_isco ci) [''isco_status'', ''sample_status''] isco_sub None))]) ())]))"

section \<open>Depth, sampling, database, position\<close>

text \<open>The greatest depth at this place, and the depth that is taken for a wanted one.\<close>

definition max_depth :: "cast_cfg \<Rightarrow> winch_cfg \<Rightarrow> rat \<Rightarrow> rat" where
  "max_depth kc cfg working =
     (let m0 = working - kc_instr_offset kc - kc_bottom_offset kc;
          m1 = (if m0 > kc_cable kc then kc_cable kc else m0)
      in if m1 > wc_max_depth cfg then wc_max_depth cfg else m1)"

definition target_depth :: "rat \<Rightarrow> rat \<Rightarrow> rat" where
  "target_depth m target = (if target > m then m else if target = 0 then m else target)"

definition sounder_depth :: "'w cast_io \<Rightarrow> ('w cast, pyval) act" where
  "sounder_depth ci = by_sounder (reading ci ''check_depth'' (\<lambda>_. ci_sounder ci) ''water_depth_working'')"

definition limit_target :: "'w cast_io \<Rightarrow> cast_cfg \<Rightarrow> rat \<Rightarrow> ('w cast, unit) act" where
  "limit_target ci kc w =
     bnd (peek (\<lambda>s. (max_depth kc (cs_cfg s) w, cs_depth_target s))) (\<lambda>(m, t).
       steps [modify (\<lambda>s. s\<lparr>cs_depth_target := target_depth m t\<rparr>),
              only_if (t \<le> m \<and> t = 0) (ignoring (sounder_depth ci)) ()])"

definition check_depth :: "'w cast_io \<Rightarrow> cast_cfg \<Rightarrow> ('w cast, unit) act" where
  "check_depth ci kc =
     unless_aborted (steps [update_status ci ''check_depth'', bnd (numeric (sounder_depth ci)) (limit_target ci kc)])"

definition init_instruments :: "'w cast_io \<Rightarrow> ('w cast, unit) act" where
  "init_instruments ci =
     unless_aborted (steps [
       update_status ci ''init_instruments'',
       bnd (sonde_value ci ''init_instruments'' ''sampling'') (\<lambda>v.
         if eq_num v 1 then ret ()
         else bnd (peek cs_cfg) (\<lambda>cfg.
              bnd (by_sonde (start_sampling (wi_sonde (ci_winch ci ''init_instruments'')) (wc_sonde cfg))) (\<lambda>r.
              if py_in ''error'' r = Inr False then ret () else abort_cast ''soft'' ''Error starting sampling'' None)))])"

definition gps_position :: "'w cast_io \<Rightarrow> ('w cast, unit) act" where
  "gps_position ci =
     (let rd = (\<lambda>n. by_gps (reading ci ''init_db'' (\<lambda>_. ci_gps ci) n))
      in bnd (by_gps (peek (\<lambda>bw. bk_suspended (fst bw) = Some False))) (\<lambda>on.
         only_if on (bnd (rd ''mode'') (\<lambda>m.
           if eq_num m 2 \<or> eq_num m 3 then steps [ignoring (rd ''lat''), ignoring (rd ''lon'')]
           else steps [ignoring (rd ''mode''), ignoring (rd ''lat''), ignoring (rd ''lon'')])) ()))"

text \<open>The number of the cast: a requested one counts if it is not below that of the database.\<close>

definition choose_number :: "int option \<Rightarrow> int option \<Rightarrow> int option res" where
  "choose_number requested db =
     (case requested of
        None \<Rightarrow> Inr db
      | Some n \<Rightarrow> (case db of None \<Rightarrow> Inl TypeError | Some k \<Rightarrow> Inr (Some (if n \<ge> k then n else k))))"

definition cast_record :: "'w cast_io \<Rightarrow> ('w cast, unit) act" where
  "cast_record ci =
     steps [
       catching (gps_position ci) (\<lambda>e. ret ()),
       ignoring (sonde_value ci ''init_db'' ''sonde_ID''),
       ignoring (sonde_value ci ''init_db'' ''sonde_SN''),
       answers (ci_insert ci),
       (case ci_max_no ci of
          Inl e \<Rightarrow> abort_cast ''soft'' ''Unable to get cast number'' None
        | Inr db \<Rightarrow>
            bnd (peek cs_cast_number) (\<lambda>n. bnd (of_res (choose_number n db)) (\<lambda>k.
              modify (\<lambda>s. s\<lparr>cs_cast_number := k\<rparr>))))]"

definition init_db :: "'w cast_io \<Rightarrow> ('w cast, unit) act" where
  "init_db ci =
     bnd (update_status ci ''init_db'') (\<lambda>_.
     if ci_open_db ci \<noteq> None then abort_cast ''soft'' ''Error initializing Cast database'' None
     else bnd (got ''cast_db'') (\<lambda>_. unless_aborted (cast_record ci)))"

definition no_calibration :: "('w cast, unit) act" where
  "no_calibration = modify (\<lambda>s. s\<lparr>cs_pre_cal := False\<rparr>)"

definition check_position :: "'w cast_io \<Rightarrow> ('w cast, unit) act" where
  "check_position ci =
     (let depth = sonde_value ci ''check_position'' ''depth_m''
      in bnd (cast_water ci ''check_position'' ''all'') (\<lambda>wet.
         bnd (peek (\<lambda>s. cs_isco s \<or> \<not> cs_profile s)) (\<lambda>static.
         if static then no_calibration
         else if wet = Some True then ret ()
         else bnd (numeric (mm3_value ci ''check_position'' ''position'')) (\<lambda>p.
              bnd (by_winch (peek wn_wl_cond)) (\<lambda>wl.
              if p > of_int wl then ret ()
              else bnd (numeric depth) (\<lambda>d. bnd (peek (\<lambda>s. sc_pressure_error (wc_sonde (cs_cfg s)))) (\<lambda>err.
                   if \<bar>d\<bar> > err then ignoring depth else bnd depth (\<lambda>_. no_calibration))))))))"

section \<open>Before the cast\<close>

text \<open>Why a move ended, and the reaction to a fault: the cast is aborted and the sonde stays where it is.\<close>

definition ended_by :: "pyval \<Rightarrow> string list \<Rightarrow> bool" where
  "ended_by r codes \<longleftrightarrow> traverse_tree r ''stop_code'' \<in> set (map PStr codes)"

definition hard_fault :: "('w cast, unit) act" where
  "hard_fault = abort_cast ''hard'' ''Hardware Fault'' (Some False)"

definition pre_cast_park :: "'w cast_io \<Rightarrow> cast_cfg \<Rightarrow> ('w cast, unit) act" where
  "pre_cast_park ci kc =
     (let pos = mm3_value ci ''pre_cast_park'' ''position''
      in unless_aborted (bnd (peek cs_pre_cal) (\<lambda>cal. only_if cal (steps [
           update_status ci ''pre_cast_park'',
           mm3_token ci kc ''pre_cast_park'',
           bnd (peek cs_cfg) (\<lambda>cfg.
           bnd (by_winch (park (ci_winch ci ''pre_cast_park'') cfg (kc_cal_position kc) None False False)) (\<lambda>r.
             if ended_by r [''pos_limit_switch'', ''temp_fault''] then hard_fault
             else only_if (ended_by r [''neg_limit_switch'']) (bnd (numeric pos) (\<lambda>_. ignoring pos)) ()))]) ())))"

text \<open>
  \<open>check_sonde_calibration\<close>: a pressure close to zero becomes the offset, another one is calibrated
  away, with the check for water.
\<close>

definition calibrate_checked :: "'w cast_io \<Rightarrow> string \<Rightarrow> winch_cfg \<Rightarrow> ('w boat, pyval) act" where
  "calibrate_checked ci ph cfg s =
     (case wn_sonde s of
        None \<Rightarrow> (Inl AttributeError, s)
      | Some b0 \<Rightarrow>
          (case calibrate_pressure (wi_sonde (ci_winch ci ph)) (wc_sonde cfg) (ci_cal ci) True None (wn_err s, b0, wn_world s) of
             (r, p, b, w) \<Rightarrow> (r, s\<lparr>wn_sonde := Some b, wn_err := p, wn_world := w\<rparr>)))"

definition check_sonde_calibration :: "'w cast_io \<Rightarrow> string \<Rightarrow> ('w cast, unit) act" where
  "check_sonde_calibration ci ph =
     (let depth = sonde_value ci ph ''depth_m''; sampling = sonde_value ci ph ''sampling''
      in bnd (numeric depth) (\<lambda>d. bnd (peek cs_cfg) (\<lambda>cfg.
         if \<bar>d\<bar> \<le> sc_pressure_error (wc_sonde cfg)
         then bnd depth (\<lambda>_. bnd (numeric depth) (\<lambda>e. on_boat (modify (\<lambda>s. s\<lparr>wn_err := e\<rparr>))))
         else steps [
           ignoring (on_boat (calibrate_checked ci ph cfg)),
           tick ci ph,
           bnd sampling (\<lambda>v. only_if (\<not> eq_num v 1)
             (bnd sampling (\<lambda>_. ignoring (by_sonde (start_sampling (wi_sonde (ci_winch ci ph)) (wc_sonde cfg))))) ())])))"

definition pre_calibrate :: "'w cast_io \<Rightarrow> ('w cast, unit) act" where
  "pre_calibrate ci =
     unless_aborted (bnd (peek cs_pre_cal) (\<lambda>cal. only_if cal (steps [
       update_status ci ''pre_calibrate'',
       bnd (cast_water ci ''pre_calibrate'' ''all'') (\<lambda>wet.
         if wet = Some True
         then bnd (mm3_value ci ''pre_calibrate'' ''position'') (\<lambda>_. abort_cast ''hard'' ''Unexpectedly in water'' (Some True))
         else check_sonde_calibration ci ''pre_calibrate'')]) ()))"

text \<open>
  Waiting for the wiper: while wipes are left a second passes, and 120 seconds after the start the
  cast is given up. The value tells whether the wiping came to its end.
\<close>

definition wipe_timeout :: timespan where
  "wipe_timeout = seconds 120"

fun wipe_wait :: "'w cast_io \<Rightarrow> instant \<Rightarrow> instant \<Rightarrow> instant list \<Rightarrow> ('w cast, bool) act" where
  "wipe_wait ci start now [] =
     bnd (numeric (by_sonde (value_getter (wi_sonde (ci_winch ci ''pre_position'')) now ''wipes_left''))) (\<lambda>n.
       if n > 0 then fail endless else ret True)"
| "wipe_wait ci start now (t # ts) =
     bnd (numeric (by_sonde (value_getter (wi_sonde (ci_winch ci ''pre_position'')) now ''wipes_left''))) (\<lambda>n.
       if n > 0
       then bnd (tick ci ''wiping'') (\<lambda>_.
            if t - wipe_timeout > start
            then bnd (abort_cast ''soft'' ''Unknown Fault, still wiping'' (Some True)) (\<lambda>_. ret False)
            else wipe_wait ci start t ts)
       else ret True)"

definition wipe_sonde :: "'w cast_io \<Rightarrow> winch_cfg \<Rightarrow> ('w cast, bool) act" where
  "wipe_sonde ci cfg =
     (let io = ci_winch ci ''pre_position''; sampling = sonde_value ci ''pre_position'' ''sampling''
      in bnd (steps [
           bnd sampling (\<lambda>v. only_if (eq_num v 1) (ignoring (by_sonde (stop_sampling (wi_sonde io) (wi_now io) None))) ()),
           tick ci ''pre_position'',
           ignoring (by_sonde (wipe (wi_sonde io) (wc_sonde cfg) (wi_now io))),
           ignoring (sonde_value ci ''pre_position'' ''wipes_left'')]) (\<lambda>_.
         bnd (wipe_wait ci (wi_now io) (wi_now io) (ci_wipe_polls ci)) (\<lambda>clean.
         bnd (only_if clean (bnd sampling (\<lambda>v. only_if (\<not> eq_num v 1)
                (bnd sampling (\<lambda>_. ignoring (by_sonde (start_sampling (wi_sonde io) (wc_sonde cfg))))) ())) ()) (\<lambda>_.
         ret clean))))"

text \<open>\<open>move_to_depth\<close> of the winch, and the reaction to the reason of its end.\<close>

definition depth_opts :: "bool \<Rightarrow> int \<Rightarrow> int \<Rightarrow> mon_opts" where
  "depth_opts in_pos stopped pos_max =
     (rel_opts in_pos ''at_depth'' True (seconds stopped))\<lparr>mo_pos_max := seconds pos_max\<rparr>"

definition static_depth :: "'w cast_io \<Rightarrow> cast_cfg \<Rightarrow> winch_cfg \<Rightarrow> ('w cast, unit) act" where
  "static_depth ci kc cfg =
     steps [
       mm3_token ci kc ''pre_position'',
       bnd (peek (\<lambda>s. (cs_depth_target s, cs_debug s))) (\<lambda>(d, debug).
       bnd (by_winch (winch_to_depth (ci_winch ci ''pre_position'') cfg d (Some (PInt (wc_fast cfg))) None (depth_opts False 5 1))) (\<lambda>r.
         if debug then fail (KeyError ''move_to_depth'')
         else only_if (ended_by r [''pos_limit_switch'', ''neg_limit_switch'', ''temp_fault'']) hard_fault ()))]"

definition to_waterline :: "'w cast_io \<Rightarrow> cast_cfg \<Rightarrow> winch_cfg \<Rightarrow> ('w cast, pyval) act" where
  "to_waterline ci kc cfg =
     bnd (peek (\<lambda>s. cs_over_cast s)) (\<lambda>over.
     bnd (by_winch (peek wn_wl)) (\<lambda>wl.
     bnd (numeric (mm3_value ci ''pre_position'' ''position'')) (\<lambda>p.
     bnd (mm3_token ci kc ''pre_position'') (\<lambda>_.
     by_winch (winch_to_relative (ci_winch ci ''pre_position'') cfg (Clicks (wl + meters_to_clicks cfg over - trunc p))
       (Some (PInt (wc_med cfg))) None None (rel_opts False ''all_wl'' True (seconds 5)))))))"

definition pre_position :: "'w cast_io \<Rightarrow> cast_cfg \<Rightarrow> ('w cast, unit) act" where
  "pre_position ci kc =
     unless_aborted (bnd (update_status ci ''pre_position'') (\<lambda>_. bnd (peek cs_cfg) (\<lambda>cfg.
       bnd (to_waterline ci kc cfg) (\<lambda>r.
       if ended_by r [''pos_limit_switch'', ''neg_limit_switch'', ''temp_fault'', ''ipc_conn''] then hard_fault
       else bnd (peek cs_wipe) (\<lambda>w. bnd (only_if w (wipe_sonde ci cfg) True) (\<lambda>clean.
            bnd (peek (\<lambda>s. cs_isco s \<or> \<not> cs_profile s)) (\<lambda>static.
            only_if (clean \<and> static) (static_depth ci kc cfg) ())))))))"

definition sleep_left :: "cast_cfg \<Rightarrow> lisst_state \<Rightarrow> instant \<Rightarrow> instant \<Rightarrow> timespan" where
  "sleep_left kc l time now = time - now - (if l = Lisst_yes then seconds (kc_latency kc * 2) else 0)"

definition wait_for_sched :: "'w cast_io \<Rightarrow> cast_cfg \<Rightarrow> ('w cast, unit) act" where
  "wait_for_sched ci kc =
     unless_aborted (bnd (peek cs_lisst) (\<lambda>l. bnd (only_if (l = Lisst_yes) (by_lisst (ret ())) ()) (\<lambda>_.
       bnd (peek (\<lambda>s. sleep_left kc l (cs_cast_time s) (wi_now (ci_winch ci ''wait_for_sched'')))) (\<lambda>t.
       only_if (t > 0) (update_status ci ''wait_for_sched'') ()))))"

section \<open>The cast\<close>

definition number_value :: "int option \<Rightarrow> pyval" where
  "number_value n = (case n of None \<Rightarrow> PNone | Some k \<Rightarrow> PInt k)"

text \<open>An update of the record of the cast.\<close>

definition cast_update :: "'w cast_io \<Rightarrow> ('w cast, unit) act" where
  "cast_update ci = needs ''cast_db'' (answers (ci_update ci))"

definition begin_lisst :: "'w cast_io \<Rightarrow> cast_cfg \<Rightarrow> ('w cast, unit) act" where
  "begin_lisst ci kc =
     bnd (cast_water ci ''start_sampling'' ''spcond_mScm'') (\<lambda>wet.
     if wet = Some True
     then steps [
       ignoring (by_lisst (start_pump (ci_lisst ci) (wi_now (ci_winch ci ''start_sampling'')) None)),
       tick ci ''start_sampling'',
       bnd (peek cs_cast_number) (\<lambda>n.
         ignoring (by_lisst (start_collection (ci_lisst ci) (number_value n) (kc_latency kc) None)))]
     else steps [lisst_aborted, by_lisst (ret ()), tick ci ''start_sampling''])"

definition begin_sampling :: "'w cast_io \<Rightarrow> cast_cfg \<Rightarrow> ('w cast, unit) act" where
  "begin_sampling ci kc =
     (let io = ci_winch ci ''start_sampling''
      in unless_aborted (steps [
           update_status ci ''start_sampling'',
           bnd (peek cs_lisst) (\<lambda>l. only_if (l = Lisst_yes) (begin_lisst ci kc) ()),
           cast_update ci,
           bnd (peek (\<lambda>s. (cs_cfg s, cs_cast_number s))) (\<lambda>(cfg, n).
             ignoring (by_sonde (start_logging (wi_sonde io) (wc_sonde cfg) (wi_now io) (number_value n) None))),
           tick ci ''start_sampling'']))"

text \<open>A profile: near the surface a cast that missed its target is tried again; the reason of the first move counts.\<close>

definition profile_move :: "'w cast_io \<Rightarrow> rat \<Rightarrow> ('w cast, pyval) act" where
  "profile_move ci d =
     bnd (peek cs_cfg) (\<lambda>cfg.
       by_winch (winch_to_depth (ci_winch ci ''data_collection'') cfg d (Some (PInt (wc_med cfg))) None (depth_opts True 10 5)))"

definition missed_target :: "'w cast_io \<Rightarrow> cast_cfg \<Rightarrow> ('w cast, bool) act" where
  "missed_target ci kc =
     bnd (numeric (sonde_value ci ''data_collection'' ''depth_m'')) (\<lambda>d. bnd (peek cs_depth_target) (\<lambda>t.
       ret (\<bar>d - t\<bar> > kc_target_error kc)))"

definition take_profile :: "'w cast_io \<Rightarrow> cast_cfg \<Rightarrow> ('w cast, unit) act" where
  "take_profile ci kc =
     (let depth = numeric (sonde_value ci ''data_collection'' ''depth_m'')
      in bnd (mm3_token ci kc ''data_collection'') (\<lambda>_. bnd (peek cs_depth_target) (\<lambda>t.
         bnd (profile_move ci t) (\<lambda>r.
         bnd depth (\<lambda>d. bnd (only_if (d < 3 / 2) (missed_target ci kc) False) (\<lambda>again.
         bnd (only_if again (bnd depth (\<lambda>d2. steps [ignoring (profile_move ci (d2 - 1 / 5)), ignoring (profile_move ci t)])) ()) (\<lambda>_.
         only_if (ended_by r [''neg_limit_switch'', ''temp_fault'', ''ipc_conn'']) hard_fault ())))))))"

text \<open>The passes of the loop that waits for the sample; a pass after the time-out is the last.\<close>

fun sample_wait :: "'w cast_io \<Rightarrow> instant \<Rightarrow> instant \<Rightarrow> instant list \<Rightarrow> ('w cast, unit) act" where
  "sample_wait ci timeout now [] =
     bnd (by_isco (value_getter (ci_isco ci) now ''sample_status'')) (\<lambda>v. if eq_num v 12 then fail endless else ret ())"
| "sample_wait ci timeout now (t # ts) =
     bnd (by_isco (value_getter (ci_isco ci) now ''sample_status'')) (\<lambda>v.
       if eq_num v 12 then bnd (tick ci ''isco'') (\<lambda>_. if t > timeout then ret () else sample_wait ci timeout t ts) else ret ())"

definition take_isco :: "'w cast_io \<Rightarrow> cast_cfg \<Rightarrow> ('w cast, unit) act" where
  "take_isco ci kc =
     (let now = wi_now (ci_winch ci ''data_collection'');
          depth = sonde_value ci ''data_collection'' ''depth_m'';
          isco = isco_value ci ''data_collection'';
          status = by_isco (get_isco_status (ci_isco ci) now PNone)
      in bnd (isco ''isco_status'') (\<lambda>v.
         if eq_num v 1
         then bnd depth (\<lambda>_. bnd depth (\<lambda>d. bnd (peek (\<lambda>s. (cs_bottle s, cs_volume s, cs_cast_number s))) (\<lambda>(bo, vo, n). steps [
                ignoring (by_isco (take_sample (ci_isco ci) (PInt bo) vo (number_value n) d None)),
                tick ci ''isco'',
                sample_wait ci (now + seconds (kc_isco_timeout kc)) now (ci_isco_polls ci),
                bnd (isco ''sample_status'') (\<lambda>x. only_if (\<not> eq_num x 0) (bnd status (\<lambda>_. ignoring (isco ''sample_status''))) ())])))
         else bnd status (\<lambda>_. bnd (isco ''isco_status'') (\<lambda>_. abort_cast ''soft'' ''ISCO sample error'' None))))"

text \<open>A static cast sleeps at its depth; a time that is negative or no finite number raises.\<close>

definition sample_pause :: "'w cast_io \<Rightarrow> ('w cast, unit) act" where
  "sample_pause ci =
     bnd (peek cs_sample_time) (\<lambda>t.
     case t of NonFin \<Rightarrow> fail ValueError | Fin q \<Rightarrow> if q < 0 then fail ValueError else tick ci ''data_collection'')"

definition data_collection :: "'w cast_io \<Rightarrow> cast_cfg \<Rightarrow> ('w cast, unit) act" where
  "data_collection ci kc =
     unless_aborted (steps [
       update_status ci ''data_collection'',
       bnd (peek (\<lambda>s. (cs_profile s, cs_isco s))) (\<lambda>(p, i).
         if p then take_profile ci kc else if i then take_isco ci kc else sample_pause ci),
       bnd (missed_target ci kc) (\<lambda>far. only_if far (ignoring (sonde_value ci ''data_collection'' ''depth_m'')) ())])"

definition end_sampling :: "'w cast_io \<Rightarrow> ('w cast, unit) act" where
  "end_sampling ci =
     (let now = wi_now (ci_winch ci ''stop_sampling'')
      in steps [
           update_status ci ''stop_sampling'',
           bnd (peek cs_lisst) (\<lambda>l. only_if (l = Lisst_yes) (steps [
             by_lisst (ret ()),
             ignoring (by_lisst (stop_collection (ci_lisst ci) None)),
             ignoring (by_lisst (stop_pump (ci_lisst ci) now None))]) ()),
           ignoring (by_sonde (stop_logging (wi_sonde (ci_winch ci ''stop_sampling'')) None)),
           bnd (mm3_value ci ''stop_sampling'' ''pos_limit_switch'') (\<lambda>v. only_if (eq_num v 1) (steps [
             modify (\<lambda>s. s\<lparr>cs_bottom_strike := True\<rparr>),
             ignoring (sonde_value ci ''stop_sampling'' ''depth_m''),
             cast_update ci]) ())])"

section \<open>After the cast\<close>

text \<open>The position to park at; None for staying.\<close>

definition park_options :: "int \<Rightarrow> int \<Rightarrow> int \<Rightarrow> (string \<times> int option) list" where
  "park_options wl press cond =
     [(''top'', Some 0), (''default'', Some (trunc (of_int wl / 3))), (''CWL'', Some cond), (''PWL'', Some press), (''bottom'', None)]"

definition surface_value :: "pyval \<Rightarrow> ('w cast, unit) act" where
  "surface_value c =
     (if c = PNone then modify (\<lambda>s. s\<lparr>cs_adjusted := None\<rparr>)
      else bnd (of_res (number c)) (\<lambda>x. modify (\<lambda>s. s\<lparr>cs_adjusted := Some (x * (2 / 5))\<rparr>)))"

definition post_cast_park :: "'w cast_io \<Rightarrow> cast_cfg \<Rightarrow> ('w cast, unit) act" where
  "post_cast_park ci kc =
     bnd (peek (\<lambda>s. dget_or (cs_abort s) ''park'' (PBool True) \<noteq> PBool False)) (\<lambda>go. only_if go (
     bnd (update_status ci ''post_cast_park'') (\<lambda>_.
     bnd (by_winch (peek (\<lambda>b. park_options (wn_wl b) (wn_wl_press b) (wn_wl_cond b)))) (\<lambda>options.
     bnd (modify (\<lambda>s. s\<lparr>cs_park_pos := (if dhas options (cs_park_pos s) then cs_park_pos s else ''default'')\<rparr>)) (\<lambda>_.
     bnd (mm3_token ci kc ''post_cast_park'') (\<lambda>_.
     bnd (peek (\<lambda>s. (cs_park_pos s, cs_cfg s))) (\<lambda>(pos, cfg).
     case dget_or options pos None of
       None \<Rightarrow> ret ()
     | Some l \<Rightarrow>
         bnd (by_winch (park (ci_winch ci ''post_cast_park'') cfg l None (pos = ''default'') True)) (\<lambda>r.
           surface_value (pget_or r ''surface_spcond'' PNone)))))))) ())"

section \<open>Finishing\<close>

text \<open>Leaving a sampler: no subscriptions, suspended, no token.\<close>

definition leave :: "'w rpc_fun \<Rightarrow> (broker \<times> 'w, unit) act" where
  "leave rpc =
     steps [raising (unsubscribe_all 2 rpc), ignoring (plain (suspend_broker rpc None)), ignoring (plain (token_release rpc))]"

text \<open>Switching a relay off needs the token of the analogue board.\<close>

definition power_off :: "'w cast_io \<Rightarrow> cast_cfg \<Rightarrow> string \<Rightarrow> ('w cast, unit) act" where
  "power_off ci kc n =
     steps [ignoring (by_aio (cast_token kc (wi_aio (ci_winch ci ''finish_cast'')) True)),
            set_relay ci ''finish_cast'' n (kc_relay_off kc)]"

definition finish_lisst_file :: "'w cast_io \<Rightarrow> cast_cfg \<Rightarrow> ('w cast, unit) act" where
  "finish_lisst_file ci kc =
     (let file = ignoring (by_lisst (get_file (ci_lisst ci) (kc_lisst kc) None))
      in steps [file,
           bnd (peek (\<lambda>s. (cs_abort s, cs_cast_number s))) (\<lambda>(a, n). only_if (a = []) (steps [
             ignoring (by_lisst (zero_sample (ci_lisst ci) (kc_lisst kc) (wi_now (ci_winch ci ''finish_cast'')) (number_value n))),
             file]) ())])"

definition finish_sonde :: "'w cast_io \<Rightarrow> ('w cast, unit) act" where
  "finish_sonde ci =
     (let io = ci_winch ci ''finish_cast''
      in steps [
           bnd (peek (\<lambda>s. cs_profile s \<and> cs_abort s = [] \<and> cs_park_pos s = ''default'')) (\<lambda>c.
             only_if c (bnd (cast_water ci ''finish_cast'' ''all'') (\<lambda>_. check_sonde_calibration ci ''finish_cast'')) ()),
           bnd (sonde_value ci ''finish_cast'' ''sampling'') (\<lambda>v.
             only_if (eq_num v 1) (ignoring (by_sonde (stop_sampling (wi_sonde io) (wi_now io) None))) ())])"

definition finish_samplers :: "'w cast_io \<Rightarrow> cast_cfg \<Rightarrow> ('w cast, unit) act" where
  "finish_samplers ci kc =
     steps [
       bnd (peek cs_lisst) (\<lambda>l. only_if (l \<noteq> Lisst_no) (steps [
         by_lisst (leave (ci_lisst ci)),
         bnd (aio_value ci ''finish_cast'' ''relay_LISST'') (\<lambda>v.
           only_if (is_on kc v) (bnd (tick ci ''finish_cast'') (\<lambda>_. power_off ci kc ''relay_LISST'')) ())]) ()),
       bnd (peek cs_isco) (\<lambda>i. only_if i (steps [by_isco (leave (ci_isco ci)), power_off ci kc ''relay_ISCO'']) ())]"

definition finish_clients :: "'w cast_io \<Rightarrow> ('w cast, unit) act" where
  "finish_clients ci =
     (let io = ci_winch ci ''finish_cast''; unsub = (\<lambda>rpc. raising (unsubscribe_all 2 rpc))
      in steps [
           bnd (peek cs_gps) (\<lambda>g. only_if (g \<noteq> None) (by_gps (unsub (ci_gps ci))) ()),
           by_sounder (unsub (ci_sounder ci)),
           by_sonde (unsub (wi_sonde io)),
           by_mm3 (unsub (mm3_rpc io)),
           by_aio (unsub (wi_aio io)),
           bnd (by_aio (peek (\<lambda>bw. bk_token (fst bw)))) (\<lambda>t. only_if t (ignoring (by_aio (plain (token_release (wi_aio io))))) ()),
           ignoring (by_sonde (plain (token_release (wi_sonde io)))),
           ignoring (by_mm3 (plain (token_release (mm3_rpc io)))),
           needs ''cast_db'' (ret ())])"

definition finish_cast :: "'w cast_io \<Rightarrow> cast_cfg \<Rightarrow> ('w cast, unit) act" where
  "finish_cast ci kc =
     steps [
       update_status ci ''finish_cast'',
       bnd (peek cs_lisst) (\<lambda>l. only_if (l = Lisst_yes) (finish_lisst_file ci kc) ()),
       finish_sonde ci,
       finish_samplers ci kc,
       finish_clients ci,
       update_status ci ''done'',
       modify (\<lambda>s. if cs_abort s = [] then s\<lparr>cs_completed := cs_completed s + 1\<rparr> else s)]"

section \<open>The whole procedure\<close>

text \<open>
  \<open>pre_config\<close>, with the arguments the launcher passes: those of a request, and the reloading of the
  configuration of every client. Defaults are the others. An ISCO cast stays at its depth.
\<close>

definition pre_config :: "'w cast_io \<Rightarrow> bool \<Rightarrow> bool \<Rightarrow> cast_request \<Rightarrow> ('w cast, unit) act" where
  "pre_config ci reload debug rq =
     (let a = cr_args rq; both = ca_isco a \<and> ca_lisst a
      in steps [
           modify (\<lambda>s. s\<lparr>cs_lisst := (if ca_lisst a then Lisst_yes else Lisst_no), cs_isco := ca_isco a, cs_profile := True,
             cs_sample_time := Fin 180, cs_depth_target := cr_depth rq, cs_cast_number := None, cs_cast_time := cr_time rq\<rparr>),
           (case ca_bottle_volume a of
              None \<Rightarrow> modify (\<lambda>s. s\<lparr>cs_bottle := 1, cs_volume := 1000\<rparr>)
            | Some (Some b, Some v) \<Rightarrow> modify (\<lambda>s. s\<lparr>cs_bottle := b, cs_volume := v\<rparr>)
            | Some _ \<Rightarrow> fail TypeError),
           modify (\<lambda>s. s\<lparr>cs_wipe := ca_wipe a, cs_over_cast := 1 / 5, cs_pre_cal := (ca_bottle_volume a = None),
             cs_park_pos := ca_park_pos a, cs_debug := debug\<rparr>),
           only_if reload (on_fleet (raising (ci_reload ci))) (),
           modify (\<lambda>s. s\<lparr>cs_abort := [], cs_bottom_strike := False\<rparr>),
           only_if both (abort_cast ''soft'' ''Can not perform ISCO and LISST casts at the same time.'' None) (),
           modify (\<lambda>s. s\<lparr>cs_lisst := (if both then Lisst_no else cs_lisst s), cs_profile := \<not> ca_isco a\<rparr>)])"

definition setup_phases :: "'w cast_io \<Rightarrow> cast_cfg \<Rightarrow> ('w cast, unit) act list" where
  "setup_phases ci kc =
     [aio_setup ci kc, broker_setup ci, get_tokens ci kc, check_instrument_status ci kc, check_depth ci kc,
      init_instruments ci, init_db ci]"

definition cast_phases :: "'w cast_io \<Rightarrow> cast_cfg \<Rightarrow> ('w cast, unit) act list" where
  "cast_phases ci kc =
     [pre_cast_park ci kc, pre_calibrate ci, pre_position ci kc, wait_for_sched ci kc, begin_sampling ci kc,
      data_collection ci kc, end_sampling ci, post_cast_park ci kc]"

text \<open>
  \<open>start\<close>: an exception of the phases of the cast is caught, and the cast is finished after them in
  any case. A loop that goes on is not an exception and is passed on.
\<close>

definition start_cast :: "'w cast_io \<Rightarrow> cast_cfg \<Rightarrow> ('w cast, unit) act" where
  "start_cast ci kc =
     steps [
       modify (\<lambda>s. s\<lparr>cs_started := cs_started s + 1\<rparr>),
       steps (setup_phases ci kc),
       check_position ci,
       catching (steps (cast_phases ci kc)) (\<lambda>e. if e = endless then fail e else ret ()),
       finish_cast ci kc]"

text \<open>\<open>initial_calibration\<close> goes on to the calibration of the winch even if the setup has aborted the cast.\<close>

definition calibration_request :: "instant \<Rightarrow> cast_request" where
  "calibration_request t =
     \<lparr>cr_entry = [], cr_depth = 0, cr_time = t,
      cr_args = \<lparr>ca_wipe = True, ca_park_pos = ''default'', ca_lisst = False, ca_isco = False, ca_bottle_volume = None\<rparr>\<rparr>"

definition initial_calibration :: "'w cast_io \<Rightarrow> cast_cfg \<Rightarrow> bool \<Rightarrow> instant \<Rightarrow> ('w cast, unit) act" where
  "initial_calibration ci kc debug t =
     steps [
       pre_config ci False debug (calibration_request t),
       steps (setup_phases ci kc),
       bnd (peek cs_cfg) (\<lambda>cfg. ignoring (by_winch (calibration (ci_winch ci ''calibration'') cfg (ci_cal ci) True (kc_cal_position kc)))),
       finish_cast ci kc]"

text \<open>What the launcher sees of a cast.\<close>

definition run_cast :: "bool \<Rightarrow> (cast_request \<Rightarrow> 'w cast_io) \<Rightarrow> cast_cfg \<Rightarrow> (cast_request \<Rightarrow> 'w cast \<Rightarrow> sched \<Rightarrow> sched) \<Rightarrow> 'w cast cast_fun" where
  "run_cast debug io kc env rq = (\<lambda>(s, c).
     (case pre_config (io rq) True debug rq c of
        (Inl e, c1) \<Rightarrow> (PreConfigRaised, s, c1)
      | (Inr u, c1) \<Rightarrow>
          (case start_cast (io rq) kc c1 of
             (Inl e, c2) \<Rightarrow> (StartRaised, env rq c2 s, c2)
           | (Inr v, c2) \<Rightarrow> (CastReturned, env rq c2 s, c2))))"

end
