(* ===== verification/Procedure.thy ===== *)
theory Procedure
  imports Cast
begin

text \<open>
  What a cast keeps and what it promises: the frame of its operations, the order of the phases in
  the status column, the counters, the aborted cast and the depth it goes to.
\<close>

section \<open>What the operations leave alone\<close>

text \<open>The status column and the two counters; most operations keep all three.\<close>

definition books :: "'w cast \<Rightarrow> string list \<times> nat \<times> nat" where
  "books s = (cs_status s, cs_started s, cs_completed s)"

definition quiet :: "'w cast \<Rightarrow> 'w cast \<Rightarrow> bool" where
  "quiet s s' \<longleftrightarrow> books s' = books s"

interpretation quiet: kept quiet
  by unfold_locales (simp_all add: quiet_def)

named_theorems quiet_intros

lemmas [quiet_intros] = quiet.k_rules

lemma quiet_pair [quiet_intros]: "(\<And>a b. keeps quiet (f a b)) \<Longrightarrow> keeps quiet (case p of (a, b) \<Rightarrow> f a b)"
  by (cases p) simp

lemma quiet_sum [quiet_intros]:
  "(\<And>e. keeps quiet (f e)) \<Longrightarrow> (\<And>x. keeps quiet (g x)) \<Longrightarrow> keeps quiet (case r of Inl e \<Rightarrow> f e | Inr x \<Rightarrow> g x)"
  by (cases r) simp_all

lemma quiet_modify: "(\<And>s. books (f s) = books s) \<Longrightarrow> keeps quiet (modify f)"
  by (simp add: keeps_def modify_def quiet_def)

lemma quiet_fleet [quiet_intros]: "keeps quiet (on_fleet m)"
  by (simp add: keeps_def on_fleet_def quiet_def books_def split: prod.split)

lemma quiet_ignoring [quiet_intros]: "keeps quiet m \<Longrightarrow> keeps quiet (ignoring m)"
  unfolding ignoring_def by (intro quiet_intros)

lemma quiet_numeric [quiet_intros]: "keeps quiet m \<Longrightarrow> keeps quiet (numeric m)"
  unfolding numeric_def by (intro quiet_intros)

lemma quiet_answers [quiet_intros]: "keeps quiet (answers x)"
  unfolding answers_def by (intro quiet_intros)

lemma quiet_needs [quiet_intros]: "keeps quiet m \<Longrightarrow> keeps quiet (needs n m)"
  unfolding needs_def by (intro quiet_intros)

lemma quiet_gps [quiet_intros]: "keeps quiet (by_gps m)"
proof -
  have "quiet s (snd (on_part get put m s))" for get put and s :: "'a cast"
    using quiet_fleet unfolding keeps_def on_part_def by blast
  then show ?thesis by (simp add: keeps_def by_gps_def quiet.r_refl split: option.split)
qed

lemma quiet_by [quiet_intros]:
  "keeps quiet (on_boat m)" "keeps quiet (by_winch m)" "keeps quiet (by_aio n)" "keeps quiet (by_mm3 n)" "keeps quiet (by_sonde n)"
  "keeps quiet (by_sounder n)" "keeps quiet (by_lisst n)" "keeps quiet (by_isco n)" "keeps quiet (tick ci k)"
  by (simp_all add: on_boat_def by_winch_def by_aio_def by_mm3_def by_sonde_def by_sounder_def by_lisst_def by_isco_def
      on_part_def tick_def quiet_fleet quiet_needs)

lemma quiet_flags [quiet_intros]:
  "keeps quiet (got n)" "keeps quiet (lost n)" "keeps quiet (abort_cast a r p)" "keeps quiet lisst_aborted"
  "keeps quiet no_calibration" "keeps quiet (modify (cs_cast_number_update g))" "keeps quiet (modify (cs_abort_update h))"
  "keeps quiet hard_fault"
  by (auto simp: got_def lost_def abort_cast_def lisst_aborted_def no_calibration_def hard_fault_def books_def intro!: quiet_modify)

lemma quiet_readings [quiet_intros]:
  "keeps quiet (sonde_value ci ph n)" "keeps quiet (mm3_value ci ph n)" "keeps quiet (aio_value ci ph n)"
  "keeps quiet (lisst_value ci ph n)" "keeps quiet (isco_value ci ph n)" "keeps quiet (mm3_token ci kc ph)"
  "keeps quiet (set_relay ci ph n v)" "keeps quiet (cast_update ci)"
  unfolding sonde_value_def mm3_value_def aio_value_def lisst_value_def isco_value_def mm3_token_def set_relay_def cast_update_def
  by (intro quiet_intros)+

lemma quiet_water [quiet_intros]: "keeps quiet (cast_water ci ph i)"
proof -
  have "keeps quiet (needs ''sonde'' (on_boat (sonde_in_water (ci_winch ci ph) (cs_cfg s) i)))" for s :: "'a cast"
    by (intro quiet_intros)
  then show ?thesis by (simp add: keeps_def cast_water_def)
qed

lemma quiet_token [quiet_intros]: "keeps quiet m \<Longrightarrow> keeps quiet (token_failed m)"
  unfolding token_failed_def by (intro quiet_intros)

lemma quiet_token_or [quiet_intros]: "keeps quiet m \<Longrightarrow> keeps quiet n \<Longrightarrow> keeps quiet (token_or_abort m r n)"
  unfolding token_or_abort_def by (intro quiet_intros)

lemma quiet_wipe_wait [quiet_intros]: "keeps quiet (wipe_wait ci start now ts)"
  by (induction ts arbitrary: now) (auto intro!: quiet_intros)

lemma quiet_sample_pause [quiet_intros]: "keeps quiet (sample_pause ci)"
  unfolding sample_pause_def by (rule quiet.k_bnd, rule quiet.k_peek) (auto intro!: quiet_intros split: flt.split)

lemma quiet_sample_wait [quiet_intros]: "keeps quiet (sample_wait ci tmo now ts)"
  by (induction ts arbitrary: now) (auto intro!: quiet_intros)

text \<open>Each entry of a list of steps.\<close>

lemma quiet_list [quiet_intros]: "keeps quiet (steps [])" "keeps quiet m \<Longrightarrow> keeps quiet (steps ms) \<Longrightarrow> keeps quiet (steps (m # ms))"
  by (auto intro: quiet_intros)

lemma quiet_parts [quiet_intros]:
  "keeps quiet (read_power ci)" "keeps quiet (isco_power ci kc)" "keeps quiet adjust_threshold" "keeps quiet (gps_setup ci)"
  "keeps quiet (wake_lisst ci)" "keeps quiet (water_level ci kc)" "keeps quiet (gps_position ci)"
  "keeps quiet (to_waterline ci kc cfg)" "keeps quiet (static_depth ci kc cfg)" "keeps quiet (wipe_sonde ci cfg)"
  "keeps quiet (sounder_depth ci)" "keeps quiet (limit_target ci kc w)" "keeps quiet (begin_lisst ci kc)" "keeps quiet (profile_move ci d)" "keeps quiet (missed_target ci kc)"
  unfolding read_power_def isco_power_def adjust_threshold_def gps_setup_def wake_lisst_def water_level_def gps_position_def Let_def
    sounder_depth_def limit_target_def to_waterline_def static_depth_def wipe_sonde_def begin_lisst_def profile_move_def missed_target_def
  by (intro quiet_intros quiet_modify; simp add: books_def)+

lemma quiet_parts2 [quiet_intros]:
  "keeps quiet (lisst_leftovers ci kc)" "keeps quiet (cast_record ci)" "keeps quiet (check_sonde_calibration ci ph)"
  "keeps quiet (take_profile ci kc)" "keeps quiet (take_isco ci kc)" "keeps quiet (surface_value v)"
  "keeps quiet (power_off ci kc n)" "keeps quiet (finish_lisst_file ci kc)" "keeps quiet (finish_clients ci)"
  "keeps quiet (check_position ci)"
  unfolding lisst_leftovers_def cast_record_def check_sonde_calibration_def take_profile_def take_isco_def surface_value_def Let_def
    power_off_def finish_lisst_file_def finish_clients_def check_position_def
  by (intro quiet_intros quiet_modify; simp add: books_def)+

lemma quiet_parts3 [quiet_intros]:
  "keeps quiet (check_lisst ci kc)" "keeps quiet (finish_samplers ci kc)" "keeps quiet (finish_sonde ci)"
  unfolding check_lisst_def finish_samplers_def finish_sonde_def Let_def by (intro quiet_intros)+

section \<open>The phases in the status column\<close>

text \<open>
  The abstract procedure: the phases in the order the documentation of the class gives, any of
  which may be skipped. An operation refines a list of phases if what it writes to the status
  column is a selection of the list in its order, and it leaves the counters.
\<close>

definition logged_as :: "string list \<Rightarrow> 'w cast \<Rightarrow> 'w cast \<Rightarrow> bool" where
  "logged_as xs s s' \<longleftrightarrow> cs_started s' = cs_started s \<and> cs_completed s' = cs_completed s \<and>
     (\<exists>ys. cs_status s' = cs_status s @ ys \<and> subseq ys xs)"

lemma logged_quiet: "keeps quiet m \<Longrightarrow> keeps (logged_as xs) m"
  by (auto simp: keeps_def quiet_def books_def logged_as_def)

lemma logged_status: "keeps (logged_as [n]) (update_status ci n)"
  using quiet_fleet[of "modify (ci_tick ci n)"]
  by (auto simp: keeps_def update_status_def tick_def bnd_def modify_def logged_as_def quiet_def books_def)

lemma logged_trans:
  assumes "logged_as xs s t" "logged_as ys t u"
  shows "logged_as (xs @ ys) s u"
proof -
  obtain a b where "cs_status t = cs_status s @ a" "subseq a xs" "cs_status u = cs_status t @ b" "subseq b ys"
    using assms by (auto simp: logged_as_def)
  then have "cs_status u = cs_status s @ (a @ b)" "subseq (a @ b) (xs @ ys)"
    by (simp_all add: list_emb_append_mono)
  then show ?thesis using assms by (auto simp: logged_as_def intro!: exI[of _ "a @ b"])
qed

lemma logged_more: "logged_as xs s t \<Longrightarrow> subseq xs zs \<Longrightarrow> logged_as zs s t"
  unfolding logged_as_def by (metis subseq_order.trans)

lemma logged_bnd:
  assumes "keeps (logged_as xs) m" "\<And>x. keeps (logged_as ys) (f x)"
  shows "keeps (logged_as (xs @ ys)) (bnd m f)"
  unfolding keeps_def
proof
  fix s
  show "logged_as (xs @ ys) s (snd (bnd m f s))"
  proof (rule bnd_cases[of m s f])
    fix e t
    assume "m s = (Inl e, t)" "bnd m f s = (Inl e, t)"
    then show ?thesis using logged_more[OF keepsD[OF assms(1)], of s "Inl e" t "xs @ ys"] prefix_imp_subseq[of xs "xs @ ys"] by simp
  next
    fix x t
    assume a: "m s = (Inr x, t)" "bnd m f s = f x t"
    have "logged_as ys t (snd (f x t))" using assms(2) by (simp add: keeps_def)
    with a show ?thesis using logged_trans[OF keepsD[OF assms(1) a(1)]] by simp
  qed
qed

lemma logged_first: "keeps (logged_as xs) m \<Longrightarrow> (\<And>x. keeps quiet (f x)) \<Longrightarrow> keeps (logged_as xs) (bnd m f)"
  using logged_bnd[of xs m "[]" f] logged_quiet by force

lemma logged_second: "keeps quiet m \<Longrightarrow> (\<And>x. keeps (logged_as xs) (f x)) \<Longrightarrow> keeps (logged_as xs) (bnd m f)"
  using logged_bnd[of "[]" m xs f] logged_quiet by force

lemma logged_steps:
  "keeps (logged_as []) (steps [])"
  "keeps (logged_as xs) m \<Longrightarrow> keeps (logged_as ys) (steps ms) \<Longrightarrow> keeps (logged_as (xs @ ys)) (steps (m # ms))"
  by (auto intro: logged_bnd logged_quiet quiet_intros)

lemma logged_only_if: "keeps (logged_as xs) m \<Longrightarrow> keeps (logged_as xs) (only_if c m x)"
  by (cases c) (simp_all add: logged_quiet quiet_intros)

lemma logged_unless: "keeps (logged_as xs) m \<Longrightarrow> keeps (logged_as xs) (unless_aborted m)"
  unfolding unless_aborted_def by (intro logged_second) (auto intro: quiet_intros logged_quiet)

lemma logged_catching: "keeps (logged_as xs) m \<Longrightarrow> (\<And>e. keeps quiet (h e)) \<Longrightarrow> keeps (logged_as xs) (catching m h)"
  unfolding keeps_def
proof
  fix s
  assume k: "\<forall>s. logged_as xs s (snd (m s))" "\<And>e. \<forall>s. quiet s (snd (h e s))"
  obtain r t where m: "m s = (r, t)" by (cases "m s")
  then show "logged_as xs s (snd (catching m h s))"
    using k(1)[rule_format, of s] k(2)[rule_format, of t]
    by (cases r) (auto simp: catching_def logged_as_def quiet_def books_def)
qed

text \<open>A phase that announces itself first.\<close>

lemma logged_phase: "keeps quiet (steps ms) \<Longrightarrow> keeps (logged_as [n]) (steps (update_status ci n # ms))"
  using logged_first[OF logged_status, of "\<lambda>_. steps ms"] by simp

lemma setup_logged:
  "keeps (logged_as [''aio_setup'']) (aio_setup ci kc)" "keeps (logged_as [''broker_setup'']) (broker_setup ci)"
  "keeps (logged_as [''get_tokens'']) (get_tokens ci kc)"
  "keeps (logged_as [''check_instrument_status'']) (check_instrument_status ci kc)"
  "keeps (logged_as [''check_depth'']) (check_depth ci kc)"
  "keeps (logged_as [''init_instruments'']) (init_instruments ci)" "keeps (logged_as [''init_db'']) (init_db ci)"
  unfolding aio_setup_def broker_setup_def get_tokens_def check_instrument_status_def check_depth_def init_instruments_def init_db_def Let_def
    unless_aborted_def[of "cast_record ci"]
  by (intro logged_unless logged_phase logged_first logged_status quiet_intros quiet_modify; simp add: books_def)+

lemma cast_logged:
  "keeps (logged_as [''pre_cast_park'']) (pre_cast_park ci kc)" "keeps (logged_as [''pre_calibrate'']) (pre_calibrate ci)"
  "keeps (logged_as [''pre_position'']) (pre_position ci kc)" "keeps (logged_as [''wait_for_sched'']) (wait_for_sched ci kc)"
  "keeps (logged_as [''start_sampling'']) (begin_sampling ci kc)" "keeps (logged_as [''data_collection'']) (data_collection ci kc)"
  "keeps (logged_as [''stop_sampling'']) (end_sampling ci)" "keeps (logged_as [''post_cast_park'']) (post_cast_park ci kc)"
  unfolding pre_cast_park_def pre_calibrate_def pre_position_def wait_for_sched_def begin_sampling_def data_collection_def
    end_sampling_def post_cast_park_def Let_def
  subgoal by (intro logged_unless logged_second[OF quiet.k_peek] logged_only_if logged_phase quiet_intros)
  subgoal by (intro logged_unless logged_second[OF quiet.k_peek] logged_only_if logged_phase quiet_intros)
  subgoal by (intro logged_unless logged_first logged_status quiet_intros)
  subgoal
    by (intro logged_unless logged_second[OF quiet.k_peek] logged_second[OF quiet.k_only_if] logged_only_if logged_status quiet_intros)
  subgoal by (intro logged_unless logged_phase quiet_intros)
  subgoal by (intro logged_unless logged_phase quiet_intros)
  subgoal by (intro logged_phase quiet_intros quiet_modify) (simp add: books_def)
  subgoal by (intro logged_second[OF quiet.k_peek] logged_only_if logged_first logged_status quiet_intros quiet_modify) (simp add: books_def)
  done

definition documented_phases :: "string list" where
  "documented_phases = [''aio_setup'', ''broker_setup'', ''get_tokens'', ''check_instrument_status'', ''check_depth'',
     ''init_instruments'', ''init_db'', ''pre_cast_park'', ''pre_calibrate'', ''pre_position'', ''wait_for_sched'',
     ''start_sampling'', ''data_collection'', ''stop_sampling'', ''post_cast_park'', ''finish_cast'', ''done'']"

text \<open>Everything a cast does but its first step and its last two.\<close>

definition cast_work :: "'w cast_io \<Rightarrow> cast_cfg \<Rightarrow> ('w cast, unit) act" where
  "cast_work ci kc =
     steps [steps (setup_phases ci kc), check_position ci,
            catching (steps (cast_phases ci kc)) (\<lambda>e. if e = endless then fail e else ret ()),
            update_status ci ''finish_cast'',
            bnd (peek cs_lisst) (\<lambda>l. only_if (l = Lisst_yes) (finish_lisst_file ci kc) ()),
            finish_sonde ci, finish_samplers ci kc, finish_clients ci]"

definition count_started :: "'w cast \<Rightarrow> 'w cast" where
  "count_started s = s\<lparr>cs_started := cs_started s + 1\<rparr>"

definition count_completed :: "'w cast \<Rightarrow> 'w cast" where
  "count_completed s = (if cs_abort s = [] then s\<lparr>cs_completed := cs_completed s + 1\<rparr> else s)"

lemma start_cast_work:
  "start_cast ci kc s =
     bnd (cast_work ci kc) (\<lambda>_. bnd (update_status ci ''done'') (\<lambda>_. modify count_completed)) (count_started s)"
proof -
  have "start_cast ci kc =
     bnd (modify count_started) (\<lambda>_. bnd (cast_work ci kc) (\<lambda>_. bnd (update_status ci ''done'') (\<lambda>_. modify count_completed)))"
    by (simp add: start_cast_def cast_work_def finish_cast_def bnd_assoc bnd_ret count_completed_def[abs_def] count_started_def[abs_def])
  then show ?thesis by (simp add: bnd_def[of "modify count_started"] modify_def)
qed

lemma logged_list:
  "list_all2 (\<lambda>xs m. keeps (logged_as xs) m) xss ms \<Longrightarrow> keeps (logged_as (concat xss)) (steps ms)"
  by (induction rule: list_all2_induct) (auto intro: logged_bnd simp: logged_quiet quiet_intros)

lemma phases_logged:
  "keeps (logged_as (concat (map (\<lambda>n. [n]) (take 7 documented_phases)))) (steps (setup_phases ci kc))"
  "keeps (logged_as (concat (map (\<lambda>n. [n]) (take 8 (drop 7 documented_phases))))) (steps (cast_phases ci kc))"
  by (rule logged_list, simp add: documented_phases_def setup_phases_def cast_phases_def setup_logged cast_logged)+

lemma work_logged: "keeps (logged_as (butlast documented_phases)) (cast_work ci kc)"
proof -
  have c: "keeps (logged_as (concat (map (\<lambda>n. [n]) (take 8 (drop 7 documented_phases)))))
      (catching (steps (cast_phases ci kc)) (\<lambda>e. if e = endless then fail e else ret ()))"
    by (rule logged_catching[OF phases_logged(2)]) (simp add: quiet_intros)
  have l: "keeps quiet (bnd (peek cs_lisst) (\<lambda>l. only_if (l = Lisst_yes) (finish_lisst_file ci kc) ()))"
    by (intro quiet_intros)
  have "keeps (logged_as (concat [concat (map (\<lambda>n. [n]) (take 7 documented_phases)), [],
      concat (map (\<lambda>n. [n]) (take 8 (drop 7 documented_phases))), [''finish_cast''], [], [], [], []])) (cast_work ci kc)"
    unfolding cast_work_def
    by (rule logged_list)
      (simp only: list_all2_Cons list_all2_Nil phases_logged(1) c l logged_status logged_quiet quiet_intros simp_thms)
  then show ?thesis by (simp add: documented_phases_def)
qed

text \<open>How a cast ends: its work raises, or the status done is written and the cast may count.\<close>

lemma start_cast_cases:
  obtains (raised) e t ys where "start_cast ci kc s = (Inl e, t)" "cs_status t = cs_status s @ ys"
    "subseq ys (butlast documented_phases)" "cs_started t = cs_started s + 1" "cs_completed t = cs_completed s"
  | (ended) t ys where "start_cast ci kc s = (Inr (), count_completed t)" "cs_status t = cs_status s @ ys @ [''done'']"
    "subseq ys (butlast documented_phases)" "cs_started t = cs_started s + 1" "cs_completed t = cs_completed s"
proof -
  obtain r t where w: "cast_work ci kc (count_started s) = (r, t)" by (cases "cast_work ci kc (count_started s)")
  have l: "logged_as (butlast documented_phases) (count_started s) t" by (rule keepsD[OF work_logged w])
  show thesis
  proof (cases r)
    case (Inl e)
    then have "start_cast ci kc s = (Inl e, t)" using w by (simp add: start_cast_work bnd_def)
    with l raised show thesis by (auto simp: logged_as_def count_started_def)
  next
    case (Inr u)
    obtain t2 where t2: "update_status ci ''done'' t = (Inr (), t2)" "cs_status t2 = cs_status t @ [''done'']"
      "cs_started t2 = cs_started t" "cs_completed t2 = cs_completed t"
      by (auto simp: update_status_def bnd_def modify_def tick_def on_fleet_def)
    have "start_cast ci kc s = (Inr (), count_completed t2)"
      using w Inr t2(1) by (simp add: start_cast_work bnd_def modify_def)
    with l t2(2-4) ended show thesis by (auto simp: logged_as_def count_started_def)
  qed
qed

section \<open>Properties\<close>

text \<open>
  C20. Every cast, however it ends, writes phases of the documented procedure to the status column,
  each at most once and in their order; unless an exception leaves it, the last one is done.
\<close>

theorem phase_order:
  "\<exists>ys. cs_status (snd (start_cast ci kc s)) = cs_status s @ ys \<and> subseq ys documented_phases \<and>
     ((\<exists>e. fst (start_cast ci kc s) = Inl e) \<or> (\<exists>zs. ys = zs @ [''done'']))"
proof -
  have d: "documented_phases = butlast documented_phases @ [''done'']" by (simp add: documented_phases_def)
  show ?thesis
  proof (cases rule: start_cast_cases[of ci kc s])
    case (raised e t ys)
    have "subseq (butlast documented_phases) documented_phases" by (simp add: documented_phases_def)
    with raised(3) have "subseq ys documented_phases" by (rule subseq_order.trans)
    with raised show ?thesis by auto
  next
    case (ended t ys)
    have "subseq (ys @ [''done'']) documented_phases" by (subst d) (use ended(3) in simp)
    with ended show ?thesis by (auto simp: count_completed_def)
  qed
qed

text \<open>
  C21. A cast always counts as started, and as completed exactly if it has come to its end and was
  not aborted.
\<close>

theorem completed_without_abort:
  "case start_cast ci kc s of (r, s') \<Rightarrow>
     cs_started s' = cs_started s + 1 \<and>
     cs_completed s' = cs_completed s + (if r = Inr () \<and> cs_abort s' = [] then 1 else 0)"
  by (cases rule: start_cast_cases[of ci kc s]) (auto simp: count_completed_def)

text \<open>What happens after an abort.\<close>

lemma aborted_skip: "cs_abort s \<noteq> [] \<Longrightarrow> unless_aborted m s = (Inr (), s)"
  by (simp add: unless_aborted_def bnd_def peek_def ret_def)

definition same_abort :: "'w cast \<Rightarrow> 'w cast \<Rightarrow> bool" where
  "same_abort s s' \<longleftrightarrow> cs_abort s' = cs_abort s"

interpretation ab: kept same_abort
  by unfold_locales (simp_all add: same_abort_def)

lemma ab_basic:
  "keeps same_abort (on_fleet m)" "keeps same_abort (tick ci n)" "keeps same_abort (on_boat q)"
  by (simp_all add: keeps_def on_fleet_def on_boat_def tick_def modify_def same_abort_def split: prod.split)

lemma ab_modify: "(\<And>s. cs_abort (f s) = cs_abort s) \<Longrightarrow> keeps same_abort (modify f)"
  by (simp add: keeps_def modify_def same_abort_def)

lemma ab_needs: "keeps same_abort m \<Longrightarrow> keeps same_abort (needs n m)"
  unfolding needs_def by (intro ab.k_rules)

lemma ab_ignoring: "keeps same_abort m \<Longrightarrow> keeps same_abort (ignoring m)"
  unfolding ignoring_def by (intro ab.k_rules)

lemma ab_steps: "keeps same_abort (steps [])" "keeps same_abort m \<Longrightarrow> keeps same_abort (steps ms) \<Longrightarrow> keeps same_abort (steps (m # ms))"
  by (auto intro: ab.k_rules)

lemma end_sampling_abort: "keeps same_abort (end_sampling ci)"
  unfolding end_sampling_def Let_def update_status_def sonde_value_def mm3_value_def cast_update_def answers_def
    by_lisst_def by_sonde_def by_mm3_def on_part_def
  by (intro ab_steps ab_ignoring ab_needs ab_basic ab_modify ab.k_rules) simp_all


text \<open>
  C23. The target of a cast is never below the greatest depth of a cast, the cable or the working depth at the
  sounder less the two offsets; a target of zero means as deep as these allow.
\<close>

lemma fleet_frame: "on_fleet m s = (r, s') \<Longrightarrow> \<exists>f. s' = s\<lparr>cs_fleet := f\<rparr>"
  by (auto simp: on_fleet_def split: prod.splits)

lemma sounder_frame: "by_sounder m s = (r, s') \<Longrightarrow> \<exists>f. s' = s\<lparr>cs_fleet := f\<rparr>"
  by (cases "''sounder'' \<in> set (cs_has s)")
    (auto simp: by_sounder_def needs_def on_part_def bnd_def peek_def fail_def intro: fleet_frame exI[of _ "cs_fleet s"])

lemma max_depth_bounds:
  "max_depth kc cfg w \<le> wc_max_depth cfg" "max_depth kc cfg w \<le> kc_cable kc"
  "max_depth kc cfg w \<le> w - kc_instr_offset kc - kc_bottom_offset kc"
  by (auto simp: max_depth_def Let_def)

lemma bnd_now: "bnd (peek f) g s = g (f s) s" "bnd (modify h) k s = k () (h s)"
  by (simp_all add: bnd_def peek_def modify_def)

lemma limit_target_result:
  assumes "limit_target ci kc w s = (Inr (), s')"
  shows "cs_depth_target s' = target_depth (max_depth kc (cs_cfg s) w) (cs_depth_target s)"
proof -
  let ?s = "s\<lparr>cs_depth_target := target_depth (max_depth kc (cs_cfg s) w) (cs_depth_target s)\<rparr>"
  let ?c = "cs_depth_target s \<le> max_depth kc (cs_cfg s) w \<and> cs_depth_target s = 0"
  have l: "only_if ?c (ignoring (sounder_depth ci)) () ?s = (Inr (), s')"
    using assms by (simp add: limit_target_def bnd_now bnd_ret)
  have "\<exists>f. s' = ?s\<lparr>cs_fleet := f\<rparr>"
  proof (cases ?c)
    case True
    with l obtain v where "by_sounder (reading ci ''check_depth'' (\<lambda>_. ci_sounder ci) ''water_depth_working'') ?s = (Inr v, s')"
      by (auto simp: ignoring_def sounder_depth_def ret_def elim!: bnd_InrE)
    then show ?thesis by (rule sounder_frame)
  next
    case False
    have "s' = ?s" using l unfolding only_if_def if_not_P[OF False] by (simp add: ret_def)
    then show ?thesis by (intro exI[of _ "cs_fleet s"]) simp
  qed
  then show ?thesis by auto
qed


section \<open>Witnesses\<close>

definition demo_fleet :: "pyval list fleet" where
  "demo_fleet = \<lparr>fl_boat = demo_boat,
     fl_sounder = demo_broker\<lparr>bk_attrs := [(''water_depth_working'', AItem ''water_depth_working'')],
       bk_items := [(''water_depth_working'', demo_reading ''water_depth_working'' (PFloat 6))]\<rparr>,
     fl_gps = None, fl_lisst = demo_broker, fl_isco = demo_broker\<rparr>"

definition demo_cast :: "pyval list cast" where
  "demo_cast = \<lparr>cs_fleet = demo_fleet, cs_cfg = demo_winch, cs_has = [''aio'', ''winch'', ''sonde'', ''mm3'', ''sounder''],
     cs_gps = None, cs_abort = [], cs_lisst = Lisst_no, cs_isco = False, cs_profile = True, cs_sample_time = Fin 180, cs_depth_target = 10,
     cs_cast_number = None, cs_cast_time = 0, cs_bottle = 1, cs_volume = 1000, cs_wipe = True, cs_over_cast = 1 / 5,
     cs_pre_cal = True, cs_park_pos = ''default'', cs_debug = False, cs_bottom_strike = False, cs_adjusted = None,
     cs_started = 1, cs_completed = 0, cs_status = []\<rparr>"

definition demo_cast_io :: "pyval list cast_io" where
  "demo_cast_io = \<lparr>ci_winch = (\<lambda>ph. demo_winch_io), ci_sounder = script_rpc, ci_gps = script_rpc, ci_lisst = script_rpc,
     ci_isco = script_rpc, ci_startup = (\<lambda>ns f. (None, f)), ci_reload = (\<lambda>f. (None, f)), ci_tick = (\<lambda>n f. f),
     ci_open_db = None, ci_insert = None, ci_max_no = Inr (Some 7), ci_update = None, ci_wipe_polls = [], ci_isco_polls = [],
     ci_cal = \<lparr>ct_start = 0, ct_polls = [0], ct_end = 0\<rparr>\<rparr>"

definition demo_kc :: cast_cfg where
  "demo_kc = \<lparr>kc_program = ''avp_cast'', kc_relay_on = 0, kc_relay_off = 1, kc_cal_position = 5000, kc_cable = 12,
     kc_instr_offset = 254 / 1000, kc_bottom_offset = 1 / 5, kc_target_error = 1 / 10,
     kc_lisst = default_lisst, kc_latency = 10, kc_level_min = 0, kc_level_warn = 10, kc_isco_timeout = 180\<rparr>"



end
