(* ===== verification/Battery.thy ===== *)
theory Battery
  imports Util
begin

text \<open>
  The monitors of current and voltage, src/python/avp_power.py: amp-hours are summed up from samples
  of the current, and averages are kept over about a minute. Instants are local times.
\<close>

section \<open>Numbers and time spans\<close>

text \<open>\<open>float(v)\<close>; texts for values that are not finite are taken as errors.\<close>

fun py_float :: "pyval \<Rightarrow> rat res" where
  "py_float (PInt i) = Inr (of_int i)"
| "py_float (PFloat q) = Inr q"
| "py_float (PBool b) = Inr (if b then 1 else 0)"
| "py_float (PStr s) = (case float_of_string s of Inr (Fin q) \<Rightarrow> Inr q | _ \<Rightarrow> Inl ValueError)"
| "py_float _ = Inl TypeError"

text \<open>\<open>timedelta.seconds\<close>: the whole seconds of the part below a day, which is never negative.\<close>

definition span_seconds :: "timespan \<Rightarrow> int" where
  "span_seconds d = d div 1000000 mod 86400"

definition day_of :: "instant \<Rightarrow> int" where
  "day_of t = cday (civil_of t)"

section \<open>Current\<close>

record current_mon =
  cm_amp_hours :: rat
  cm_last :: "instant option"
  cm_date :: int
  cm_value :: rat
  cm_vals :: "rat list"
  cm_times :: "instant list"
  cm_ave :: rat
  cm_total :: timespan
  cm_max :: rat

text \<open>
  The constructor, at a day of the month; amp-hours that are no number count as 0. Resetting calls
  the constructor without them.
\<close>

definition reset_current :: "int \<Rightarrow> current_mon" where
  "reset_current today =
     \<lparr>cm_amp_hours = 0, cm_last = None, cm_date = today, cm_value = 0, cm_vals = [], cm_times = [], cm_ave = 0,
      cm_total = 0, cm_max = - 99\<rparr>"

definition new_current :: "int \<Rightarrow> pyval \<Rightarrow> current_mon res" where
  "new_current today ah =
     (case py_float ah of
        Inr q \<Rightarrow> Inr ((reset_current today)\<lparr>cm_amp_hours := q\<rparr>)
      | Inl e \<Rightarrow> if e = TypeError then Inr (reset_current today) else Inl e)"

definition max_step :: timespan where
  "max_step = seconds (60 * 10)"

definition mean :: "rat list \<Rightarrow> rat" where
  "mean xs = sum_list xs / of_nat (length xs)"

text \<open>The history keeps a minute, but a sample drops at most one old value.\<close>

definition push_value :: "instant \<Rightarrow> rat \<Rightarrow> rat list \<Rightarrow> instant list \<Rightarrow> rat list \<times> instant list" where
  "push_value t x vals stamps =
     (let vs = vals @ [x]; ts = stamps @ [t]
      in if t - hd ts > seconds 60 then (tl vs, tl ts) else (vs, ts))"

definition store_current :: "instant \<Rightarrow> rat \<Rightarrow> current_mon \<Rightarrow> current_mon" where
  "store_current t x m =
     (let (vs, ts) = push_value t x (cm_vals m) (cm_times m)
      in m\<lparr>cm_value := x, cm_max := max (cm_max m) x, cm_vals := vs, cm_times := ts, cm_ave := mean vs\<rparr>)"

text \<open>
  \<open>accumCurrent\<close>: on another day everything starts anew (with the day of the clock, not of the
  sample). A step of more than ten minutes is refused, and nothing is changed then. The last time
  is stored before the value is converted.
\<close>

definition accum_current :: "int \<Rightarrow> rat \<Rightarrow> rat \<Rightarrow> instant \<times> pyval \<Rightarrow> current_mon \<Rightarrow> pyexn option \<times> current_mon" where
  "accum_current today offset mult sample m0 =
     (let (t, v) = sample;
          m = (if day_of t \<noteq> cm_date m0 then reset_current today else m0);
          take = (\<lambda>m. let m1 = m\<lparr>cm_last := Some t\<rparr>
                      in case py_float v of
                           Inl e \<Rightarrow> (Some e, m1)
                         | Inr q \<Rightarrow> (None, store_current t ((q - offset) * mult) m1))
      in case cm_last m of
           None \<Rightarrow> take m
         | Some l \<Rightarrow>
             (let step = t - l
              in if step > max_step then (None, m)
                 else take (m\<lparr>cm_total := cm_total m + step,
                              cm_amp_hours := cm_amp_hours m + cm_value m * (of_int (span_seconds step) / 3600)\<rparr>)))"

text \<open>The callback; an exception ends the thread of the callback only.\<close>

definition current_cb :: "bool \<Rightarrow> int \<Rightarrow> rat \<Rightarrow> rat \<Rightarrow> instant \<times> pyval \<Rightarrow> current_mon \<Rightarrow> current_mon" where
  "current_cb initialized today offset mult sample m =
     (if initialized then snd (accum_current today offset mult sample m) else m)"

definition run_current :: "int \<Rightarrow> rat \<Rightarrow> rat \<Rightarrow> (instant \<times> pyval) list \<Rightarrow> current_mon \<Rightarrow> current_mon" where
  "run_current today offset mult samples m = fold (current_cb True today offset mult) samples m"

section \<open>Voltage\<close>

record voltage_mon =
  vm_value :: rat
  vm_vals :: "rat list"
  vm_times :: "instant list"
  vm_ave :: rat
  vm_min :: rat

definition new_voltage :: voltage_mon where
  "new_voltage = \<lparr>vm_value = 0, vm_vals = [], vm_times = [], vm_ave = 0, vm_min = 999\<rparr>"

text \<open>\<open>reset\<close> calls the constructor without the configuration it requires.\<close>

definition reset_voltage :: "voltage_mon \<Rightarrow> pyexn option \<times> voltage_mon" where
  "reset_voltage m = (Some TypeError, m)"

definition accum_voltage :: "rat \<Rightarrow> instant \<times> pyval \<Rightarrow> voltage_mon \<Rightarrow> pyexn option \<times> voltage_mon" where
  "accum_voltage mult sample m =
     (let (t, v) = sample
      in case py_float v of
           Inl e \<Rightarrow> (Some e, m)
         | Inr q \<Rightarrow>
             (let (vs, ts) = push_value t (q * mult) (vm_vals m) (vm_times m)
              in (None, m\<lparr>vm_value := q * mult, vm_vals := vs, vm_times := ts, vm_ave := mean vs, vm_min := Min (set vs)\<rparr>)))"

definition voltage_cb :: "bool \<Rightarrow> rat \<Rightarrow> instant \<times> pyval \<Rightarrow> voltage_mon \<Rightarrow> voltage_mon" where
  "voltage_cb initialized mult sample m = (if initialized then snd (accum_voltage mult sample m) else m)"

section \<open>Lemmas\<close>

text \<open>The reference: every sample's current flows until the next sample, counted in whole seconds.\<close>

definition charge :: "rat \<Rightarrow> rat \<Rightarrow> (instant \<times> rat) list \<Rightarrow> rat" where
  "charge offset mult xs =
     (\<Sum>((t, x), (t', x')) \<leftarrow> zip xs (tl xs). (x - offset) * mult * (of_int ((t' - t) div 1000000) / 3600))"

definition steady :: "(instant \<times> rat) list \<Rightarrow> bool" where
  "steady xs \<longleftrightarrow> list_all (\<lambda>((t, x), (t', x')). t \<le> t' \<and> t' - t \<le> max_step) (zip xs (tl xs))"

definition as_samples :: "(instant \<times> rat) list \<Rightarrow> (instant \<times> pyval) list" where
  "as_samples xs = map (\<lambda>(t, x). (t, PFloat x)) xs"

lemma store_current_simps [simp]:
  "cm_amp_hours (store_current t x m) = cm_amp_hours m" "cm_last (store_current t x m) = cm_last m"
  "cm_date (store_current t x m) = cm_date m" "cm_value (store_current t x m) = x"
  by (simp_all add: store_current_def Let_def split: prod.split)

lemma span_short: "0 \<le> d \<Longrightarrow> d \<le> max_step \<Longrightarrow> span_seconds d = d div 1000000"
  by (simp add: span_seconds_def max_step_def seconds_def)

lemma accum_next:
  assumes "day_of t = cm_date m" "cm_last m = Some l" "l \<le> t" "t - l \<le> max_step"
  shows "current_cb True today offset mult (t, PFloat x) m =
    store_current t ((x - offset) * mult) (m\<lparr>cm_total := cm_total m + (t - l),
      cm_amp_hours := cm_amp_hours m + cm_value m * (of_int ((t - l) div 1000000) / 3600), cm_last := Some t\<rparr>)"
  using assms by (simp add: current_cb_def accum_current_def Let_def span_short)

lemma run_steady:
  assumes "cm_last m = Some l" "steady ((l, x0) # xs)" "\<forall>(t, x) \<in> set xs. day_of t = cm_date m" "cm_value m = (x0 - offset) * mult"
  shows "cm_amp_hours (run_current today offset mult (as_samples xs) m) = cm_amp_hours m + charge offset mult ((l, x0) # xs)"
  using assms
proof (induction xs arbitrary: m l x0)
  case Nil
  then show ?case by (simp add: run_current_def as_samples_def charge_def)
next
  case (Cons p xs)
  obtain t x where p: "p = (t, x)" by (cases p)
  let ?m = "current_cb True today offset mult (t, PFloat x) m"
  have s: "l \<le> t" "t - l \<le> max_step" "steady ((t, x) # xs)" "day_of t = cm_date m"
    using Cons.prems p by (simp_all add: steady_def)
  have m: "cm_amp_hours ?m = cm_amp_hours m + (x0 - offset) * mult * (of_int ((t - l) div 1000000) / 3600)"
    "cm_last ?m = Some t" "cm_date ?m = cm_date m" "cm_value ?m = (x - offset) * mult"
    using Cons.prems(1,4) accum_next[OF s(4) Cons.prems(1) s(1,2), of today offset mult x] by simp_all
  have "cm_amp_hours (run_current today offset mult (as_samples xs) ?m) = cm_amp_hours ?m + charge offset mult ((t, x) # xs)"
    using Cons.prems(3) p by (intro Cons.IH m(2) s(3) m(4)) (auto simp: m(3))
  then show ?case by (simp add: p run_current_def as_samples_def charge_def m(1))
qed

section \<open>Properties\<close>

text \<open>
  C24. While samples come in order, at most ten minutes apart and on one day, the amp-hours are the
  sum over the samples of the current times the whole seconds to the next sample.
\<close>

theorem amp_hours_integral:
  assumes "steady xs" "\<forall>(t, x) \<in> set xs. day_of t = cm_date m" "cm_last m = None"
  shows "cm_amp_hours (run_current today offset mult (as_samples xs) m) = cm_amp_hours m + charge offset mult xs"
proof (cases xs)
  case Nil
  then show ?thesis by (simp add: run_current_def as_samples_def charge_def)
next
  case (Cons p ys)
  obtain t x where p: "p = (t, x)" by (cases p)
  let ?m = "current_cb True today offset mult (t, PFloat x) m"
  have m: "cm_amp_hours ?m = cm_amp_hours m" "cm_last ?m = Some t" "cm_date ?m = cm_date m" "cm_value ?m = (x - offset) * mult"
    using assms Cons p by (simp_all add: current_cb_def accum_current_def Let_def)
  have "cm_amp_hours (run_current today offset mult (as_samples ys) ?m) = cm_amp_hours ?m + charge offset mult ((t, x) # ys)"
    using assms Cons p by (intro run_steady m) (auto simp: m(3))
  then show ?thesis by (simp add: Cons p run_current_def as_samples_def m(1))
qed

text \<open>
  After a gap of more than ten minutes the monitor is stuck: no sample of the day is counted any
  more, because a refused sample does not become the last one.
\<close>

theorem stuck_after_gap:
  assumes "cm_last m = Some l" "\<forall>(t, v) \<in> set samples. t - l > max_step \<and> day_of t = cm_date m"
  shows "run_current today offset mult samples m = m"
  using assms(2)
proof (induction samples)
  case (Cons s samples)
  then have "current_cb True today offset mult s m = m"
    using assms(1) by (cases s) (simp add: current_cb_def accum_current_def Let_def)
  with Cons show ?case by (simp add: run_current_def)
qed (simp add: run_current_def)

text \<open>
  A sample that is dated earlier than the last one, by less than a day, is counted as if almost a whole day
  had passed: the negative step has the seconds of its distance to a day.
\<close>

theorem clock_back_adds_day:
  assumes "cm_last m = Some l" "day_of (l - seconds k) = cm_date m" "0 < k" "k < 86400"
  shows "cm_amp_hours (current_cb True today offset mult (l - seconds k, v) m) =
    cm_amp_hours m + cm_value m * (of_int (86400 - k) / 3600)"
proof -
  have "span_seconds (- seconds k) = - k mod 86400"
    unfolding span_seconds_def seconds_def by (simp add: minus_mult_left del: mult_minus_left)
  also have "\<dots> = 86400 - k" using assms(3,4) by (simp add: zmod_zminus1_eq_if)
  finally have s: "span_seconds (- seconds k) = 86400 - k" .
  have "\<not> - seconds k > max_step" using assms(3) by (simp add: seconds_def max_step_def)
  then show ?thesis using assms(1,2) s
    by (simp add: current_cb_def accum_current_def Let_def split: sum.split)
qed

section \<open>Witnesses\<close>

definition demo_mon :: current_mon where
  "demo_mon = (reset_current 29)\<lparr>cm_amp_hours := 1\<rparr>"

definition noon :: instant where
  "noon = (case instant_of (Civil 2024 2 29 12 0) of Inr t \<Rightarrow> t)"

theorem amp_hours_integral_witness:
  "cm_amp_hours (run_current 29 0 1 (as_samples [(noon, 36), (noon + seconds 100, 18), (noon + seconds 200, 0)]) demo_mon) = 5 / 2"
proof -
  have 1: "steady [(noon, 36), (noon + seconds 100, 18), (noon + seconds 200, 0)]"
    "\<forall>(t, x) \<in> set [(noon, 36), (noon + seconds 100, 18), (noon + seconds 200, 0::rat)]. day_of t = cm_date demo_mon"
    "cm_last demo_mon = None" by code_simp+
  have 2: "cm_amp_hours demo_mon + charge 0 1 [(noon, 36), (noon + seconds 100, 18), (noon + seconds 200, 0)] = 5 / 2"
    by code_simp
  from amp_hours_integral[OF 1, of 29 0 1] 2 show ?thesis by simp
qed

theorem stuck_after_gap_witness:
  "run_current 29 0 1 [(noon + seconds 601, PFloat 5), (noon + seconds 602, PFloat 5)] (demo_mon\<lparr>cm_last := Some noon\<rparr>) =
     demo_mon\<lparr>cm_last := Some noon\<rparr>"
proof -
  have "\<forall>(t, v) \<in> set [(noon + seconds 601, PFloat 5), (noon + seconds 602, PFloat 5)].
      t - noon > max_step \<and> day_of t = cm_date (demo_mon\<lparr>cm_last := Some noon\<rparr>)" by code_simp
  from stuck_after_gap[OF _ this] show ?thesis by simp
qed

theorem clock_back_adds_day_witness:
  "cm_amp_hours (current_cb True 29 0 1 (noon - seconds 1, PFloat 5) (demo_mon\<lparr>cm_last := Some noon, cm_value := 2\<rparr>)) =
     1 + 2 * (86399 / 3600)"
proof -
  have 1: "day_of (noon - seconds 1) = cm_date (demo_mon\<lparr>cm_last := Some noon, cm_value := 2\<rparr>)" by code_simp
  from clock_back_adds_day[OF _ 1, of 29 0 1 "PFloat 5"] show ?thesis by (simp add: demo_mon_def)
qed

end
