(* ===== verification/Database.thy ===== *)
theory Database
  imports Util "HOL-Library.Sublist"
begin

text \<open>
  The database layer, class \<open>AvpDB\<close> of src/python/avp_db.py: building statements, inserting, and
  the buffer of rows. The server and psycopg2 are an input: whether a connection can be made and
  how the execution of a statement ends. A date and time in a row is the number of its instant.
\<close>

section \<open>Statements\<close>

text \<open>A statement is text with placeholders, whose values are passed beside it.\<close>

datatype frag = Txt string | Place string

fun render :: "frag list \<Rightarrow> string" where
  "render [] = []"
| "render (Txt s # fs) = s @ render fs"
| "render (Place k # fs) = ''%('' @ k @ '')s'' @ render fs"

fun places :: "frag list \<Rightarrow> string list" where
  "places [] = []"
| "places (Txt s # fs) = places fs"
| "places (Place k # fs) = k # places fs"

text \<open>The pieces of a list, the first after a blank and the others after the separator.\<close>

fun joined :: "string \<Rightarrow> string \<Rightarrow> frag list list \<Rightarrow> frag list" where
  "joined start sep [] = []"
| "joined start sep (p # ps) = Txt start # p @ joined sep sep ps"

text \<open>
  The keys of a condition get a prefix, lest they meet those of the values; a key that has it
  already is left.
\<close>

definition is_mangled :: "string \<Rightarrow> bool" where
  "is_mangled k \<longleftrightarrow> take 3 k = ''_w_''"

definition mangled :: "string \<Rightarrow> string" where
  "mangled k = ''_w_'' @ k"

definition plain_key :: "string \<Rightarrow> string" where
  "plain_key k = (if is_mangled k then drop 3 k else k)"

definition mangle_all :: "pyval dict \<Rightarrow> pyval dict" where
  "mangle_all w =
     (let old = filter (\<lambda>k. \<not> is_mangled k) (dkeys w)
      in fold (\<lambda>k d. dpop d k) old (fold (\<lambda>k d. dset d (mangled k) (dget_or w k PNone)) old w))"

definition where_part :: "string \<Rightarrow> string \<Rightarrow> pyval dict \<Rightarrow> frag list" where
  "where_part join oper w =
     (if w = [] then []
      else Txt '' WHERE '' # Txt '' '' #
           joined '' '' ('' '' @ join @ '' '')
             (map (\<lambda>k. [Txt (plain_key k @ '' '' @ oper @ '' ''), Place (mangled (plain_key k))]) (dkeys w)))"

text \<open>
  \<open>_gen_string\<close>: the statement, the values for its placeholders and the condition, which is
  mangled in place. A deletion without a condition is an empty statement; the values of a SELECT
  are the names of columns and cannot be joined with the condition.
\<close>

datatype command = Insert "pyval dict" | Update "pyval dict" | Select "string list" | Delete

definition head_part :: "string \<Rightarrow> command \<Rightarrow> frag list" where
  "head_part table c =
     (case c of
        Insert d \<Rightarrow> Txt ''INSERT INTO '' # Txt table # Txt '' ('' # joined '' '' '', '' (map (\<lambda>k. [Txt k]) (dkeys d)) @
          Txt '') VALUES ('' # joined '' '' '', '' (map (\<lambda>k. [Place k]) (dkeys d)) @ [Txt '')'']
      | Update d \<Rightarrow> Txt ''UPDATE '' # Txt table # Txt '' SET '' #
          joined '' '' '', '' (map (\<lambda>k. [Txt (k @ '' = ''), Place k]) (dkeys d)) @ [Txt '' '']
      | Select cols \<Rightarrow> Txt ''SELECT'' # joined '' '' '', '' (map (\<lambda>k. [Txt k]) cols) @ [Txt '' FROM '', Txt table, Txt '' '']
      | Delete \<Rightarrow> [Txt ''DELETE FROM '', Txt table])"

definition values_of :: "command \<Rightarrow> pyval dict \<Rightarrow> pyval dict" where
  "values_of c w = (case c of Insert d \<Rightarrow> dupdate d w | Update d \<Rightarrow> dupdate d w | _ \<Rightarrow> w)"

definition gen_string :: "string \<Rightarrow> command \<Rightarrow> pyval dict \<Rightarrow> string \<Rightarrow> string \<Rightarrow> string option \<Rightarrow>
    frag list \<times> pyval dict \<times> pyval dict" where
  "gen_string table c w join oper returning =
     (if c = Delete \<and> w = [] then ([], [], [])
      else (head_part table c @ where_part join oper w @
              (case returning of None \<Rightarrow> [] | Some r \<Rightarrow> [Txt '' RETURNING '', Txt r]) @ [Txt '';''],
            values_of c (mangle_all w), mangle_all w))"

section \<open>Inserting\<close>

datatype db_answer = Stored | Integrity_error | Data_error | Other_error

type_synonym 'w server = "string \<Rightarrow> pyval dict \<Rightarrow> 'w \<Rightarrow> db_answer \<times> 'w"
type_synonym 'w connector = "'w \<Rightarrow> bool \<times> 'w"

record avp_db =
  db_table :: string
  db_hostname :: string
  db_enabled :: bool
  db_polling :: bool
  db_columns :: "string list"
  db_connected :: bool
  db_cursor :: bool
  db_queue :: "pyval dict list"

text \<open>
  \<open>_connect\<close>: the cursor is dropped first; a failure leaves the flag \<open>connected\<close> as it was. The LISTEN
  of a polling connection is left out.
\<close>

definition db_connect :: "'w connector \<Rightarrow> avp_db \<times> 'w \<Rightarrow> avp_db \<times> 'w" where
  "db_connect conn dw =
     (case dw of (d, w) \<Rightarrow>
        if \<not> db_enabled d then (d\<lparr>db_cursor := False\<rparr>, w)
        else (case conn w of (ok, w1) \<Rightarrow> (d\<lparr>db_cursor := ok, db_connected := db_connected d \<or> ok\<rparr>, w1)))"

definition db_ready :: "'w connector \<Rightarrow> avp_db \<times> 'w \<Rightarrow> avp_db \<times> 'w" where
  "db_ready conn dw = (if db_connected (fst dw) then dw else db_connect conn dw)"

definition db_close :: "avp_db \<Rightarrow> avp_db" where
  "db_close d = (if db_enabled d then d\<lparr>db_connected := False\<rparr> else d)"

definition db_done :: "avp_db \<Rightarrow> avp_db" where
  "db_done d = (if db_polling d then d else db_close d)"

text \<open>Executing a statement; without a cursor there is only an error of its own.\<close>

definition db_execute :: "'w server \<Rightarrow> frag list \<Rightarrow> pyval dict \<Rightarrow> avp_db \<times> 'w \<Rightarrow> db_answer \<times> 'w" where
  "db_execute exec fs vals dw = (if db_cursor (fst dw) then exec (render fs) vals (snd dw) else (Other_error, snd dw))"

text \<open>
  The time of a row is moved by 100 microseconds; past the end of the second the constructor of
  the time raises ValueError.
\<close>

definition bump_time :: "pyval dict \<Rightarrow> pyval dict res" where
  "bump_time row =
     (case dget row ''time'' of
        None \<Rightarrow> Inr row
      | Some (PInt t) \<Rightarrow> if t mod 1000000 + 100 \<ge> 1000000 then Inl ValueError else Inr (dset row ''time'' (PInt (t + 100)))
      | Some v \<Rightarrow> Inl AttributeError)"

definition with_location :: "avp_db \<Rightarrow> pyval dict \<Rightarrow> pyval dict" where
  "with_location d row =
     (if ''loc_code'' \<in> set (db_columns d)
      then dset (dpop row ''loc_code'') ''loc_code'' (dget_or row ''loc_code'' (PStr (db_hostname d))) else row)"

text \<open>\<open>insert\<close>: the result, the row as it is then, which is the caller's, and the database.\<close>

definition insert_row :: "'w connector \<Rightarrow> 'w server \<Rightarrow> pyval dict \<Rightarrow> avp_db \<times> 'w \<Rightarrow>
    bool option res \<times> pyval dict \<times> avp_db \<times> 'w" where
  "insert_row conn exec row dw =
     (if \<not> db_enabled (fst dw) then (Inr None, row, dw)
      else (let row1 = with_location (fst dw) row;
                fs = fst (gen_string (db_table (fst dw)) (Insert row1) [] ''AND'' ''='' None);
                (d1, w1) = db_ready conn dw
            in case db_execute exec fs row1 (d1, w1) of
                 (Stored, w2) \<Rightarrow> (Inr (Some True), row1, db_done d1, w2)
               | (Integrity_error, w2) \<Rightarrow>
                   (case bump_time row1 of
                      Inl e \<Rightarrow> (Inl e, row1, db_done d1, w2)
                    | Inr row2 \<Rightarrow> (Inr None, row2, db_done d1, w2))
               | (Data_error, w2) \<Rightarrow> (Inr None, row1, db_done d1, w2)
               | (Other_error, w2) \<Rightarrow> (Inr (Some False), row1, db_done d1, w2)))"

text \<open>
  \<open>buffered_insert\<close>: rows are taken off the queue after \<open>insert\<close> has returned, whatever its result;
  an exception ends the loop and is caught. The row in the queue is the object that \<open>insert\<close>
  changes.
\<close>

fun drain :: "'w connector \<Rightarrow> 'w server \<Rightarrow> pyval dict list \<Rightarrow> avp_db \<times> 'w \<Rightarrow> pyval dict list \<times> avp_db \<times> 'w" where
  "drain conn exec [] dw = ([], dw)"
| "drain conn exec (row # rows) dw =
     (case insert_row conn exec row dw of
        (Inl e, row1, dw1) \<Rightarrow> (row1 # rows, dw1)
      | (Inr r, row1, dw1) \<Rightarrow> drain conn exec rows dw1)"

definition buffered_insert :: "'w connector \<Rightarrow> 'w server \<Rightarrow> pyval dict \<Rightarrow> avp_db \<times> 'w \<Rightarrow> avp_db \<times> 'w" where
  "buffered_insert conn exec row dw =
     (let (d1, w1) = db_connect conn dw
      in case drain conn exec (db_queue d1 @ [row]) (d1, w1) of (rest, d2, w2) \<Rightarrow> (d2\<lparr>db_queue := rest\<rparr>, w2))"

section \<open>Updating, deleting, selecting\<close>

definition result_ok :: pyval where
  "result_ok = PDict [(''result'', PStr ''ok'')]"

definition result_error :: pyval where
  "result_error = PDict [(''error'', PDict [(''message'', PStr ''message''), (''code'', PInt 0)])]"

text \<open>
  \<open>update\<close>: after an error of integrity the time is moved and the statement is executed once more,
  but the result stays the error and nothing is committed. The values are given back, for the caller's
  dictionary has been changed.
\<close>

definition update_rows :: "'w connector \<Rightarrow> 'w server \<Rightarrow> pyval dict \<Rightarrow> pyval dict \<Rightarrow> string \<Rightarrow> string \<Rightarrow> avp_db \<times> 'w \<Rightarrow>
    pyval \<times> pyval dict \<times> avp_db \<times> 'w" where
  "update_rows conn exec vals w join oper dw =
     (if \<not> db_enabled (fst dw) then (result_error, vals, dw)
      else (let (d1, w1) = db_ready conn dw;
                (fs, vals1, wh1) = gen_string (db_table d1) (Update vals) w join oper None
            in case db_execute exec fs vals1 (d1, w1) of
                 (Stored, w2) \<Rightarrow> (result_ok, vals1, db_done d1, w2)
               | (Integrity_error, w2) \<Rightarrow>
                   (if \<not> dhas vals1 ''time'' then (result_error, vals1, db_done d1, w2)
                    else (case bump_time vals1 of
                            Inl e \<Rightarrow> (result_error, vals1, db_done d1, w2)
                          | Inr vals2 \<Rightarrow>
                              (let (fs3, vals3, wh3) = gen_string (db_table d1) (Update vals2) wh1 ''AND'' ''='' None
                               in case db_execute exec fs3 vals3 (d1, w2) of (a, w3) \<Rightarrow> (result_error, vals3, db_done d1, w3))))
               | (_, w2) \<Rightarrow> (result_error, vals1, db_done d1, w2)))"

text \<open>\<open>delete\<close> refuses every table but one.\<close>

definition delete_rows :: "'w connector \<Rightarrow> 'w server \<Rightarrow> pyval dict \<Rightarrow> string \<Rightarrow> string \<Rightarrow> avp_db \<times> 'w \<Rightarrow> bool option \<times> avp_db \<times> 'w" where
  "delete_rows conn exec w join oper dw =
     (if db_table (fst dw) \<noteq> ''baypt_debug_log'' then (Some False, dw)
      else if \<not> db_enabled (fst dw) then (None, dw)
      else (let (fs, vals, wh) = gen_string (db_table (fst dw)) Delete w join oper None;
                (d1, w1) = db_ready conn dw
            in case db_execute exec fs vals (d1, w1) of
                 (Stored, w2) \<Rightarrow> (Some True, db_done d1, w2)
               | (_, w2) \<Rightarrow> (Some False, db_done d1, w2)))"

text \<open>\<open>select\<close>: what \<open>fetchall\<close> or \<open>fetchone\<close> return, the empty list if anything raises.\<close>

type_synonym 'w fetcher = "string \<Rightarrow> pyval dict \<Rightarrow> bool \<Rightarrow> 'w \<Rightarrow> pyval res \<times> 'w"

definition select_rows :: "'w connector \<Rightarrow> 'w fetcher \<Rightarrow> string list \<Rightarrow> pyval dict \<Rightarrow> string \<Rightarrow> string \<Rightarrow> string \<Rightarrow>
    avp_db \<times> 'w \<Rightarrow> pyval \<times> avp_db \<times> 'w" where
  "select_rows conn fetch cols w join oper fetch_type dw =
     (if \<not> db_enabled (fst dw) then (PList [], dw)
      else (let (d1, w1) = db_ready conn dw;
                (fs, vals, wh) = gen_string (db_table d1) (Select cols) w join oper None;
                all_rows = sublist ''all'' fetch_type
            in if \<not> db_cursor d1 then (PList [], db_done d1, w1)
               else (case fetch (render fs) vals all_rows w1 of
                       (Inl e, w2) \<Rightarrow> (PList [], db_done d1, w2)
                     | (Inr v, w2) \<Rightarrow> (if all_rows \<or> sublist ''one'' fetch_type then v else PNone, db_done d1, w2))))"

section \<open>The table of casts\<close>

text \<open>The first element of the row, if there is a row.\<close>

definition cast_number :: "'w connector \<Rightarrow> 'w fetcher \<Rightarrow> avp_db \<times> 'w \<Rightarrow> pyval res \<times> avp_db \<times> 'w" where
  "cast_number conn fetch dw =
     (case select_rows conn fetch [''max(cast_no)''] [] ''AND'' ''='' ''one'' dw of
        (PList (v # vs), dw1) \<Rightarrow> (Inr v, dw1)
      | (PList [], dw1) \<Rightarrow> (Inl IndexError, dw1)
      | (v, dw1) \<Rightarrow> (Inl TypeError, dw1))"

definition mark_start :: "'w connector \<Rightarrow> 'w server \<Rightarrow> instant \<Rightarrow> pyval \<Rightarrow> avp_db \<times> 'w \<Rightarrow> avp_db \<times> 'w" where
  "mark_start conn exec now cast dw =
     snd (snd (update_rows conn exec [(''cast_time'', PInt now)] [(''cast_no'', cast)] ''AND'' ''='' dw))"

definition mark_bottom :: "'w connector \<Rightarrow> 'w server \<Rightarrow> pyval \<Rightarrow> avp_db \<times> 'w \<Rightarrow> avp_db \<times> 'w" where
  "mark_bottom conn exec cast dw =
     snd (snd (update_rows conn exec [(''bottom_strike'', PBool True)] [(''cast_no'', cast)] ''AND'' ''='' dw))"

section \<open>Logging to the database\<close>

text \<open>A record of the logger goes to the table of its level; the level of the other table is a fraction.\<close>

record log_record =
  lr_source :: string
  lr_message :: string
  lr_line :: int
  lr_level :: int

definition log_items :: "instant \<Rightarrow> log_record \<Rightarrow> pyval dict" where
  "log_items now r =
     [(''source'', PStr (lr_source r)), (''time'', PInt now), (''message'', PStr (lr_message r)),
      (''comment'', PStr (''Line '' @ int_to_string (lr_line r))), (''save'', PBool True)] @
     (if lr_level r = 10 then [] else [(''level'', PFloat (of_int (lr_level r) / 10 - 1))])"

definition emit :: "'w connector \<Rightarrow> 'w server \<Rightarrow> instant \<Rightarrow> log_record \<Rightarrow> avp_db \<times> avp_db \<times> 'w \<Rightarrow> avp_db \<times> avp_db \<times> 'w" where
  "emit conn exec now r s =
     (case s of (debug, info, w) \<Rightarrow>
        if lr_level r = 10
        then (case buffered_insert conn exec (log_items now r) (debug, w) of (d, w1) \<Rightarrow> (d, info, w1))
        else (case buffered_insert conn exec (log_items now r) (info, w) of (l, w1) \<Rightarrow> (debug, l, w1)))"

section \<open>Lemmas\<close>

lemma places_append [simp]: "places (a @ b) = places a @ places b"
  by (induction a rule: places.induct) simp_all

lemma places_joined: "places (joined a b ps) = concat (map places ps)"
  by (induction ps arbitrary: a) simp_all

lemma mangled_simps [simp]: "is_mangled (mangled k)" "plain_key (mangled k) = k" "mangled k = mangled l \<longleftrightarrow> k = l"
    "drop 3 (mangled k) = k"
  by (simp_all add: is_mangled_def plain_key_def mangled_def)

text \<open>Mangling a condition whose keys are not mangled renames them, and mangling again changes nothing.\<close>

lemma fold_dset:
  "distinct ks \<Longrightarrow> mangled ` set ks \<inter> fst ` set d = {} \<Longrightarrow>
     fold (\<lambda>k d. dset d (mangled k) (g k)) ks d = d @ map (\<lambda>k. (mangled k, g k)) ks"
proof (induction ks arbitrary: d)
  case (Cons k ks)
  then have "dset d (mangled k) (g k) = d @ [(mangled k, g k)]" by (intro dset_fresh) auto
  moreover have "mangled ` set ks \<inter> fst ` set (d @ [(mangled k, g k)]) = {}" using Cons.prems by auto
  ultimately show ?case using Cons.IH[of "d @ [(mangled k, g k)]"] Cons.prems by simp
qed simp

lemma fold_dpop: "fold (\<lambda>k d. dpop d k) ks d = filter (\<lambda>p. fst p \<notin> set ks) d"
  by (induction ks arbitrary: d) (auto simp: dpop_def AList.delete_eq case_prod_unfold intro!: filter_cong)

definition unmangled :: "pyval dict \<Rightarrow> bool" where
  "unmangled w \<longleftrightarrow> dwf w \<and> (\<forall>k \<in> set (dkeys w). \<not> is_mangled k)"

lemma mangle_all_map:
  assumes "unmangled w"
  shows "mangle_all w = map (\<lambda>(k, v). (mangled k, v)) w"
proof -
  have f: "filter (\<lambda>k. \<not> is_mangled k) (dkeys w) = dkeys w" using assms by (simp add: unmangled_def)
  have d: "distinct (dkeys w)" using assms by (simp add: unmangled_def dwf_def dkeys_def)
  have m: "mangled ` set (dkeys w) \<inter> fst ` set w = {}" using assms by (fastforce simp: unmangled_def dkeys_def dest: bspec[of _ _ "mangled _"])
  have k: "(mangled a, b) \<notin> set w" for a b using assms by (force simp: unmangled_def dkeys_def)
  have v: "dget_or w k PNone = x" if "(k, x) \<in> set w" for k x
    using that assms by (simp add: dget_in_wf unmangled_def dget_or_conv)
  have "mangle_all w = filter (\<lambda>p. fst p \<notin> set (dkeys w)) (w @ map (\<lambda>k. (mangled k, dget_or w k PNone)) (dkeys w))"
    by (simp add: mangle_all_def Let_def f fold_dset[OF d m] fold_dpop)
  also have "\<dots> = map (\<lambda>k. (mangled k, dget_or w k PNone)) (dkeys w)"
    using k by (auto simp: dkeys_def filter_empty_conv intro!: filter_True)
  also have "\<dots> = map (\<lambda>(k, x). (mangled k, x)) w"
    using v by (auto simp: dkeys_def)
  finally show ?thesis .
qed

lemma where_again: "unmangled w \<Longrightarrow> where_part join oper (mangle_all w) = where_part join oper w"
  by (auto simp: mangle_all_map where_part_def dkeys_def comp_def case_prod_unfold unmangled_def plain_key_def
      intro!: arg_cong[where f = "joined _ _"])

lemma dupdate_fresh:
  "dwf d' \<Longrightarrow> fst ` set d \<inter> fst ` set d' = {} \<Longrightarrow> dupdate d d' = d @ d'"
proof (induction d' arbitrary: d)
  case (Cons p d')
  obtain k v where p: "p = (k, v)" by (cases p)
  have "dset d k v = d @ [(k, v)]" using Cons.prems p by (intro dset_fresh) auto
  moreover have "dwf d'" "fst ` set (d @ [(k, v)]) \<inter> fst ` set d' = {}" using Cons.prems p by (auto simp: dwf_def)
  ultimately show ?case using Cons.IH[of "d @ [(k, v)]"] p by simp
qed simp

lemma where_places: "places (where_part join oper w) = map (\<lambda>k. mangled (plain_key k)) (dkeys w)"
  by (simp add: where_part_def places_joined comp_def dkeys_def)

lemma head_places: "places (head_part table (Update vals)) = dkeys vals"
  by (simp add: head_part_def places_joined comp_def dkeys_def)

lemma map_dget: "dwf d \<Longrightarrow> map (dget d) (dkeys d) = map (\<lambda>p. Some (snd p)) d"
  by (auto simp: dkeys_def dget_in_wf)

text \<open>What the server is given for a row, and that it is given every row once.\<close>

definition watched :: "'w server \<Rightarrow> ('w \<times> pyval dict list) server" where
  "watched exec cmd row wl = (case exec cmd row (fst wl) of (a, w) \<Rightarrow> (a, w, snd wl @ [row]))"

definition watched_conn :: "'w connector \<Rightarrow> ('w \<times> pyval dict list) connector" where
  "watched_conn conn wl = (case conn (fst wl) of (ok, w) \<Rightarrow> (ok, w, snd wl))"

lemma ready_log: "snd (snd (db_ready (watched_conn conn) (d, w, l))) = l" "snd (snd (db_connect (watched_conn conn) (d, w, l))) = l"
  by (auto simp: db_ready_def db_connect_def watched_conn_def split: prod.split)

lemma insert_watched:
  assumes "\<not> dhas row ''time''"
  shows "\<exists>r row1 d1 w1 l1. insert_row (watched_conn conn) (watched exec) row (d, w, l) = (Inr r, row1, d1, w1, l1) \<and> length l1 \<le> length l + 1"
proof (cases "db_enabled d")
  case True
  let ?row = "with_location d row"
  have t: "dget ?row ''time'' = None" using assms by (simp add: with_location_def dict_simps)
  obtain d1 w1 where r: "db_ready (watched_conn conn) (d, w, l) = (d1, w1, l)"
    using ready_log(1)[of conn d w l] by (metis prod.collapse)
  obtain a w2 l2 where e: "db_execute (watched exec) (fst (gen_string (db_table d) (Insert ?row) [] ''AND'' ''='' None)) ?row (d1, w1, l) = (a, w2, l2)"
    by (rule prod_cases3)
  then have "length l2 \<le> length l + 1"
    by (auto simp: db_execute_def watched_def split: if_splits prod.splits)
  then show ?thesis using True r e t by (cases a) (simp_all add: insert_row_def Let_def bump_time_def)
qed (simp add: insert_row_def)

lemma drain_watched:
  "\<forall>r \<in> set rows. \<not> dhas r ''time'' \<Longrightarrow>
     \<exists>d1 w1 l1. drain (watched_conn conn) (watched exec) rows (d, w, l) = ([], d1, w1, l1) \<and> length l1 \<le> length l + length rows"
proof (induction rows arbitrary: d w l)
  case (Cons row rows)
  obtain r row1 d1 w1 l1 where i: "insert_row (watched_conn conn) (watched exec) row (d, w, l) = (Inr r, row1, d1, w1, l1)"
    "length l1 \<le> length l + 1"
    using insert_watched[of row conn exec d w l] Cons.prems by auto
  from Cons.IH[of d1 w1 l1] Cons.prems i show ?case by fastforce
qed simp

section \<open>Properties\<close>

text \<open>
  C27. The values that an UPDATE passes for its placeholders are, in their order, the new values and then
  those of the condition, also where both name the same column; and building the statement again with
  the condition that has been changed in place gives the same condition.
\<close>

theorem update_binds_values:
  assumes "unmangled vals" "unmangled w"
  shows "case gen_string table (Update vals) w join oper ret of (fs, vals', w') \<Rightarrow>
    map (dget vals') (places fs) = map (\<lambda>p. Some (snd p)) (vals @ w) \<and> where_part join oper w' = where_part join oper w"
proof -
  let ?m = "map (\<lambda>(k, v). (mangled k, v)) w"
  have m: "mangle_all w = ?m" by (rule mangle_all_map[OF assms(2)])
  have d: "dwf ?m" using assms(2) by (simp add: unmangled_def dwf_def comp_def case_prod_unfold distinct_map inj_on_def)
  have k: "fst ` set vals \<inter> fst ` set ?m = {}" using assms(1) by (force simp: unmangled_def dkeys_def)
  have u: "dupdate vals ?m = vals @ ?m" by (rule dupdate_fresh[OF d k])
  have wf: "dwf (vals @ ?m)"
    using assms(1) d k unfolding dwf_def map_append distinct_append by (simp add: unmangled_def dwf_def image_image)
  have p: "map (\<lambda>k. mangled (plain_key k)) (dkeys w) = dkeys ?m"
    using assms(2) by (auto simp: dkeys_def unmangled_def plain_key_def)
  have r: "places (case ret of None \<Rightarrow> [] | Some r \<Rightarrow> [Txt '' RETURNING '', Txt r]) = []" by (cases ret) simp_all
  have "map (dget (vals @ ?m)) (dkeys (vals @ ?m)) = map (\<lambda>p. Some (snd p)) (vals @ ?m)" by (rule map_dget[OF wf])
  then have v: "map (dget (vals @ ?m)) (dkeys (vals @ ?m)) = map (\<lambda>p. Some (snd p)) (vals @ w)"
    by (simp add: comp_def case_prod_unfold)
  define fs where "fs = fst (gen_string table (Update vals) w join oper ret)"
  have g: "gen_string table (Update vals) w join oper ret = (fs, vals @ ?m, ?m)"
    by (simp add: fs_def gen_string_def values_of_def m u)
  have fs: "places fs = dkeys vals @ dkeys ?m"
    by (simp add: fs_def gen_string_def head_places where_places r p)
  have "dkeys vals @ dkeys ?m = dkeys (vals @ ?m)" by (simp add: dkeys_def)
  then show ?thesis unfolding g prod.case fs using v where_again[OF assms(2), of join oper] m by simp
qed

text \<open>
  The buffer does not keep what could not be stored: rows without a column \<open>time\<close>, such as those of
  the supervisor, leave the queue after one attempt each at most, whether the server took them, refused them or
  could not be reached.
\<close>

theorem buffer_forgets:
  assumes "\<forall>r \<in> set (row # db_queue d). \<not> dhas r ''time''"
  shows "case buffered_insert (watched_conn conn) (watched exec) row (d, w, l) of (d', w', l') \<Rightarrow>
    db_queue d' = [] \<and> length l' \<le> length l + length (db_queue d) + 1"
proof -
  obtain d1 w1 where c: "db_connect (watched_conn conn) (d, w, l) = (d1, w1, l)"
    using ready_log(2)[of conn d w l] by (metis prod.collapse)
  then have "db_queue d1 = db_queue d" by (auto simp: db_connect_def split: if_splits prod.splits)
  then obtain d2 w2 l2 where "drain (watched_conn conn) (watched exec) (db_queue d1 @ [row]) (d1, w1, l) = ([], d2, w2, l2)"
    "length l2 \<le> length l + length (db_queue d @ [row])"
    using drain_watched[of "db_queue d @ [row]" conn exec d1 w1 l] assms by auto
  then show ?thesis using c by (simp add: buffered_insert_def Let_def)
qed

section \<open>Witnesses\<close>

theorem update_binds_values_witness:
  "case gen_string ''cast'' (Update [(''time'', PInt 5)]) [(''time'', PInt 4)] ''AND'' ''='' None of (fs, vals', w') \<Rightarrow>
     render fs = ''UPDATE cast SET  time = %(time)s  WHERE   time = %(_w_time)s;'' \<and>
     map (dget vals') (places fs) = [Some (PInt 5), Some (PInt 4)]"
proof -
  have u: "unmangled [(''time'', PInt 5)]" "unmangled [(''time'', PInt 4)]" by code_simp+
  have "render (fst (gen_string ''cast'' (Update [(''time'', PInt 5)]) [(''time'', PInt 4)] ''AND'' ''='' None)) =
      ''UPDATE cast SET  time = %(time)s  WHERE   time = %(_w_time)s;''" by code_simp
  with update_binds_values[OF u, where table = "''cast''" and join = "''AND''" and oper = "''=''" and ret = None] show ?thesis by auto
qed

definition demo_db :: avp_db where
  "demo_db = \<lparr>db_table = ''power'', db_hostname = ''avp'', db_enabled = True, db_polling = False, db_columns = [''load_current''],
     db_connected = False, db_cursor = False, db_queue = []\<rparr>"

text \<open>No connection can be made: the row is lost.\<close>

theorem buffer_forgets_witness:
  "case buffered_insert (watched_conn (\<lambda>w. (False, w))) (watched (\<lambda>c r w. (Stored, w))) [(''load_current'', PFloat 2)] (demo_db, (), []) of
     (d', w', l') \<Rightarrow> db_queue d' = [] \<and> l' = []"
proof -
  have "\<forall>r \<in> set ([(''load_current'', PFloat 2)] # db_queue demo_db). \<not> dhas r ''time''" by (simp add: demo_db_def dhas_def)
  moreover have "snd (snd (buffered_insert (watched_conn (\<lambda>w. (False, w))) (watched (\<lambda>c r w. (Stored, w))) [(''load_current'', PFloat 2)] (demo_db, (), []))) = []"
    by code_simp
  ultimately show ?thesis
    using buffer_forgets[where row = "[(''load_current'', PFloat 2)]" and d = demo_db and conn = "\<lambda>w. (False, w)" and
        exec = "\<lambda>c r w. (Stored, w)" and w = "()" and l = "[]"] by auto
qed

end
