(* ===== verification/Supervisor.thy ===== *)
theory Supervisor
  imports Battery Launcher Database
begin

text \<open>
  The decisions of the supervisor, src/python/supervisor.py, which runs beside the scheduler: what it
  does about the voltage of the batteries, the heading of the platform, the load of the computer and
  missing processes. Its warnings are actions of the model, for the notification sends them on.
\<close>

section \<open>Heading\<close>

text \<open>
  \<open>_wind_checks\<close>: the limits are brought between 0 and 360; a warning is repeated after ten
  minutes at the earliest. A heading that has never been received is only compared, and raises, when a
  warning may be due.
\<close>

definition wrap360 :: "rat \<Rightarrow> rat" where
  "wrap360 x = (let y = (if x \<ge> 360 then x - 360 else x) in if y < 0 then y + 360 else y)"

definition outside :: "rat \<Rightarrow> rat \<Rightarrow> rat \<Rightarrow> bool" where
  "outside cw ccw h = (if cw < ccw then ccw > h \<and> h > cw else h > cw \<or> h < ccw)"

definition heading_off :: "rat \<Rightarrow> rat \<Rightarrow> rat \<Rightarrow> bool" where
  "heading_off target margin h = outside (wrap360 (target + margin)) (wrap360 (target - margin)) h"

definition warn_pause :: timespan where
  "warn_pause = seconds 600"

definition wind_check :: "rat \<Rightarrow> rat \<Rightarrow> instant \<Rightarrow> pyval \<Rightarrow> instant \<Rightarrow> (bool \<times> instant) res" where
  "wind_check target margin now heading last_warning =
     (if now > last_warning + warn_pause
      then (case num_of heading of
              None \<Rightarrow> Inl TypeError
            | Some h \<Rightarrow> if heading_off target margin h then Inr (True, now) else Inr (False, last_warning))
      else Inr (False, last_warning))"

section \<open>Power\<close>

datatype sup_action = Warn string | Pause_schedule | Save_row | Notify | Power_off

record power_cfg =
  pw_low_ah :: rat
  pw_low_volt :: rat
  pw_shutdown_volt :: rat
  pw_high_rh :: rat

text \<open>
  The humidity from the reading of its sensor; without the sensor or the board's alias it is 0. The
  humidity corrected for the temperature only appears in the warning, but it is computed in any case.
\<close>

definition humidity_of :: "pyval option \<Rightarrow> pyval \<Rightarrow> rat res" where
  "humidity_of reading ambient =
     (case reading of
        None \<Rightarrow> Inr 0
      | Some v \<Rightarrow>
          (case (num_of v, num_of ambient) of
             (Some x, Some t) \<Rightarrow>
               if 10546 / 10000 - 216 / 100000 * t = 0 then Inl ZeroDivisionError else Inr ((x / 5 - 16 / 100) / (62 / 10000))
           | _ \<Rightarrow> Inl TypeError))"

text \<open>The temperature of the motor controller, 0 without its client.\<close>

definition ambient_of :: "pyval option \<Rightarrow> pyval" where
  "ambient_of temperature = (case temperature of None \<Rightarrow> PInt 0 | Some v \<Rightarrow> v)"

definition power_actions :: "power_cfg \<Rightarrow> rat \<Rightarrow> rat \<Rightarrow> rat \<Rightarrow> string \<Rightarrow> sup_action list" where
  "power_actions cfg net volt humidity state =
     (if net < pw_low_ah cfg then [Warn ''net charge''] else []) @
     (if volt < pw_low_volt cfg \<and> volt \<noteq> 0
      then Warn ''voltage'' # (if state = ''on'' then [Warn ''Pausing schedule''] else []) @ [Pause_schedule] else []) @
     (if humidity \<ge> pw_high_rh cfg then [Warn ''humidity''] else []) @
     (if volt < pw_shutdown_volt cfg \<and> volt \<noteq> 0
      then [Save_row, Warn ''shutdown threshold'', Warn ''VERY LOW VOLTAGE'', Warn ''VERY LOW VOLTAGE'', Warn ''VERY LOW VOLTAGE'',
            Notify, Power_off] else [])"

text \<open>The schedule switch after the actions: pausing extends a pause.\<close>

definition apply_action :: "instant \<Rightarrow> sup_action \<Rightarrow> sched_status \<Rightarrow> sched_status" where
  "apply_action now a st = (case a of Pause_schedule \<Rightarrow> fst (set_state ''paused'' now st) | _ \<Rightarrow> st)"

definition power_row :: "rat \<Rightarrow> current_mon \<Rightarrow> current_mon \<Rightarrow> rat \<Rightarrow> pyval \<Rightarrow> pyval dict" where
  "power_row volt charging load humidity ambient =
     [(''system_voltage'', PFloat volt), (''charge_current'', PFloat (cm_ave charging)),
      (''charge_power'', PFloat (volt * cm_ave charging)), (''charge_current_max'', PFloat (cm_max charging)),
      (''charge_amp_hours'', PFloat (cm_amp_hours charging)), (''load_power'', PFloat (volt * cm_ave load)),
      (''load_current_max'', PFloat (cm_max load)), (''load_current'', PFloat (cm_ave load)),
      (''load_amp_hours'', PFloat (cm_amp_hours load)), (''humidity'', PFloat humidity), (''temp_ambient'', ambient)]"

text \<open>\<open>_do_power_status\<close>: the items for the log and the actions; a sensor without a value raises.\<close>

definition power_status :: "power_cfg \<Rightarrow> current_mon \<Rightarrow> current_mon \<Rightarrow> voltage_mon \<Rightarrow> pyval option \<Rightarrow> pyval option \<Rightarrow> string \<Rightarrow> pyval dict \<Rightarrow>
    (pyval dict \<times> sup_action list) res" where
  "power_status cfg charging load volt reading temperature state items =
     res_bind (humidity_of reading (ambient_of temperature)) (\<lambda>h.
       Inr (dupdate items (power_row (vm_ave volt) charging load h (ambient_of temperature)),
            power_actions cfg (cm_amp_hours charging - cm_amp_hours load) (vm_ave volt) h state))"

text \<open>
  \<open>_do_env_logging\<close>: the items go to the buffer of the table with the time, and are cleared. The buffer
  has the same object, but no row of this table stays in it.
\<close>

definition env_logging :: "'w connector \<Rightarrow> 'w server \<Rightarrow> instant \<Rightarrow> pyval dict \<times> avp_db \<times> 'w \<Rightarrow> pyval dict \<times> avp_db \<times> 'w" where
  "env_logging conn exec now s =
     (case s of (items, dw) \<Rightarrow> ([], buffered_insert conn exec (dset items ''sample_time'' (PInt now)) dw))"

text \<open>Amp-hours are taken up from the last row of the table if it is of today.\<close>

definition restored_hours :: "instant \<Rightarrow> instant option \<Rightarrow> pyval \<times> pyval \<Rightarrow> pyval \<times> pyval" where
  "restored_hours now last_row hours =
     (case last_row of
        None \<Rightarrow> (PInt 0, PInt 0)
      | Some t \<Rightarrow>
          (let a = civil_of t; b = civil_of now
           in if cyear a = cyear b \<and> cmonth a = cmonth b \<and> cday a = cday b then hours else (PInt 0, PInt 0)))"

section \<open>Computer\<close>

definition drive_check :: "rat \<Rightarrow> string \<Rightarrow> rat \<Rightarrow> (string \<times> pyval) \<times> sup_action list" where
  "drive_check threshold field free =
     ((field, PFloat (free * 100)), if free < threshold then [Warn ''free space''] else [])"

text \<open>The free memory is a percentage, the threshold a fraction.\<close>

definition memory_check :: "rat \<Rightarrow> rat \<Rightarrow> (string \<times> pyval) \<times> sup_action list" where
  "memory_check threshold used_percent =
     (let free = 100 - used_percent
      in ((''free_memory'', PFloat free), if free < threshold then [Warn ''free memory''] else []))"

definition cpu_check :: "rat \<Rightarrow> rat \<Rightarrow> (string \<times> pyval) \<times> sup_action list" where
  "cpu_check threshold temperature =
     ((''temp_cpu'', PFloat temperature), if temperature > threshold then [Warn ''CPU temperature''] else [])"

section \<open>Processes\<close>

record py_process =
  pp_name :: string
  pp_search :: string
  pp_spawn :: string
  pp_args :: string
  pp_pid :: "int option"
  pp_old :: "int option"
  pp_root :: bool

text \<open>
  The table of processes is a list of process ids with their command lines; None for a process that
  raises when it is asked. An exception ends the search and keeps the process id found before.
\<close>

fun find_process :: "string \<Rightarrow> (int \<times> string option) list \<Rightarrow> int option res" where
  "find_process key [] = Inr None"
| "find_process key ((pid, cmd) # ps) =
     (case cmd of
        None \<Rightarrow> Inl AttributeError
      | Some c \<Rightarrow> if sublist key c then Inr (Some pid) else find_process key ps)"

definition look_up :: "(int \<times> string option) list \<Rightarrow> py_process \<Rightarrow> py_process" where
  "look_up table p =
     (case find_process (pp_search p) table of
        Inl e \<Rightarrow> p\<lparr>pp_old := pp_pid p\<rparr>
      | Inr pid \<Rightarrow> p\<lparr>pp_old := pp_pid p, pp_pid := pid\<rparr>)"

definition spawn_command :: "py_process \<Rightarrow> string" where
  "spawn_command p = pp_spawn p @ '' '' @ pp_args p"

text \<open>
  \<open>_check_py_processes\<close>: the commands that are started; one that must be root's is not. A program
  that cannot be made executable raises, and those after it are not started in this pass.
\<close>

definition check_processes :: "(string \<Rightarrow> bool) \<Rightarrow> (int \<times> string option) list \<Rightarrow> py_process list \<Rightarrow> py_process list \<times> string list" where
  "check_processes executable table ps =
     (let ps1 = map (look_up table) ps;
          missing = filter (\<lambda>p. pp_pid p = None \<and> \<not> pp_root p) ps1
      in (ps1, map spawn_command (takeWhile (\<lambda>p. executable (pp_spawn p)) missing)))"

section \<open>Lemmas\<close>

text \<open>The reference: the distance of two headings on the circle.\<close>

definition circle_dist :: "rat \<Rightarrow> rat \<Rightarrow> rat" where
  "circle_dist a b = min \<bar>a - b\<bar> (360 - \<bar>a - b\<bar>)"

section \<open>Properties\<close>

lemma circle_dist_alt: "circle_dist a b > m \<longleftrightarrow> \<bar>a - b\<bar> > m \<and> 360 - \<bar>a - b\<bar> > m"
  by (simp add: circle_dist_def)

lemma wrap360_cases:
  assumes "- 180 < x" "x < 720"
  shows "wrap360 x = (if x \<ge> 360 then x - 360 else if x < 0 then x + 360 else x)"
  using assms by (auto simp: wrap360_def Let_def)

text \<open>
  C25. The test of the heading against two limits brought between 0 and 360 is the comparison of the
  distance on the circle with the margin.
\<close>

theorem heading_is_distance:
  assumes "0 \<le> target" "target < 360" "0 \<le> margin" "margin < 180" "0 \<le> h" "h < 360"
  shows "heading_off target margin h \<longleftrightarrow> circle_dist h target > margin"
proof -
  consider "target + margin \<ge> 360" "target - margin \<ge> 0" | "target + margin < 360" "target - margin < 0"
    | "target + margin < 360" "target - margin \<ge> 0"
    using assms by linarith
  then show ?thesis
  proof cases
    case 1
    then show ?thesis
      using assms by (cases "h < target") (auto simp: heading_off_def outside_def wrap360_cases circle_dist_alt)
  next
    case 2
    then show ?thesis
      using assms by (cases "h < target") (auto simp: heading_off_def outside_def wrap360_cases circle_dist_alt)
  next
    case 3
    then show ?thesis
      using assms by (cases "h < target") (auto simp: heading_off_def outside_def wrap360_cases circle_dist_alt)
  qed
qed

theorem heading_is_distance_witness:
  "heading_off 350 15 6 \<longleftrightarrow> circle_dist 6 350 > 15"
  by (rule heading_is_distance) simp_all

text \<open>
  The system is switched off only below the threshold and never on a voltage of zero, which stands for no
  reading; by then the log has been saved, and with thresholds in their order the schedule is paused.
\<close>

theorem power_off_last:
  assumes "Power_off \<in> set (power_actions cfg net volt humidity state)"
  shows "volt \<noteq> 0 \<and> volt < pw_shutdown_volt cfg \<and>
    (\<exists>before. power_actions cfg net volt humidity state =
       before @ [Save_row, Warn ''shutdown threshold'', Warn ''VERY LOW VOLTAGE'', Warn ''VERY LOW VOLTAGE'', Warn ''VERY LOW VOLTAGE'', Notify, Power_off] \<and>
       (pw_shutdown_volt cfg \<le> pw_low_volt cfg \<longrightarrow> Pause_schedule \<in> set before))"
  using assms by (auto simp: power_actions_def split: if_splits)

definition cfg0 :: power_cfg where
  "cfg0 = \<lparr>pw_low_ah = -40, pw_low_volt = 12, pw_shutdown_volt = 11, pw_high_rh = 50\<rparr>"

theorem power_off_last_witness:
  "\<exists>before. power_actions cfg0 0 10 0 ''on'' =
     before @ [Save_row, Warn ''shutdown threshold'', Warn ''VERY LOW VOLTAGE'', Warn ''VERY LOW VOLTAGE'', Warn ''VERY LOW VOLTAGE'', Notify, Power_off] \<and>
     Pause_schedule \<in> set before"
  using power_off_last [of cfg0 0 10 0 "''on''"] by (simp add: power_actions_def cfg0_def)

end
