(* ===== verification/Watchdog.thy ===== *)
theory Watchdog
  imports Supervisor Trace
begin

text \<open>
  The supervisor's watch over the system, src/python/supervisor.py: the position of the platform, the
  brokers' processes, the connections of the clients, and the main loop that calls all its checks.
\<close>

section \<open>Position\<close>

text \<open>
  \<open>_gps_checks\<close>: positions of the last 15 minutes are averaged; a warning is given when the average is
  farther from the anchor than the radius, but not more often than the configuration says. The
  distance of two points on the globe (gislib.py) is an input.
\<close>

record gps_fix =
  gf_mode :: pyval
  gf_lat :: pyval
  gf_lon :: pyval
  gf_time :: "instant option"

record gps_watch =
  gw_lats :: "pyval list"
  gw_lons :: "pyval list"
  gw_times :: "instant option list"
  gw_warned :: instant

definition gps_push :: "gps_fix \<Rightarrow> gps_watch \<Rightarrow> gps_watch" where
  "gps_push f g =
     g\<lparr>gw_lats := gw_lats g @ [gf_lat f], gw_lons := gw_lons g @ [gf_lon f], gw_times := gw_times g @ [gf_time f]\<rparr>"

definition gps_window :: timespan where
  "gps_window = seconds 900"

text \<open>One position at most is dropped: when the first one is too old or the clock has gone back.\<close>

definition gps_trim :: "gps_watch \<Rightarrow> gps_watch res" where
  "gps_trim g =
     (case (hd (gw_times g), last (gw_times g)) of
        (Some a, Some b) \<Rightarrow>
          Inr (if b - a > gps_window \<or> b - a < 0
               then g\<lparr>gw_lats := tl (gw_lats g), gw_lons := tl (gw_lons g), gw_times := tl (gw_times g)\<rparr> else g)
      | _ \<Rightarrow> Inl TypeError)"

definition mean_of :: "pyval list \<Rightarrow> rat res" where
  "mean_of vs = (case those (map num_of vs) of None \<Rightarrow> Inl TypeError | Some xs \<Rightarrow> Inr (mean xs))"

text \<open>The averaged position; exceptions are caught and leave none.\<close>

definition gps_average :: "gps_fix \<Rightarrow> gps_watch \<Rightarrow> (rat \<times> rat) option \<times> gps_watch" where
  "gps_average f g =
     (let g1 = gps_push f g
      in case gps_trim g1 of
           Inl e \<Rightarrow> (None, g1)
         | Inr g2 \<Rightarrow>
             (case (mean_of (gw_lats g2), mean_of (gw_lons g2)) of
                (Inr a, Inr b) \<Rightarrow> (Some (a, b), g2)
              | _ \<Rightarrow> (None, g2)))"

record gps_cfg =
  gc_center :: "rat \<times> rat"
  gc_radius :: rat
  gc_repeat :: timespan

definition gps_check :: "(rat \<times> rat \<Rightarrow> rat \<times> rat \<Rightarrow> rat) \<Rightarrow> gps_cfg \<Rightarrow> instant \<Rightarrow> gps_fix \<Rightarrow> gps_watch \<Rightarrow> bool \<times> gps_watch" where
  "gps_check distance cfg now f g =
     (if \<not> eq_num (gf_mode f) 3 then (False, g)
      else (case gps_average f g of
              (None, g1) \<Rightarrow> (False, g1)
            | (Some p, g1) \<Rightarrow>
                if distance (gc_center cfg) p > gc_radius cfg \<and> now > gw_warned g1 + gc_repeat cfg
                then (True, g1\<lparr>gw_warned := now\<rparr>) else (False, g1)))"

section \<open>The processes of the brokers\<close>

record java_cfg =
  jc_dir :: string
  jc_arg :: string
  jc_jar :: string
  jc_json :: "string option"
  jc_postgres :: "string option"
  jc_conf :: string

definition conf_file :: "java_cfg \<Rightarrow> string \<Rightarrow> string" where
  "conf_file cfg broker = jc_dir cfg @ ''/'' @ jc_conf cfg @ ''/'' @ broker"

definition java_command :: "java_cfg \<Rightarrow> string \<Rightarrow> string" where
  "java_command cfg broker =
     ''/usr/bin/java '' @ jc_arg cfg @ '' -cp '' @ jc_jar cfg @
     (case jc_json cfg of None \<Rightarrow> [] | Some j \<Rightarrow> '':'' @ jc_dir cfg @ j) @
     (case jc_postgres cfg of None \<Rightarrow> [] | Some p \<Rightarrow> '':'' @ p) @
     '' edu.unc.ims.avp.Broker '' @ conf_file cfg ''db.conf'' @ '' '' @ conf_file cfg broker"

text \<open>
  The supervisor: the clients of its context, the names of those it has as attributes of its own,
  whether the monitors of the power exist, and the count of passes.
\<close>

record 'w super =
  sp_clients :: "broker dict"
  sp_own :: "string list"
  sp_power :: bool
  sp_loops :: nat
  sp_world :: 'w

definition own_client :: "'w super \<Rightarrow> string \<Rightarrow> broker option" where
  "own_client s name = (if name \<in> set (sp_own s) then dget (sp_clients s) name else None)"

definition with_client :: "string \<Rightarrow> (broker \<times> 'w \<Rightarrow> 'a \<times> broker \<times> 'w) \<Rightarrow> broker \<Rightarrow> 'w super \<Rightarrow> 'a \<times> 'w super" where
  "with_client name f b s =
     (case f (b, sp_world s) of (x, b1, w1) \<Rightarrow> (x, s\<lparr>sp_clients := dset (sp_clients s) name b1, sp_world := w1\<rparr>))"

fun py_len :: "pyval \<Rightarrow> nat res" where
  "py_len (PStr t) = Inr (length t)"
| "py_len (PList vs) = Inr (length vs)"
| "py_len (PDict d) = Inr (length d)"
| "py_len _ = Inl TypeError"

text \<open>
  A connected broker whose process has been found is asked for its data. If it has none it is to be
  disconnected and killed, but the attribute is looked up under its name with an underscore, which
  the supervisor does not have: AttributeError, also when this happens in the handler.
\<close>

definition probe :: "'w rpc_fun \<Rightarrow> string \<Rightarrow> ('w super, unit) act" where
  "probe rpc name s =
     (case own_client s name of
        None \<Rightarrow> (Inr (), s)
      | Some b \<Rightarrow>
          if \<not> bk_linked b then (Inr (), s)
          else (case with_client name (list_data rpc [] None) b s of (v, s1) \<Rightarrow>
                  (case py_len v of
                     Inl e \<Rightarrow> (Inl AttributeError, s1)
                   | Inr n \<Rightarrow>
                       if n \<ge> 1 then (Inr (), s1)
                       else (case own_client s1 name of
                               None \<Rightarrow> (Inl AttributeError, s1)
                             | Some b1 \<Rightarrow> (Inl AttributeError, snd (with_client name (list_data rpc [] None) b1 s1))))))"

text \<open>
  The table of processes, a process that is gone having no command line. The last process found
  counts, 0 stands for none.
\<close>

fun scan_procs :: "'w rpc_fun \<Rightarrow> string \<Rightarrow> string \<Rightarrow> (int \<times> string list option) list \<Rightarrow> int \<Rightarrow> ('w super, int) act" where
  "scan_procs rpc cmd name [] pid s = (Inr pid, s)"
| "scan_procs rpc cmd name ((p, line) # ps) pid s =
     (case line of
        None \<Rightarrow> scan_procs rpc cmd name ps pid s
      | Some args \<Rightarrow>
          if cmd \<in> set args then bnd (probe rpc name) (\<lambda>u. scan_procs rpc cmd name ps p) s
          else scan_procs rpc cmd name ps pid s)"

datatype broker_action = Spawn string | Wait_for_aio

text \<open>An exception while the table is searched goes on with the next broker.\<close>

definition check_broker :: "'w rpc_fun \<Rightarrow> java_cfg \<Rightarrow> (int \<times> string list option) list \<Rightarrow> string \<times> string \<Rightarrow> 'w super \<Rightarrow>
    broker_action list \<times> 'w super" where
  "check_broker rpc cfg table br s =
     (case br of (broker, name) \<Rightarrow>
        (case scan_procs rpc (conf_file cfg broker) name table 0 s of
           (Inl e, s1) \<Rightarrow> ([], s1)
         | (Inr pid, s1) \<Rightarrow>
             if pid \<noteq> 0 then ([], s1)
             else (let first_start = (case own_client s1 name of None \<Rightarrow> True | Some b \<Rightarrow> \<not> bk_linked b)
                   in (Spawn (java_command cfg broker) # (if name = ''aio'' \<and> first_start then [Wait_for_aio] else []),
                       s1\<lparr>sp_loops := 0\<rparr>))))"

fun check_java :: "'w rpc_fun \<Rightarrow> java_cfg \<Rightarrow> (int \<times> string list option) list \<Rightarrow> (string \<times> string) list \<Rightarrow> 'w super \<Rightarrow>
    broker_action list \<times> 'w super" where
  "check_java rpc cfg table [] s = ([], s)"
| "check_java rpc cfg table (br # brs) s =
     (case check_broker rpc cfg table br s of (acts, s1) \<Rightarrow>
        (case check_java rpc cfg table brs s1 of (acts2, s2) \<Rightarrow> (acts @ acts2, s2)))"

section \<open>The connections of the clients\<close>

text \<open>
  The monitors of the power subscribe to three inputs of the board; the callbacks are named by number.
  Nothing is caught: an input the board does not have raises.
\<close>

definition power_items :: "string list" where
  "power_items = [''voltage_ADC'', ''load_current_ADC'', ''charge_current_ADC'']"

definition power_opts :: sub_opts where
  "power_opts = \<lparr>su_on_change = False, su_min = Some 1000, su_max = Some 1000, su_verbose = False\<rparr>"

definition start_power :: "'w rpc_fun \<Rightarrow> broker \<times> 'w \<Rightarrow> unit res \<times> broker \<times> 'w" where
  "start_power rpc bw =
     (case res_map (\<lambda>n. item_of (fst bw) n) power_items of
        Inl e \<Rightarrow> (Inl e, bw)
      | Inr its \<Rightarrow>
          (let b = add_callback (zip (map di_name its) [0, 1, 2]) (fst bw)
           in case add_subscriptions rpc power_items power_opts None (b, snd bw) of
                (Inl e, bw1) \<Rightarrow> (Inl e, bw1)
              | (Inr v, bw1) \<Rightarrow> (Inr (), bw1)))"

text \<open>A client that is not initialized asks its broker for the parameters once more.\<close>

definition on_own :: "string \<Rightarrow> (broker \<times> 'w \<Rightarrow> 'a res \<times> broker \<times> 'w) \<Rightarrow> ('w super, 'a) act" where
  "on_own name f s =
     (case dget (sp_clients s) name of None \<Rightarrow> (Inl AttributeError, s) | Some b \<Rightarrow> with_client name f b s)"

definition is_initialized :: "string \<Rightarrow> ('w super, bool) act" where
  "is_initialized name = on_own name (\<lambda>(b, w). (Inr (bk_initialized b), b, w))"

definition restructure :: "'w rpc_fun \<Rightarrow> string \<Rightarrow> ('w super, unit) act" where
  "restructure rpc name = bnd (on_own name (structure_data rpc 1)) (\<lambda>k. ret ())"

definition motor_opts :: sub_opts where
  "motor_opts = \<lparr>su_on_change = True, su_min = None, su_max = None, su_verbose = False\<rparr>"

definition motor_faults :: "string list" where
  "motor_faults = [''current_limit'', ''temp_fault'']"

text \<open>Instruments with a relay are only asked when it is on.\<close>

definition relay_is_on :: "'w rpc_fun \<Rightarrow> instant \<Rightarrow> pyval \<Rightarrow> string \<Rightarrow> ('w super, bool) act" where
  "relay_is_on rpc now relay_on relay =
     bnd (on_own ''aio'' (value_getter rpc now relay)) (\<lambda>v. ret (v = relay_on))"

definition own_attribute :: "string \<Rightarrow> ('w super, unit) act" where
  "own_attribute name =
     bnd (on_own name (\<lambda>(b, w). (Inr (), b, w))) (\<lambda>u. modify (\<lambda>s. s\<lparr>sp_own := List.insert name (sp_own s)\<rparr>))"

definition reconnect_client :: "'w rpc_fun \<Rightarrow> instant \<Rightarrow> pyval \<Rightarrow> string option \<Rightarrow> string \<Rightarrow> ('w super, unit) act" where
  "reconnect_client rpc now relay_on relay name =
     bnd (own_attribute name) (\<lambda>u.
     bnd (is_initialized name) (\<lambda>ok.
       if ok then ret ()
       else bnd (case relay of None \<Rightarrow> ret True | Some r \<Rightarrow> relay_is_on rpc now relay_on r) (\<lambda>on.
         only_if on
           (bnd (restructure rpc name) (\<lambda>u.
              only_if (name = ''mm3'')
                (bnd (on_own name (add_subscriptions rpc motor_faults motor_opts None)) (\<lambda>r. ret ())) ())) ())))"

definition watched_brokers :: "(string \<times> string option) list" where
  "watched_brokers =
     [(''mm3'', None), (''sonde'', None), (''wind'', None), (''sounder'', None), (''gps'', None),
      (''isco'', Some ''relay_ISCO''), (''lisst'', Some ''relay_LISST'')]"

fun reconnect_all :: "'w rpc_fun \<Rightarrow> instant \<Rightarrow> pyval \<Rightarrow> string list \<Rightarrow> (string \<times> string option) list \<Rightarrow> ('w super, unit) act" where
  "reconnect_all rpc now relay_on brokers [] = ret ()"
| "reconnect_all rpc now relay_on brokers ((name, relay) # rest) =
     bnd (only_if (name \<in> set brokers) (reconnect_client rpc now relay_on relay name) ())
         (\<lambda>u. reconnect_all rpc now relay_on brokers rest)"

text \<open>\<open>_check_connections_and_subscriptions\<close>; the defaults of the board are an empty table.\<close>

definition check_board :: "'w rpc_fun \<Rightarrow> ('w super, unit) act" where
  "check_board rpc =
     bnd (is_initialized ''aio'') (\<lambda>ok.
       if ok
       then bnd (peek sp_power) (\<lambda>p.
              only_if (\<not> p) (bnd (on_own ''aio'' (start_power rpc)) (\<lambda>u. modify (\<lambda>s. s\<lparr>sp_power := True\<rparr>))) ())
       else restructure rpc ''aio'')"

definition check_connections :: "'w rpc_fun \<Rightarrow> instant \<Rightarrow> pyval \<Rightarrow> string list \<Rightarrow> ('w super, unit) act" where
  "check_connections rpc now relay_on brokers =
     bnd (peek (\<lambda>s. ''aio'' \<in> set (sp_own s))) (\<lambda>has_aio.
       only_if has_aio
         (bnd (check_board rpc) (\<lambda>u. reconnect_all rpc now relay_on brokers watched_brokers)) ())"

section \<open>The main loop\<close>

text \<open>
  What the loop keeps: the count of passes, whether the next turn checks in any case, whether there
  is a context of clients and whether it has the board. The inputs of a turn: the time, whether a
  broker was started, whether the context made has the board and clients beside it, and whether a
  client has lost its connection.
\<close>

record loop_state =
  lp_loops :: nat
  lp_check :: bool
  lp_context :: bool
  lp_aio :: bool

record loop_input =
  li_minute :: int
  li_second :: int
  li_started :: bool
  li_aio :: bool
  li_others :: bool
  li_lost :: bool

datatype loop_event = Make_context | Check_python | Check_rest | Store_row

definition loop_start :: loop_state where
  "loop_start = \<lparr>lp_loops = 0, lp_check = True, lp_context = False, lp_aio = False\<rparr>"

text \<open>One pass of the checks; a broker that was started sets the count back to 0.\<close>

definition run_checks :: "loop_input \<Rightarrow> loop_state \<Rightarrow> loop_event list \<times> loop_state" where
  "run_checks i s =
     (let n = (if li_started i then 0 else lp_loops s)
      in if n \<ge> 1
         then (if lp_aio s then ([Check_python, Check_rest], s\<lparr>lp_loops := n + 1\<rparr>)
               else ([Make_context, Check_python, Check_rest], s\<lparr>lp_loops := n + 1, lp_context := True, lp_aio := li_aio i\<rparr>))
         else ([Check_rest], s\<lparr>lp_loops := n + 1\<rparr>))"

definition turn_checks :: "int \<Rightarrow> int \<Rightarrow> loop_input \<Rightarrow> loop_state \<Rightarrow> loop_event list \<times> loop_state" where
  "turn_checks check_freq log_freq i s =
     (if lp_check s \<or> li_second i = 0
      then (let (evs, s1) = (if lp_check s \<or> li_minute i mod check_freq = 0 then run_checks i s else ([], s))
            in (evs @ (if li_minute i mod log_freq = 0 then [Store_row] else []), s1))
      else ([], s))"

text \<open>
  A turn. After the first pass the loop only sleeps; otherwise it looks at every client of the
  context, which raises if there is no context, and if there is one whose clients were not taken over
  for want of the board.
\<close>

definition loop_turn :: "int \<Rightarrow> int \<Rightarrow> loop_input \<Rightarrow> loop_state \<Rightarrow> (loop_event list \<times> loop_state) res" where
  "loop_turn check_freq log_freq i s =
     (case turn_checks check_freq log_freq i s of (evs, s1) \<Rightarrow>
        if lp_loops s1 = 1 then Inr (evs, s1)
        else if \<not> lp_context s1 \<or> \<not> lp_aio s1 \<and> li_others i then Inl AttributeError
        else Inr (evs, s1\<lparr>lp_check := li_lost i\<rparr>))"

text \<open>The states the loop can reach while every context has the board.\<close>

inductive reached :: "int \<Rightarrow> int \<Rightarrow> loop_event list \<Rightarrow> loop_state \<Rightarrow> bool" for cf lf where
  start: "reached cf lf [] loop_start"
| turn: "reached cf lf evs s \<Longrightarrow> li_aio i \<Longrightarrow> loop_turn cf lf i s = Inr (new, s1) \<Longrightarrow> reached cf lf (evs @ new) s1"

inductive_cases reachedE: "reached cf lf evs s"

section \<open>Lemmas\<close>

subsection \<open>The window of positions\<close>

definition window_ok :: "gps_watch \<Rightarrow> bool" where
  "window_ok g \<longleftrightarrow> length (gw_lats g) = length (gw_times g) \<and> length (gw_lons g) = length (gw_times g)"

lemma gps_average_window:
  assumes "window_ok g"
  shows "window_ok (snd (gps_average f g)) \<and> length (gw_times (snd (gps_average f g))) \<ge> length (gw_times g)"
proof -
  have "gps_trim (gps_push f g) = Inr g2 \<Longrightarrow> window_ok g2 \<and> length (gw_times g2) \<ge> length (gw_times g)" for g2
    using assms by (auto simp: gps_trim_def gps_push_def window_ok_def split: option.splits if_splits)
  then show ?thesis using assms
    by (auto simp: gps_average_def Let_def gps_push_def window_ok_def split: sum.split)
qed

subsection \<open>Processes\<close>

definition runs :: "(int \<times> string list option) list \<Rightarrow> string \<Rightarrow> bool" where
  "runs table cmd \<longleftrightarrow> (\<exists>(p, line) \<in> set table. case line of None \<Rightarrow> False | Some args \<Rightarrow> cmd \<in> set args)"

lemma runs_Cons: "runs ((p, line) # ps) cmd \<longleftrightarrow> (case line of None \<Rightarrow> False | Some args \<Rightarrow> cmd \<in> set args) \<or> runs ps cmd"
  by (simp add: runs_def)

lemma scan_found:
  "list_all (\<lambda>(p, line). p \<noteq> 0) table \<Longrightarrow> runs table cmd \<or> pid \<noteq> 0 \<Longrightarrow> scan_procs rpc cmd name table pid s = (Inr q, s1) \<Longrightarrow> q \<noteq> 0"
proof (induction rpc cmd name table pid s rule: scan_procs.induct)
  case (2 rpc cmd name p line ps pid s)
  show ?case
  proof (cases "\<exists>args. line = Some args \<and> cmd \<in> set args")
    case True
    then obtain args where l: "line = Some args" "cmd \<in> set args" by blast
    then obtain t where "scan_procs rpc cmd name ps p t = (Inr q, s1)"
      using "2.prems"(3) by (auto simp: bnd_def split: prod.splits sum.splits)
    then show ?thesis using "2.IH"(2)[OF l, of t] "2.prems"(1) by simp
  next
    case False
    then have "scan_procs rpc cmd name ps pid s = (Inr q, s1)" "runs ps cmd \<or> pid \<noteq> 0"
      using "2.prems" by (auto simp: runs_Cons split: option.splits)
    then show ?thesis using "2.IH" "2.prems"(1) False by (cases line) auto
  qed
qed (simp add: runs_def)

lemma scan_missing: "\<not> runs table cmd \<Longrightarrow> scan_procs rpc cmd name table pid s = (Inr pid, s)"
  by (induction rpc cmd name table pid s rule: scan_procs.induct) (auto simp: runs_Cons split: option.split)

subsection \<open>What the supervisor sends\<close>

definition super_sent :: "string set \<Rightarrow> ('w \<times> trace) super \<Rightarrow> ('w \<times> trace) super \<Rightarrow> bool" where
  "super_sent M s s' \<longleftrightarrow> (\<exists>rest. snd (sp_world s') = snd (sp_world s) @ rest \<and> fst ` set rest \<subseteq> M)"

interpretation sup: kept "super_sent M" for M :: "string set"
proof
  show "super_sent M s s" for s :: "('w \<times> trace) super" by (simp add: super_sent_def)
  show "super_sent M s u" if "super_sent M s t" "super_sent M t u" for s t u :: "('w \<times> trace) super"
    using that unfolding super_sent_def by (elim exE conjE) (rule exI[of _ "_ @ _"], auto)
qed

named_theorems super_intros

lemmas [super_intros] = sup.k_rules

lemma with_client_sends: "keeps (sent M) f \<Longrightarrow> super_sent M s (snd (with_client name f b s))"
proof -
  assume f: "keeps (sent M) f"
  obtain x b1 w1 where x: "f (b, sp_world s) = (x, b1, w1)" by (rule prod_cases3)
  have "sent M (b, sp_world s) (b1, w1)" using f x unfolding keeps_def by (metis snd_conv)
  then show ?thesis using x by (simp add: with_client_def super_sent_def sent_def)
qed

lemma on_own_sends [super_intros]: "keeps (sent M) f \<Longrightarrow> keeps (super_sent M) (on_own name f)"
  using with_client_sends sup.r_refl by (auto simp: keeps_def on_own_def split: option.split)

lemma wait_sends: "''broker_status'' \<in> M \<Longrightarrow> sent M (b, w, l) (wait_instrument (traced rpc) n (b, w, l))"
proof (induction n arbitrary: b w l)
  case (Suc n)
  obtain r b1 w1 l1 where s: "broker_status (traced rpc) None (b, w, l) = (r, b1, w1, l1)" by (metis prod.collapse)
  then have "sent M (b, w, l) (b1, w1, l1)" using broker_status_sends[OF Suc.prems, of b w l rpc None b] by simp
  then have "sent M (b, w, l) (wait_instrument (traced rpc) n (b1, w1, l1))"
    using Suc.IH[OF Suc.prems, of b1 w1 l1] by (rule sent.r_trans)
  then show ?case by (simp add: s sent.r_refl)
qed (simp add: sent.r_refl)

definition harmless :: "string set" where
  "harmless = {''broker_status'', ''list_data'', ''status'', ''subscribe''}"

lemma harmless_calls [simp]:
  "''broker_status'' \<in> harmless" "''list_data'' \<in> harmless" "''status'' \<in> harmless" "''subscribe'' \<in> harmless"
  by (simp_all add: harmless_def)

lemma list_data_sends: "sent harmless (b0, w, l) (snd (list_data (traced rpc) ps t (b, w, l)))"
  unfolding list_data_def by (rule checked_call_sent) simp

lemma structure_data_sends: "keeps (sent harmless) (structure_data (traced rpc) n)"
proof -
  have "sent harmless (b, w, l) (snd (structure_data (traced rpc) n (b, w, l)))" for b w l
  proof -
    have p: "''broker_status'' \<in> harmless" by simp
    obtain r b0 w0 l0 where s0: "broker_status (traced rpc) None (b, w, l) = (r, b0, w0, l0)" by (metis prod.collapse)
    have 0: "sent harmless (b, w, l) (b0, w0, l0)" using broker_status_sends[OF p, of b w l rpc None b] s0 by simp
    obtain b1 w1 l1 where s1: "wait_instrument (traced rpc) n (b0, w0, l0) = (b1, w1, l1)" by (rule prod_cases3)
    have w: "sent harmless (b0, w0, l0) (b1, w1, l1)" using wait_sends[OF p, of b0 w0 l0 rpc n] s1 by simp
    have 1: "sent harmless (b, w, l) (b1, w1, l1)" by (rule sent.r_trans[OF 0 w])
    obtain v b2 w2 l2 where s2: "list_data (traced rpc) [PStr ''units'', PStr ''type''] None (b1, w1, l1) = (v, b2, w2, l2)"
      by (metis prod.collapse)
    have d: "sent harmless (b1, w1, l1) (b2, w2, l2)"
      using list_data_sends[of b1 w1 l1 rpc "[PStr ''units'', PStr ''type'']" None b1] s2 by simp
    have 2: "sent harmless (b, w, l) (b2, w2, l2)" by (rule sent.r_trans[OF 1 d])
    have "sent harmless (b, w, l) (c, w0, l0)" "sent harmless (b, w, l) (c, w1, l1)" "sent harmless (b, w, l) (c, w2, l2)" for c
      using 0 1 2 by (simp_all add: sent_def)
    then show ?thesis
      by (simp add: structure_data_def s0 s1 s2 split: pyval.split option.split prod.split)
  qed
  then show ?thesis by (auto simp: keeps_def)
qed

lemma start_power_sends: "keeps (sent harmless) (start_power (traced rpc))"
proof -
  have "sent harmless (b, w, l) (snd (start_power (traced rpc) (b, w, l)))" for b w l
  proof (cases "res_map (\<lambda>n. item_of b n) power_items")
    case (Inr its)
    let ?b = "add_callback (zip (map di_name its) [0, 1, 2]) b"
    obtain r b1 w1 l1 where r: "add_subscriptions (traced rpc) power_items power_opts None (?b, w, l) = (r, b1, w1, l1)"
      by (metis prod.collapse)
    have "sent harmless (?b, w, l) (b1, w1, l1)"
      by (rule keepsD[OF add_subscriptions_sends r]) simp
    then show ?thesis using Inr r by (simp add: start_power_def Let_def sent_def split: sum.split)
  qed (simp add: start_power_def sent.r_refl)
  then show ?thesis by (auto simp: keeps_def)
qed

lemma modify_quiet [super_intros]: "(\<And>s. sp_world (f s) = sp_world s) \<Longrightarrow> keeps (super_sent M) (modify f)"
  by (simp add: keeps_def modify_def super_sent_def)

lemma unchanged_sends: "keeps (sent M) (\<lambda>(b, w). (f b, b, w))" "keeps (sent M) (Pair x)"
  by (auto simp: keeps_def sent_def)

lemma reconnect_client_sends: "keeps (super_sent harmless) (reconnect_client (traced rpc) now on relay name)"
  unfolding reconnect_client_def own_attribute_def is_initialized_def restructure_def relay_is_on_def
  by (auto intro!: super_intros structure_data_sends add_subscriptions_sends value_getter_sends unchanged_sends
      split: option.split)

lemma reconnect_all_sends: "keeps (super_sent harmless) (reconnect_all (traced rpc) now on brokers list)"
proof (induction list)
  case (Cons x xs)
  obtain name relay where "x = (name, relay)" by (cases x)
  then show ?case using Cons by (auto intro!: super_intros reconnect_client_sends)
qed (simp add: sup.k_ret)

lemma check_board_sends: "keeps (super_sent harmless) (check_board (traced rpc))"
  unfolding check_board_def is_initialized_def restructure_def
  by (auto intro!: super_intros structure_data_sends start_power_sends unchanged_sends)

subsection \<open>The main loop\<close>

definition loop_ok :: "loop_event list \<Rightarrow> loop_state \<Rightarrow> bool" where
  "loop_ok evs s \<longleftrightarrow>
     lp_aio s = lp_context s \<and> (lp_loops s = 0 \<longrightarrow> s = loop_start) \<and> (lp_loops s \<ge> 2 \<longrightarrow> lp_context s) \<and>
     count_list evs Make_context = (if lp_context s then 1 else 0) \<and> (Check_python \<in> set evs \<longrightarrow> lp_context s)"

lemma run_checks_ok:
  assumes "loop_ok evs s" "li_aio i" "run_checks i s = (new, s1)"
  shows "loop_ok (evs @ new) s1 \<and> lp_loops s1 \<ge> 1"
  using assms by (auto simp: run_checks_def loop_ok_def Let_def loop_start_def split: if_splits)

lemma turn_checks_ok:
  assumes "loop_ok evs s" "li_aio i" "turn_checks cf lf i s = (new, s1)"
  shows "loop_ok (evs @ new) s1 \<and> lp_loops s1 \<ge> 1"
proof (cases "lp_check s \<or> li_second i = 0 \<and> li_minute i mod cf = 0")
  case True
  obtain new0 s0 where r: "run_checks i s = (new0, s0)" by (cases "run_checks i s")
  have "new = new0 @ (if li_minute i mod lf = 0 then [Store_row] else [])" "s1 = s0"
    using assms(3) True r by (auto simp: turn_checks_def Let_def split: if_splits)
  then show ?thesis using run_checks_ok[OF assms(1,2) r] by (auto simp: loop_ok_def)
next
  case False
  then have "s1 = s" "Make_context \<notin> set new" "Check_python \<notin> set new" "lp_loops s \<noteq> 0"
    using assms by (auto simp: turn_checks_def loop_ok_def loop_start_def split: if_splits)
  then show ?thesis using assms(1) by (auto simp: loop_ok_def)
qed

lemma loop_turn_ok:
  assumes "loop_ok evs s" "li_aio i"
  obtains new s1 where "loop_turn cf lf i s = Inr (new, s1)" "loop_ok (evs @ new) s1"
proof -
  obtain new s1 where t: "turn_checks cf lf i s = (new, s1)" by (cases "turn_checks cf lf i s")
  have k: "loop_ok (evs @ new) s1" "lp_loops s1 \<ge> 1" using turn_checks_ok[OF assms t] by auto
  show thesis
  proof (cases "lp_loops s1 = 1")
    case True
    then show thesis using that t k by (simp add: loop_turn_def)
  next
    case False
    then have c: "lp_context s1" "lp_aio s1" "lp_loops s1 \<noteq> 0" using k by (auto simp: loop_ok_def)
    then have "loop_ok (evs @ new) (s1\<lparr>lp_check := li_lost i\<rparr>)" using k by (simp add: loop_ok_def)
    then show thesis using that t False c by (simp add: loop_turn_def)
  qed
qed

lemma reached_ok: "reached cf lf evs s \<Longrightarrow> loop_ok evs s"
proof (induction rule: reached.induct)
  case (turn evs s i new s1)
  then show ?case using loop_turn_ok[OF turn.IH turn.hyps(2), of cf lf] by auto
qed (simp add: loop_ok_def loop_start_def)

section \<open>Properties\<close>

text \<open>
  The window of positions never shrinks: a new position removes one old one at most, so that after a
  pause of any length as many old positions stay in the average.
\<close>

theorem gps_window_never_shrinks:
  assumes "window_ok g"
  shows "window_ok (snd (gps_check distance cfg now f g)) \<and>
    length (gw_times (snd (gps_check distance cfg now f g))) \<ge> length (gw_times g)"
proof (cases "gps_average f g")
  case (Pair p g1)
  then show ?thesis using gps_average_window[OF assms, of f] assms
    by (auto simp: gps_check_def window_ok_def split: option.split)
qed

text \<open>
  A broker is started exactly if its process has not been found and the search ends; one whose
  process exists is left alone, whatever it answers: it is neither killed nor started again.
\<close>

theorem only_missing_started:
  assumes "list_all (\<lambda>(p, line). p \<noteq> 0) table"
  shows "fst (check_broker rpc cfg table (broker, name) s) = [] \<longleftrightarrow> runs table (conf_file cfg broker)"
proof (cases "runs table (conf_file cfg broker)")
  case True
  obtain r s1 where r: "scan_procs rpc (conf_file cfg broker) name table 0 s = (r, s1)"
    by (cases "scan_procs rpc (conf_file cfg broker) name table 0 s")
  have "r = Inr q \<Longrightarrow> q \<noteq> 0" for q using scan_found[OF assms, of "conf_file cfg broker" 0] True r by blast
  then show ?thesis using True r by (cases r) (simp_all add: check_broker_def)
next
  case False
  then show ?thesis by (simp add: check_broker_def scan_missing[OF False] Let_def)
qed

text \<open>
  Checking the connections sends the brokers nothing but questions and subscriptions: no value is
  set, no token taken and nothing suspended.
\<close>

theorem connections_only_ask:
  "\<exists>rest. snd (sp_world (snd (check_connections (traced rpc) now relay_on brokers s))) = snd (sp_world s) @ rest \<and>
     fst ` set rest \<subseteq> {''broker_status'', ''list_data'', ''status'', ''subscribe''}"
proof -
  have "keeps (super_sent harmless) (check_connections (traced rpc) now relay_on brokers)"
    unfolding check_connections_def by (auto intro!: super_intros check_board_sends reconnect_all_sends)
  then show ?thesis by (simp add: keeps_def super_sent_def harmless_def)
qed


section \<open>Witnesses\<close>

theorem gps_window_never_shrinks_witness:
  "length (gw_times (snd (gps_check (\<lambda>a b. 0) \<lparr>gc_center = (0, 0), gc_radius = 1, gc_repeat = 0\<rparr> 5
     \<lparr>gf_mode = PInt 3, gf_lat = PFloat 1, gf_lon = PFloat 2, gf_time = Some 5\<rparr>
     \<lparr>gw_lats = [PFloat 1], gw_lons = [PFloat 2], gw_times = [Some 4], gw_warned = 0\<rparr>))) \<ge> 1"
proof -
  have "window_ok \<lparr>gw_lats = [PFloat 1], gw_lons = [PFloat 2], gw_times = [Some 4], gw_warned = 0\<rparr>"
    by (simp add: window_ok_def)
  from gps_window_never_shrinks[OF this] show ?thesis by simp
qed

definition demo_java :: java_cfg where
  "demo_java = \<lparr>jc_dir = ''/opt/avp'', jc_arg = ''-server'', jc_jar = ''javp.jar'', jc_json = None, jc_postgres = None, jc_conf = ''bin''\<rparr>"

definition demo_table :: "(int \<times> string list option) list" where
  "demo_table = [(7, Some [''java'', ''/opt/avp/bin/aio.conf'']), (8, None)]"

definition lone_super :: "unit super" where
  "lone_super = \<lparr>sp_clients = [], sp_own = [], sp_power = False, sp_loops = 0, sp_world = ()\<rparr>"

theorem only_missing_started_witness:
  "fst (check_broker (\<lambda>rq w. (PNone, w)) demo_java demo_table (''aio.conf'', ''aio'') lone_super) = [] \<and>
   fst (check_broker (\<lambda>rq w. (PNone, w)) demo_java demo_table (''gps.conf'', ''gps'') lone_super) \<noteq> []"
proof -
  have t: "list_all (\<lambda>(p, line). p \<noteq> 0) demo_table" by (simp add: demo_table_def)
  have "runs demo_table (conf_file demo_java ''aio.conf'')" "\<not> runs demo_table (conf_file demo_java ''gps.conf'')"
    by code_simp+
  then show ?thesis using only_missing_started[OF t] by metis
qed

definition quiet_input :: loop_input where
  "quiet_input = \<lparr>li_minute = 1, li_second = 30, li_started = False, li_aio = True, li_others = True, li_lost = False\<rparr>"


end
