(* ===== verification/Notify.thy ===== *)
theory Notify
  imports Database
begin

text \<open>
  The thread that mails warnings to the operators, src/python/notification.py: it looks into the table
  of the log every half an hour, or when it is told to.
\<close>

section \<open>The thread\<close>

record notifier =
  nf_last :: instant
  nf_interval :: timespan
  nf_mail :: "string list option"

text \<open>A mail holds the rows of the log that were found, in place of their text.\<close>

datatype mail = Mail string "pyval list"

definition notify_where :: "instant \<Rightarrow> pyval dict" where
  "notify_where last_check = [(''time'', PInt last_check), (''level'', PInt 1)]"

text \<open>
  \<open>notify\<close>: a mail for every recipient, an error in sending is caught. Without recipients in the
  configuration the list is None, which raises.
\<close>

definition send_mails :: "pyval list \<Rightarrow> notifier \<Rightarrow> mail list res" where
  "send_mails rows n = (case nf_mail n of None \<Rightarrow> Inl TypeError | Some rs \<Rightarrow> Inr (map (\<lambda>r. Mail r rows) rs))"

definition check_due :: "instant \<Rightarrow> notifier \<Rightarrow> bool" where
  "check_due now n \<longleftrightarrow> now > nf_last n + nf_interval n"

definition find_rows :: "'w connector \<Rightarrow> 'w fetcher \<Rightarrow> notifier \<Rightarrow> avp_db \<times> 'w \<Rightarrow> pyval \<times> avp_db \<times> 'w" where
  "find_rows conn fetch n dw = select_rows conn fetch [''*''] (notify_where (nf_last n)) ''AND'' ''>'' ''all'' dw"

text \<open>
  One turn of \<open>run\<close>, which begins at one time and, if it looked into the log and sent mails, ends at a
  later one. An exception ends the thread.
\<close>

definition notify_turn :: "'w connector \<Rightarrow> 'w fetcher \<Rightarrow> instant \<times> instant \<Rightarrow> notifier \<times> avp_db \<times> 'w \<Rightarrow> mail list res \<times> notifier \<times> avp_db \<times> 'w" where
  "notify_turn conn fetch turn s =
     (case s of (n, dw) \<Rightarrow>
        if \<not> check_due (fst turn) n then (Inr [], s)
        else (case find_rows conn fetch n dw of (v, dw1) \<Rightarrow>
                if \<not> truthy v then (Inr [], n\<lparr>nf_last := snd turn\<rparr>, dw1)
                else (case v of
                        PList rows \<Rightarrow>
                          (case send_mails rows n of
                             Inl e \<Rightarrow> (Inl e, n, dw1)
                           | Inr ms \<Rightarrow> (Inr ms, n\<lparr>nf_last := snd turn\<rparr>, dw1))
                      | _ \<Rightarrow> (Inl TypeError, n, dw1))))"

text \<open>\<open>notify_now\<close> moves the time of the last check back by one interval and waits for the thread.\<close>

definition notify_now :: "notifier \<Rightarrow> notifier" where
  "notify_now n = n\<lparr>nf_last := nf_last n - nf_interval n\<rparr>"

section \<open>The log\<close>

text \<open>
  The reference for the server: it answers the statement of the thread with the entries of the log
  that are later than the time and above the level passed for the placeholders.
\<close>

record log_entry =
  le_time :: instant
  le_level :: rat
  le_row :: pyval

definition log_statement :: "string \<Rightarrow> string" where
  "log_statement table = ''SELECT * FROM '' @ table @ ''  WHERE   time > %(_w_time)s AND level > %(_w_level)s;''"

definition log_fetch :: "string \<Rightarrow> log_entry list fetcher" where
  "log_fetch table stmt vals all_rows entries =
     (case (dget vals ''_w_time'', dget vals ''_w_level'') of
        (Some (PInt t), Some (PInt l)) \<Rightarrow>
          if stmt = log_statement table
          then (Inr (PList (map le_row (filter (\<lambda>e. le_time e > t \<and> le_level e > of_int l) entries))), entries)
          else (Inl (UserException ''syntax''), entries)
      | _ \<Rightarrow> (Inl (UserException ''parameters''), entries))"

definition fresh_rows :: "instant \<Rightarrow> log_entry list \<Rightarrow> pyval list" where
  "fresh_rows t entries = map le_row (filter (\<lambda>e. le_time e > t \<and> le_level e > 1) entries)"

definition online :: "log_entry list connector" where
  "online w = (True, w)"

section \<open>Lemmas\<close>

lemma notify_statement:
  "render (fst (gen_string table (Select [''*'']) (notify_where t) ''AND'' ''>'' None)) = log_statement table"
  "fst (snd (gen_string table (Select [''*'']) (notify_where t) ''AND'' ''>'' None)) = [(''_w_time'', PInt t), (''_w_level'', PInt 1)]"
  by (simp_all add: gen_string_def head_part_def where_part_def notify_where_def dkeys_def plain_key_def is_mangled_def mangled_def
      log_statement_def values_of_def mangle_all_def Let_def dset_def dpop_def dget_or_def)

definition idle_db :: "avp_db \<Rightarrow> bool" where
  "idle_db d \<longleftrightarrow> db_enabled d \<and> \<not> db_polling d \<and> \<not> db_connected d"

lemma find_rows_online:
  assumes "idle_db d"
  shows "\<exists>d'. find_rows online (log_fetch (db_table d)) n (d, entries) = (PList (fresh_rows (nf_last n) entries), d', entries) \<and>
    idle_db d' \<and> db_table d' = db_table d"
proof -
  obtain fs vals wh where g: "gen_string (db_table d) (Select [''*'']) (notify_where (nf_last n)) ''AND'' ''>'' None = (fs, vals, wh)"
    by (rule prod_cases3)
  have r: "render fs = log_statement (db_table d)" "vals = [(''_w_time'', PInt (nf_last n)), (''_w_level'', PInt 1)]"
    using notify_statement[of "db_table d" "nf_last n"] g by simp_all
  have "sublist ''all'' ''all''" by simp
  then show ?thesis
    using assms g by (simp add: find_rows_def select_rows_def db_ready_def db_connect_def online_def idle_db_def
        log_fetch_def r fresh_rows_def db_done_def db_close_def Let_def)
qed

lemma notify_turn_online:
  assumes "idle_db d" "nf_mail n = Some rs"
  shows "\<exists>d'. notify_turn online (log_fetch (db_table d)) turn (n, d, entries) =
      (Inr (if check_due (fst turn) n \<and> fresh_rows (nf_last n) entries \<noteq> []
            then map (\<lambda>r. Mail r (fresh_rows (nf_last n) entries)) rs else []),
       (if check_due (fst turn) n then n\<lparr>nf_last := snd turn\<rparr> else n), d', entries) \<and>
    idle_db d' \<and> db_table d' = db_table d"
proof (cases "check_due (fst turn) n")
  case True
  obtain d' where f: "find_rows online (log_fetch (db_table d)) n (d, entries) = (PList (fresh_rows (nf_last n) entries), d', entries)"
    "idle_db d'" "db_table d' = db_table d"
    using find_rows_online[OF assms(1), of n entries] by blast
  then show ?thesis using True assms(2) by (simp add: notify_turn_def send_mails_def)
qed (use assms in \<open>simp add: notify_turn_def\<close>)

text \<open>A run of turns, each with the log as it finds it; the rows that are mailed.\<close>

fun mailed_rows :: "mail list \<Rightarrow> pyval list" where
  "mailed_rows [] = []"
| "mailed_rows (Mail r rows # ms) = rows @ mailed_rows ms"

fun notify_run :: "string \<Rightarrow> ((instant \<times> instant) \<times> log_entry list) list \<Rightarrow> notifier \<times> avp_db \<Rightarrow> pyval list" where
  "notify_run table [] s = []"
| "notify_run table ((turn, entries) # turns) (n, d) =
     (case notify_turn online (log_fetch table) turn (n, d, entries) of
        (Inl e, s1) \<Rightarrow> []
      | (Inr ms, n1, d1, w) \<Rightarrow> mailed_rows ms @ notify_run table turns (n1, d1))"

lemma mailed_rows_same: "set (mailed_rows (map (\<lambda>r. Mail r rows) rs)) \<subseteq> set rows"
  by (induction rs) auto

section \<open>Properties\<close>

text \<open>
  When a check is due, every recipient is mailed the entries of the log that are later than the last
  check and above the level of information, and none if there are none; the statement is built by
  the database layer. The end of the turn becomes the time of the last check.
\<close>

theorem check_mails_fresh:
  assumes "idle_db d" "nf_mail n = Some rs" "check_due t n"
  shows "case notify_turn online (log_fetch (db_table d)) (t, t') (n, d, entries) of (r, n', d', w') \<Rightarrow>
    r = Inr (if fresh_rows (nf_last n) entries = [] then [] else map (\<lambda>a. Mail a (fresh_rows (nf_last n) entries)) rs) \<and>
    nf_last n' = t' \<and> idle_db d'"
  using notify_turn_online[OF assms(1,2), of "(t, t')" entries] assms(3) by auto

text \<open>
  A warning that is written to the log between the look into the table and the end of the turn,
  for instance while mails are sent, is never mailed: all later turns only mail entries that are later than the
  end of the turn.
\<close>

theorem late_entries_lost:
  assumes "idle_db d" "nf_mail n = Some rs" "0 \<le> nf_interval n"
    "\<forall>((t, t'), entries) \<in> set turns. t \<le> t' \<and> set entries \<subseteq> log_all"
  shows "set (notify_run (db_table d) turns (n, d)) \<subseteq> le_row ` {e \<in> log_all. le_time e > nf_last n}"
  using assms
proof (induction turns arbitrary: n d)
  case (Cons x turns)
  obtain t t' entries where x: "x = ((t, t'), entries)" by (metis prod.collapse)
  let ?n = "if check_due t n then n\<lparr>nf_last := t'\<rparr> else n"
  let ?ms = "if check_due t n \<and> fresh_rows (nf_last n) entries \<noteq> [] then map (\<lambda>r. Mail r (fresh_rows (nf_last n) entries)) rs else []"
  obtain d' where d': "notify_turn online (log_fetch (db_table d)) (t, t') (n, d, entries) = (Inr ?ms, ?n, d', entries)"
    "idle_db d'" "db_table d' = db_table d"
    using notify_turn_online[OF Cons.prems(1,2), of "(t, t')" entries] by auto
  have l: "nf_last n \<le> nf_last ?n" using Cons.prems(3,4) x by (auto simp: check_due_def)
  have "set (notify_run (db_table d') turns (?n, d')) \<subseteq> le_row ` {e \<in> log_all. le_time e > nf_last ?n}"
    using Cons.prems d'(2) by (intro Cons.IH) auto
  moreover have "le_row ` {e \<in> log_all. le_time e > nf_last ?n} \<subseteq> le_row ` {e \<in> log_all. le_time e > nf_last n}"
    using l by (intro image_mono) auto
  moreover have "set (mailed_rows ?ms) \<subseteq> le_row ` {e \<in> log_all. le_time e > nf_last n}"
    using mailed_rows_same[of "fresh_rows (nf_last n) entries" rs] Cons.prems(4) x by (auto simp: fresh_rows_def)
  ultimately show ?case using d' x by auto
qed simp

section \<open>Witnesses\<close>

definition demo_notifier :: notifier where
  "demo_notifier = \<lparr>nf_last = 100, nf_interval = 10, nf_mail = Some [''operator'']\<rparr>"

definition log_db :: avp_db where
  "log_db = \<lparr>db_table = ''log'', db_hostname = ''avp'', db_enabled = True, db_polling = False, db_columns = [],
     db_connected = False, db_cursor = False, db_queue = []\<rparr>"

definition demo_log :: "log_entry list" where
  "demo_log = [\<lparr>le_time = 99, le_level = 2, le_row = PStr ''old''\<rparr>, \<lparr>le_time = 105, le_level = 2, le_row = PStr ''low voltage''\<rparr>]"

theorem check_mails_fresh_witness:
  "fst (notify_turn online (log_fetch (db_table log_db)) (111, 120) (demo_notifier, log_db, demo_log)) =
     Inr [Mail ''operator'' [PStr ''low voltage'']]"
proof -
  have h: "idle_db log_db" "nf_mail demo_notifier = Some [''operator'']" "check_due 111 demo_notifier" by code_simp+
  have f: "fresh_rows (nf_last demo_notifier) demo_log = [PStr ''low voltage'']" by code_simp
  show ?thesis using check_mails_fresh[OF h, where t' = 120 and entries = demo_log] f by (auto split: prod.splits)
qed

definition leak :: log_entry where
  "leak = \<lparr>le_time = 115, le_level = 2, le_row = PStr ''leak''\<rparr>"

definition busy_turns :: "((instant \<times> instant) \<times> log_entry list) list" where
  "busy_turns = [((131, 140), [leak])]"

definition busy_notifier :: notifier where
  "busy_notifier = demo_notifier\<lparr>nf_last := 120\<rparr>"

theorem late_entries_lost_witness:
  "notify_run (db_table log_db) busy_turns (busy_notifier, log_db) = []"
proof -
  have h: "idle_db log_db" "nf_mail busy_notifier = Some [''operator'']" "0 \<le> nf_interval busy_notifier" by code_simp+
  have t: "\<forall>((t, t'), entries) \<in> set busy_turns. t \<le> t' \<and> set entries \<subseteq> {leak}" by (simp add: busy_turns_def)
  have e: "le_row ` {e \<in> {leak}. le_time e > nf_last busy_notifier} = {}"
    by (simp add: leak_def busy_notifier_def)
  have "set (notify_run (db_table log_db) busy_turns (busy_notifier, log_db)) \<subseteq> {}"
    using late_entries_lost[OF h t] unfolding e .
  then show ?thesis by simp
qed

end
