(* ===== verification/Client.thy ===== *)
theory Client
  imports Broker
begin

text \<open>
  The life of a broker client: its constants, the constructor of \<open>_BrokerClient\<close> in
  src/python/avp_broker.py, and what holds of every client that has been constructed and used.
\<close>

section \<open>Configuration\<close>

definition config_part :: "pyval dict \<Rightarrow> string \<Rightarrow> pyval dict res" where
  "config_part cfg name =
     (case dget cfg name of None \<Rightarrow> Inr [] | Some (PDict d) \<Rightarrow> Inr d | Some v \<Rightarrow> Inl AttributeError)"

text \<open>
  A constant is a text of the configuration file: a float if there is a point in it, else an integer;
  what cannot be converted stays a text. A list of texts raises.
\<close>

definition constant_of :: "pyval \<Rightarrow> pyval res" where
  "constant_of v =
     (case v of
        PStr s \<Rightarrow>
          (if CHR ''.'' \<in> set s
           then (case float_of_string s of Inr (Fin q) \<Rightarrow> Inr (PFloat q) | _ \<Rightarrow> Inr v)
           else (case int_of_string s of Inr i \<Rightarrow> Inr (PInt i) | Inl e \<Rightarrow> Inr v))
      | _ \<Rightarrow> Inl TypeError)"

record settings =
  st_port :: int
  st_timeout :: int
  st_resume :: int
  st_stale :: int
  st_constants :: "pyval dict"

text \<open>\<open>load_config\<close> of the generic client; the name of the host is left out.\<close>

definition load_settings :: "pyval dict \<Rightarrow> string \<Rightarrow> settings res" where
  "load_settings cfg name =
     res_bind (config_part cfg name) (\<lambda>own.
     res_bind (config_part cfg ''broker'') (\<lambda>common.
     res_bind (py_int (dget_or own ''PORT'' (PInt 0))) (\<lambda>port.
     res_bind (py_int (dget_or own ''SOCKET_TIMEOUT'' (dget_or common ''SOCKET_TIMEOUT'' (PInt 5)))) (\<lambda>tmo.
     res_bind (py_int (dget_or common ''RESUME_TIMEOUT'' (dget_or cfg ''RESUME_TIMEOUT'' (PInt 50)))) (\<lambda>resume.
     res_bind (py_int (dget_or common ''STALE_TIME'' (dget_or cfg ''STALE_TIME'' (PInt 10)))) (\<lambda>stale.
     res_bind (config_part own ''constants'') (\<lambda>consts.
     res_bind (res_map (\<lambda>kv. res_bind (constant_of (snd kv)) (\<lambda>c. Inr (fst kv, c))) consts) (\<lambda>cs.
       Inr \<lparr>st_port = port, st_timeout = tmo, st_resume = resume, st_stale = stale, st_constants = cs\<rparr>))))))))"

section \<open>The constructor\<close>

text \<open>
  The object before its data structure is built: the names of the class and of the constants are
  attributes that are no data items. The first id of a call is drawn at random.
\<close>

definition fresh_client :: "string \<Rightarrow> int \<Rightarrow> string list \<Rightarrow> settings \<Rightarrow> broker" where
  "fresh_client name first_id names st =
     \<lparr>bk_name = name, bk_json_id = first_id,
      bk_attrs = map (\<lambda>n. (n, AOther)) (names @ map fst (st_constants st)),
      bk_items = [], bk_points = [], bk_subs = [], bk_callbacks = [], bk_sub_running = False, bk_sub_error = False,
      bk_linked = False, bk_initialized = False, bk_token = False, bk_power_on = Some False, bk_db = Some False,
      bk_instr = Some False, bk_suspended = Some False, bk_last_db = PNone, bk_last_data = PNone, bk_start = PNone,
      bk_resume_timeout = st_resume st, bk_stale = seconds (st_stale st)\<rparr>"

text \<open>An alias is another attribute for the object of an existing one.\<close>

definition add_alias :: "string \<times> pyval \<Rightarrow> broker \<Rightarrow> broker res" where
  "add_alias kv b =
     (case snd kv of
        PStr target \<Rightarrow>
          (case dget (bk_attrs b) target of
             None \<Rightarrow> Inl AttributeError
           | Some a \<Rightarrow>
               Inr (b\<lparr>bk_attrs := dset (bk_attrs b) (fst kv) a,
                      bk_points := (case a of AItem m \<Rightarrow> dset (bk_points b) (fst kv) m | _ \<Rightarrow> bk_points b)\<rparr>))
      | _ \<Rightarrow> Inl TypeError)"

fun add_aliases :: "(string \<times> pyval) list \<Rightarrow> broker \<Rightarrow> pyexn option \<times> broker" where
  "add_aliases [] b = (None, b)"
| "add_aliases (kv # kvs) b = (case add_alias kv b of Inl e \<Rightarrow> (Some e, b) | Inr b1 \<Rightarrow> add_aliases kvs b1)"

text \<open>
  The constructor waits for the connection, 22 looks at the most (the list tells what they find), then
  it builds the data structure and adds the aliases. Without a connection the client stays empty.
\<close>

definition max_looks :: nat where
  "max_looks = 22"

definition init_client :: "'w rpc_fun \<Rightarrow> bool list \<Rightarrow> (string \<times> pyval) list \<Rightarrow> broker \<times> 'w \<Rightarrow> pyexn option \<times> broker \<times> 'w" where
  "init_client rpc looks aliases bw =
     (if True \<notin> set (take max_looks looks) then (None, bw)
      else (case structure_data rpc 8 ((fst bw)\<lparr>bk_linked := True\<rparr>, snd bw) of
              (Inl e, bw1) \<Rightarrow> (Some e, bw1)
            | (Inr k, b1, w1) \<Rightarrow>
                if k > 0 then (case add_aliases aliases b1 of (r, b2) \<Rightarrow> (r, b2, w1)) else (None, b1, w1)))"

text \<open>
  The client of the board of inputs and outputs adds the aliases a second time, whether there was a
  connection or not. Its constants have defaults, as those of the anemometer.
\<close>

definition init_aio :: "'w rpc_fun \<Rightarrow> bool list \<Rightarrow> (string \<times> pyval) list \<Rightarrow> broker \<times> 'w \<Rightarrow> pyexn option \<times> broker \<times> 'w" where
  "init_aio rpc looks aliases bw =
     (case init_client rpc looks aliases bw of
        (Some e, bw1) \<Rightarrow> (Some e, bw1)
      | (None, b1, w1) \<Rightarrow> (case add_aliases aliases b1 of (r, b2) \<Rightarrow> (r, b2, w1)))"

definition aio_defaults :: "pyval dict" where
  "aio_defaults =
     [(''VOLTAGE_MULTIPLIER'', PFloat (3089 / 1000)), (''LOAD_CURRENT_OFFSET'', PFloat (515 / 1000)),
      (''CHARGE_CURRENT_OFFSET'', PFloat (4077 / 10000)), (''LOAD_CURRENT_MULTIPLIER'', PFloat (7519 / 1000)),
      (''CHARGE_CURRENT_MULTIPLIER'', PFloat (9259 / 1000))]"

definition wind_defaults :: "pyval dict" where
  "wind_defaults = [(''COMPASS_TARGET'', PInt 0), (''COMPASS_MARGIN'', PInt 90)]"

definition with_defaults :: "pyval dict \<Rightarrow> settings \<Rightarrow> settings" where
  "with_defaults ds st = st\<lparr>st_constants := dupdate ds (st_constants st)\<rparr>"

text \<open>\<open>value\<close>: an attribute of an item, without asking for a new value unless the attribute is \<open>value\<close> itself.\<close>

definition attr_value :: "'w rpc_fun \<Rightarrow> instant \<Rightarrow> string \<Rightarrow> string \<Rightarrow> broker \<times> 'w \<Rightarrow> pyval res \<times> broker \<times> 'w" where
  "attr_value rpc now param request bw =
     (if \<not> has_attr (fst bw) param then (Inr PNone, bw)
      else (case item_of (fst bw) param of
              Inl e \<Rightarrow> (Inr PNone, bw)
            | Inr it \<Rightarrow>
                if request = ''value'' then value_getter rpc now (di_name it) bw
                else if request = ''mem_value'' then (Inr (di_value it), bw)
                else if request = ''data_name'' then (Inr (PStr (di_name it)), bw)
                else if request = ''units'' then (Inr (case di_units it of Some u \<Rightarrow> u | None \<Rightarrow> PNone), bw)
                else if request = ''subscribed'' then (Inr (PBool (di_subscribed it)), bw)
                else if request = ''tz'' then (Inr (di_tz it), bw)
                else (Inr PNone, bw)))"

section \<open>Clients in use\<close>

text \<open>
  What can happen to a client: it is constructed, its connection comes and goes, it is built anew, gets
  aliases with new names, and is used with the operations below.
\<close>

inductive lives :: "'w rpc_fun \<Rightarrow> broker \<Rightarrow> bool" for rpc where
  fresh: "lives rpc (fresh_client name first_id names st)"
| linked: "lives rpc b \<Longrightarrow> lives rpc (b\<lparr>bk_linked := l\<rparr>)"
| built: "lives rpc b \<Longrightarrow> lives rpc (fst (snd (structure_data rpc tries (b, w))))"
| aliased: "lives rpc b \<Longrightarrow> dget (bk_attrs b) (fst kv) = None \<Longrightarrow> fst kv \<noteq> ''message_time'' \<Longrightarrow> add_alias kv b = Inr b1 \<Longrightarrow> lives rpc b1"
| subscribed: "lives rpc b \<Longrightarrow> lives rpc (fst (snd (add_subscriptions rpc ns opts tmo (b, w))))"
| drop_all: "lives rpc b \<Longrightarrow> lives rpc (fst (snd (unsubscribe_all (Suc (Suc fuel)) rpc (b, w))))"
| callback: "lives rpc b \<Longrightarrow> lives rpc (add_callback cbs b)"
| notified: "lives rpc b \<Longrightarrow> lives rpc (fst (notify now_text n b))"
| written: "lives rpc b \<Longrightarrow> lives rpc (fst (snd (set_params rpc now ps ws tmo (b, w))))"
| was_read: "lives rpc b \<Longrightarrow> lives rpc (fst (snd (value_getter rpc now k (b, w))))"
| asked: "lives rpc b \<Longrightarrow> lives rpc (fst (snd (get_value rpc ns v tmo (b, w))))"

section \<open>Lemmas\<close>

subsection \<open>Names\<close>

text \<open>Every attribute that is an item leads to an item reachable under its own name.\<close>

definition names_ok :: "broker \<Rightarrow> bool" where
  "names_ok b \<longleftrightarrow>
     (\<forall>n m. dget (bk_attrs b) n = Some (AItem m) \<longrightarrow> own_name b m \<and> (\<exists>i. dget (bk_items b) m = Some i \<and> di_name i = m) \<and>
       (n = ''message_time'' \<longrightarrow> m = n))"

definition client_ok :: "broker \<Rightarrow> bool" where
  "client_ok b \<longleftrightarrow> names_ok b \<and> subs_ok b"

definition item_names :: "broker \<Rightarrow> string \<Rightarrow> string option" where
  "item_names b n = map_option di_name (dget (bk_items b) n)"

text \<open>Two clients with the same attributes and names of items, and with the same subscriptions.\<close>

definition same_shape :: "broker \<Rightarrow> broker \<Rightarrow> bool" where
  "same_shape b b' \<longleftrightarrow> bk_attrs b' = bk_attrs b \<and> item_names b' = item_names b"

definition same_subs :: "broker \<Rightarrow> broker \<Rightarrow> bool" where
  "same_subs b b' \<longleftrightarrow> same_shape b b' \<and> bk_subs b' = bk_subs b"

lemma item_names_iff: "(\<exists>i. dget (bk_items b) m = Some i \<and> di_name i = n) \<longleftrightarrow> item_names b m = Some n"
  by (auto simp: item_names_def)

lemma names_ok_alt:
  "names_ok b \<longleftrightarrow> (\<forall>n m. dget (bk_attrs b) n = Some (AItem m) \<longrightarrow> dget (bk_attrs b) m = Some (AItem m) \<and> item_names b m = Some m \<and>
     (n = ''message_time'' \<longrightarrow> m = n))"
  by (simp add: names_ok_def own_name_def item_names_iff)

lemma subs_ok_alt:
  "subs_ok b \<longleftrightarrow> dwf (bk_subs b) \<and> (dget (bk_subs b) ''message_time'' \<noteq> None \<longrightarrow> dget (bk_attrs b) ''message_time'' = Some (AItem ''message_time'')) \<and>
     (\<forall>k n. dget (bk_subs b) k = Some n \<longrightarrow> dget (bk_attrs b) k = Some (AItem n) \<and> dget (bk_attrs b) n = Some (AItem n) \<and>
        dget (bk_subs b) n = Some n \<and> item_names b n = Some n)"
  by (simp add: subs_ok_def own_name_def item_names_iff)

lemma same_names_ok: "names_ok b \<Longrightarrow> same_shape b b' \<Longrightarrow> names_ok b'"
  by (simp add: names_ok_alt same_shape_def)

lemma same_client_ok:
  assumes "client_ok b" "same_subs b b'"
  shows "client_ok b'"
proof -
  have e: "bk_attrs b' = bk_attrs b" "item_names b' = item_names b" "bk_subs b' = bk_subs b"
    using assms(2) by (simp_all add: same_subs_def same_shape_def)
  show ?thesis using assms(1) unfolding client_ok_def names_ok_alt subs_ok_alt e .
qed

lemma same_subs_refl [simp]: "same_subs b b"
  by (simp add: same_subs_def same_shape_def)

lemma same_subs_trans: "same_subs b b' \<Longrightarrow> same_subs b' b'' \<Longrightarrow> same_subs b b''"
  by (simp add: same_subs_def same_shape_def)

lemma same_shape_trans: "same_shape b b' \<Longrightarrow> same_shape b' b'' \<Longrightarrow> same_shape b b''"
  by (simp add: same_shape_def)

lemma same_shape_refl [simp]: "same_shape b b"
  by (simp add: same_shape_def)

lemma upd_item_names: "(\<And>i. di_name (f i) = di_name i) \<Longrightarrow> item_names (upd_item n f b) = item_names b"
  by (auto simp: fun_eq_iff item_names_def upd_item_items option.map_comp comp_def)

lemma upd_item_same: "(\<And>i. di_name (f i) = di_name i) \<Longrightarrow> same_subs b (upd_item n f b)"
  by (simp add: same_subs_def same_shape_def upd_item_names)

text \<open>Changing other fields changes neither.\<close>

lemma same_subs_fields: "bk_attrs b' = bk_attrs b \<Longrightarrow> bk_items b' = bk_items b \<Longrightarrow> bk_subs b' = bk_subs b \<Longrightarrow> same_subs b b'"
  by (simp add: same_subs_def same_shape_def item_names_def fun_eq_iff)

subsection \<open>Operations that keep names and subscriptions\<close>

lemma call_same: "same_subs b (fst (snd (call rpc m t p (b, w))))"
  by (simp add: call_simps same_subs_fields)

lemma checked_call_same: "same_subs b (fst (snd (checked_call rpc m t p (b, w))))"
  by (simp add: checked_call_broker same_subs_fields)

lemma broker_status_same: "same_subs b (fst (snd (broker_status rpc t (b, w))))"
proof -
  obtain r b1 w1 where c: "checked_call rpc ''broker_status'' t None (b, w) = (r, b1, w1)" by (rule prod_cases3)
  then have "b1 = b\<lparr>bk_json_id := bk_json_id b + 1\<rparr>" using checked_call_broker[of rpc "''broker_status''" t None b w] by simp
  then show ?thesis using c by (simp add: broker_status_def same_subs_fields)
qed

lemma wait_same: "same_subs b (fst (wait_instrument rpc n (b, w)))"
proof (induction n arbitrary: b w)
  case (Suc n)
  obtain r b1 w1 where s: "broker_status rpc None (b, w) = (r, b1, w1)" by (rule prod_cases3)
  then have "same_subs b b1" using broker_status_same[of b rpc None w] by simp
  then have "same_subs b (fst (wait_instrument rpc n (b1, w1)))" using Suc.IH by (rule same_subs_trans)
  then show ?case by (simp add: s)
qed simp

lemma status_item_same: "same_subs b (snd (status_item res mt n b))"
  by (auto simp: status_item_def Let_def intro!: upd_item_same split: prod.split option.split pyval.split sum.split)

lemma status_items_same: "same_subs b (status_items res mt ns b)"
proof (induction res mt ns b rule: status_items.induct)
  case (2 res mt n ns b)
  obtain e b1 where s: "status_item res mt n b = (e, b1)" by (cases "status_item res mt n b")
  then have "same_subs b b1" using status_item_same[of b res mt n] by simp
  then show ?case using 2 s same_subs_trans by (cases e) auto
qed simp

lemma status_same: "same_subs b (fst (snd (snd (status rpc ns v t (b, w)))))"
proof -
  let ?p = "Some (PDict [(''data'', PList (map PStr (remove1 ''message_time'' ns))), (''style'', PStr (if v then ''verbose'' else ''terse''))])"
  obtain x b1 w1 where c: "call rpc ''status'' t ?p (b, w) = (x, b1, w1)" by (rule prod_cases3)
  then have "same_subs b b1" using call_same[of b rpc "''status''" t ?p w] by simp
  then have "same_subs b (status_items res mt ks b1)" for res mt ks using status_items_same same_subs_trans by blast
  with \<open>same_subs b b1\<close> show ?thesis unfolding status_def Let_def c
    by (simp split: pyval.split)
qed

lemma value_getter_same: "same_subs b (fst (snd (value_getter rpc now n (b, w))))"
  using status_same[of b rpc _ False None w] by (auto simp: value_getter_def Let_def split: option.split prod.split) (metis fst_conv snd_conv)+

lemma get_value_same: "same_subs b (fst (snd (get_value rpc ns v t (b, w))))"
  using status_same[of b rpc _ v t w] by (auto simp: get_value_def split: sum.split option.split prod.split pyval.split) (metis fst_conv snd_conv)+

lemma check_params_same: "same_subs b (snd (snd (check_params now ps acc b)))"
proof (induction now ps acc b rule: check_params.induct)
  case (2 now n v ps acc b)
  have u: "same_subs b (upd_item m (\<lambda>i. i\<lparr>di_set_to := Some v, di_set_at := Some now\<rparr>) b)" for m
    by (rule upd_item_same) simp
  show ?case using 2 by (auto intro: same_subs_trans[OF u] split: sum.split)
qed simp

lemma set_params_same: "same_subs b (fst (snd (set_params rpc now ps ws t (b, w))))"
proof -
  obtain e c b1 where k: "check_params now ps [] b = (e, c, b1)" by (rule prod_cases3)
  then have 1: "same_subs b b1" using check_params_same[of b now ps "[]"] by simp
  define q where "q = Some (PDict (if ws then dset c ''write_store'' (PBool True) else c))"
  obtain r b2 w2 where s: "checked_call rpc ''set'' t q (b1, w) = (r, b2, w2)" by (rule prod_cases3)
  then have 2: "same_subs b b2" using same_subs_trans[OF 1 checked_call_same[of b1 rpc "''set''" t q w]] by simp
  show ?thesis
  proof (cases e)
    case None
    then show ?thesis using k 1 2 s by (simp add: set_params_def Let_def q_def[symmetric])
  qed (use k 1 in \<open>simp add: set_params_def\<close>)
qed

lemma notify_value_same:
  assumes "dget (bk_items b) n = Some it" "di_name j = di_name it"
  shows "same_subs b (b\<lparr>bk_sub_error := False, bk_items := dset (bk_items b) n j\<rparr>)"
  using assms by (auto simp: same_subs_def same_shape_def fun_eq_iff item_names_def dict_simps)

lemma notify_param_same: "same_subs b (fst (snd (notify_param mlong tz (k, p) (b, cbs))))"
proof (cases "dget (bk_subs b) k")
  case (Some n)
  have e: "same_subs b (b\<lparr>bk_sub_error := x\<rparr>)" for x by (rule same_subs_fields) simp_all
  show ?thesis
  proof (cases "py_in ''value'' p")
    case (Inr v)
    show ?thesis
    proof (cases v)
      case True
      have r: "notify_param mlong tz (k, p) (b, cbs) = (x, y) \<Longrightarrow> same_subs b (fst y)"
        if "p = PDict d" "dget (bk_items b) n = Some it" "di_units it = Some (PStr u)" for d it u x y
        using that Some Inr True by (auto simp: notify_param_def Let_def intro!: notify_value_same)
      show ?thesis
      proof (cases "\<exists>d it u. p = PDict d \<and> dget (bk_items b) n = Some it \<and> di_units it = Some (PStr u)")
        case c: True
        then show ?thesis using r by (metis prod.collapse)
      next
        case False
        then have "fst (snd (notify_param mlong tz (k, p) (b, cbs))) = b\<lparr>bk_sub_error := False\<rparr>"
          using Some Inr True by (auto simp: notify_param_def split: pyval.split option.split)
        then show ?thesis using e by simp
      qed
    next
      case False
      then show ?thesis using Some Inr e by (auto simp: notify_param_def split: sum.split bool.split)
    qed
  qed (simp add: notify_param_def Some)
qed (simp add: notify_param_def)

lemma notify_params_same: "same_subs (fst bs) (fst (snd (notify_params mlong tz kps bs)))"
proof (induction mlong tz kps bs rule: notify_params.induct)
  case (2 mlong tz kp kps bs)
  obtain e bs1 where n: "notify_param mlong tz kp bs = (e, bs1)" by (cases "notify_param mlong tz kp bs")
  then have "same_subs (fst bs) (fst bs1)" using notify_param_same[of "fst bs" mlong tz "fst kp" "snd kp" "snd bs"] by simp
  then show ?case using 2 n same_subs_trans by (cases e) auto
qed simp

lemma notify_same: "same_subs b (fst (notify now_text n b))"
proof -
  have u: "same_subs b (upd_item m f b1)" if "same_subs b b1" "\<And>i. di_name (f i) = di_name i" for m f b1
    using same_subs_trans[OF that(1) upd_item_same[OF that(2)]] .
  have p: "same_subs b (fst (snd (notify_params mlong tz kps (b, cbs))))" for mlong tz kps cbs
    using notify_params_same[of "(b, cbs)"] by simp
  show ?thesis
    using p by (auto simp: notify_def Let_def intro!: u split: pyval.split prod.split option.split) (metis fst_conv snd_conv)+
qed

subsection \<open>Operations that add names\<close>

lemma fresh_ok: "client_ok (fresh_client name first_id names st)"
proof -
  have "dget (map (\<lambda>n. (n, AOther)) ns) k \<noteq> Some (AItem m)" for ns k m
    by (induction ns) (auto simp: dget_def)
  then have "dget (bk_attrs (fresh_client name first_id names st)) k \<noteq> Some (AItem m)" for k m
    unfolding fresh_client_def broker.simps .
  moreover have "bk_subs (fresh_client name first_id names st) = []" by (simp add: fresh_client_def)
  ultimately show ?thesis by (simp add: client_ok_def names_ok_alt subs_ok_alt)
qed

lemma add_parameter_ok: "client_ok b \<Longrightarrow> client_ok (snd (add_parameter n info b))"
proof (cases "snd (add_parameter n info b) = b")
  case False
  assume ok: "client_ok b"
  let ?b1 = "snd (add_parameter n info b)"
  obtain it where it: "bk_attrs ?b1 = dset (bk_attrs b) n (AItem n)" "bk_items ?b1 = dset (bk_items b) n it" "di_name it = n"
    "bk_subs ?b1 = bk_subs b" and free: "dget_or (bk_attrs b) n ANone = ANone"
  proof -
    from False obtain t where "pget_or info ''type'' PNone = PStr t" "t \<in> {''RO'', ''RW'', ''WO'', ''NI''}" "dget_or (bk_attrs b) n ANone = ANone"
      by (auto simp: add_parameter_def Let_def split: pyval.splits if_splits attr.splits)
    then show thesis
      by (intro that[of "new_item n t (pget_or info ''units'' PNone)"]) (auto simp: add_parameter_def Let_def new_item_def)
  qed
  have no: "dget (bk_attrs b) n \<noteq> Some (AItem m)" for m using free by (auto simp: dget_or_conv)
  have names: "item_names ?b1 k = (if k = n then Some n else item_names b k)" for k
    using it by (simp add: item_names_def dict_simps)
  have "names_ok ?b1" using ok no unfolding client_ok_def names_ok_alt names it(1) dget_dset by auto
  moreover have "subs_ok ?b1" using ok no unfolding client_ok_def subs_ok_alt names it(1,4) dget_dset by auto
  ultimately show ?thesis by (simp add: client_ok_def)
qed simp

lemma add_parameters_ok: "client_ok b \<Longrightarrow> client_ok (snd (add_parameters ps b))"
proof (induction ps b rule: add_parameters.induct)
  case (2 n info ps b)
  obtain k b1 where a: "add_parameter n info b = (k, b1)" by (cases "add_parameter n info b")
  then have "client_ok b1" using add_parameter_ok[OF 2(2), of n info] by simp
  then have "client_ok (snd (add_parameters ps b1))" using 2(1)[OF a[symmetric]] by simp
  then show ?case by (simp add: a split: prod.split) (metis snd_conv)
qed simp

lemma structure_data_ok:
  assumes "client_ok b"
  shows "client_ok (fst (snd (structure_data rpc n (b, w))))"
proof -
  obtain r b0 w0 where s0: "broker_status rpc None (b, w) = (r, b0, w0)" by (rule prod_cases3)
  obtain b1 w1 where s1: "wait_instrument rpc n (b0, w0) = (b1, w1)" by (cases "wait_instrument rpc n (b0, w0)")
  obtain v b2 w2 where s2: "list_data rpc [PStr ''units'', PStr ''type''] None (b1, w1) = (v, b2, w2)" by (rule prod_cases3)
  have 0: "client_ok b0" using same_client_ok[OF assms] broker_status_same[of b rpc None w] s0 by simp
  have 1: "client_ok b1" using same_client_ok[OF 0] wait_same[of b0 rpc n w0] s1 by simp
  have 2: "client_ok b2"
    using same_client_ok[OF 1] checked_call_same[of b1 rpc "''list_data''" None _ w1] s2 unfolding list_data_def by (metis fst_conv snd_conv)
  have f: "client_ok (c\<lparr>bk_initialized := i\<rparr>)" if "client_ok c" for c i
    using same_client_ok[OF that same_subs_fields] by simp
  have p: "client_ok ((snd (add_parameters d b2))\<lparr>bk_initialized := i\<rparr>)" for d i
    using f[OF add_parameters_ok[OF 2]] .
  show ?thesis
    using 0 1 2 f p by (auto simp: structure_data_def s0 s1 s2 split: pyval.split option.split prod.split) (metis snd_conv)+
qed

lemma add_alias_ok:
  assumes "client_ok b" "dget (bk_attrs b) (fst kv) = None" "fst kv \<noteq> ''message_time''" "add_alias kv b = Inr b1"
  shows "client_ok b1"
proof -
  obtain target a where t: "dget (bk_attrs b) target = Some a" "bk_attrs b1 = dset (bk_attrs b) (fst kv) a"
    "bk_items b1 = bk_items b" "bk_subs b1 = bk_subs b"
    using assms(4) by (auto simp: add_alias_def split: pyval.splits option.splits)
  have i: "item_names b1 = item_names b" by (simp add: fun_eq_iff item_names_def t(3))
  have k: "dget (bk_attrs b1) n = (if n = fst kv then Some a else dget (bk_attrs b) n)" for n
    by (simp add: t(2) dget_dset)
  have keep: "dget (bk_attrs b1) n = Some x" if "dget (bk_attrs b) n = Some x" for n x
    using that assms(2) by (auto simp: k)
  have n: "dget (bk_attrs b) m = Some (AItem m) \<and> item_names b m = Some m \<and> (n = ''message_time'' \<longrightarrow> m = n)"
    if "dget (bk_attrs b) n = Some (AItem m)" for n m
    using assms(1) that unfolding client_ok_def names_ok_alt by blast
  have "names_ok b1"
    unfolding names_ok_alt i
  proof (intro allI impI)
    fix n' m assume h: "dget (bk_attrs b1) n' = Some (AItem m)"
    show "dget (bk_attrs b1) m = Some (AItem m) \<and> item_names b m = Some m \<and> (n' = ''message_time'' \<longrightarrow> m = n')"
    proof (cases "n' = fst kv")
      case True
      then have "dget (bk_attrs b) target = Some (AItem m)" using h k t(1) by simp
      then show ?thesis using n[of target m] keep True assms(3) by simp
    next
      case False
      then show ?thesis using h k n[of n' m] keep by simp
    qed
  qed
  moreover have "subs_ok b1"
    using assms(1) keep unfolding client_ok_def subs_ok_alt i t(4) by blast
  ultimately show ?thesis by (simp add: client_ok_def)
qed

lemma item_ofD:
  assumes "item_of b n = Inr it" "client_ok b"
  shows "dget (bk_attrs b) n = Some (AItem (di_name it)) \<and> dget (bk_attrs b) (di_name it) = Some (AItem (di_name it)) \<and>
     item_names b (di_name it) = Some (di_name it) \<and> (n = ''message_time'' \<longrightarrow> di_name it = n)"
proof -
  obtain m where m: "dget (bk_attrs b) n = Some (AItem m)" "dget (bk_items b) m = Some it"
    using assms(1) by (auto simp: item_of_def split: option.splits attr.splits)
  have "dget (bk_attrs b) m = Some (AItem m) \<and> item_names b m = Some m \<and> (n = ''message_time'' \<longrightarrow> m = n)"
    using assms(2) m(1) unfolding client_ok_def names_ok_alt by blast
  moreover from this have "di_name it = m" using m(2) by (simp add: item_names_def)
  ultimately show ?thesis using m(1) by simp
qed

lemma subscribe_names_ok: "client_ok b \<Longrightarrow> client_ok (snd (snd (subscribe_names ns acc b)))"
proof (induction ns acc b rule: subscribe_names.induct)
  case (2 n ns acc b)
  have step: "client_ok (upd_item (di_name it) (\<lambda>i. i\<lparr>di_subscribed := True\<rparr>)
      (b\<lparr>bk_sub_running := True, bk_subs := dset (dset (bk_subs b) n (di_name it)) (di_name it) (di_name it)\<rparr>))"
    (is "client_ok ?b1") if it: "item_of b n = Inr it" for it
  proof -
    let ?m = "di_name it"
    have h: "dget (bk_attrs b) n = Some (AItem ?m)" "dget (bk_attrs b) ?m = Some (AItem ?m)" "item_names b ?m = Some ?m"
      "n = ''message_time'' \<longrightarrow> ?m = n" using item_ofD[OF it "2.prems"] by blast+
    have i: "item_names ?b1 = item_names b" by (subst upd_item_names) (simp_all add: fun_eq_iff item_names_def)
    have a: "bk_attrs ?b1 = bk_attrs b" "bk_subs ?b1 = dset (dset (bk_subs b) n ?m) ?m ?m" by simp_all
    have "names_ok ?b1" using "2.prems" unfolding client_ok_def names_ok_alt i a by blast
    moreover have "subs_ok ?b1"
      using "2.prems" h unfolding client_ok_def subs_ok_alt i a dget_dset by auto
    ultimately show ?thesis by (simp add: client_ok_def)
  qed
  show ?case using 2 step by (auto split: sum.split)
qed simp

lemma add_subscriptions_ok:
  assumes "client_ok b"
  shows "client_ok (fst (snd (add_subscriptions rpc ns opts t (b, w))))"
proof -
  obtain e c b1 where k: "subscribe_names (ns @ [''message_time'']) [] b = (e, c, b1)" by (rule prod_cases3)
  then have 1: "client_ok b1" using subscribe_names_ok[OF assms, of "ns @ [''message_time'']" "[]"] by simp
  define q where "q = Some (PDict (subscribe_params opts (remove1 ''message_time'' c)))"
  obtain r b2 w2 where s: "checked_call rpc ''subscribe'' t q (b1, w) = (r, b2, w2)" by (rule prod_cases3)
  then have 2: "client_ok b2" using same_client_ok[OF 1] checked_call_same[of b1 rpc "''subscribe''" t q w] by simp
  show ?thesis
  proof (cases e)
    case None
    then show ?thesis using k 1 2 s assms by (simp add: add_subscriptions_def Let_def q_def[symmetric])
  qed (use k 1 assms in \<open>simp add: add_subscriptions_def\<close>)
qed

subsection \<open>Unsubscribing\<close>

lemma unsub_local_shape: "same_shape b (unsub_local n b)"
  using upd_item_same[of "\<lambda>i. i\<lparr>di_subscribed := False\<rparr>" "b\<lparr>bk_subs := dpop (bk_subs b) n\<rparr>" n]
  by (simp add: unsub_local_def same_subs_def same_shape_def item_names_def fun_eq_iff)

lemma fold_unsub_shape: "same_shape b (fold unsub_local ns b)"
  by (induction ns arbitrary: b) (auto intro: same_shape_trans[OF unsub_local_shape])

lemma unsubscribe_names_shape: "same_shape b (snd (snd (unsubscribe_names ns acc b)))"
proof (induction ns acc b rule: unsubscribe_names.induct)
  case (2 n ns acc b)
  have "same_shape b (b\<lparr>bk_subs := d\<rparr>)" for d by (simp add: same_shape_def item_names_def fun_eq_iff)
  then show ?case using 2 by (auto intro: same_shape_trans split: sum.split)
qed simp

lemma unsubscribe_pass_shape: "same_shape b (fst (snd (unsubscribe_pass rpc ns t (b, w))))"
proof -
  obtain e c b1 where k: "unsubscribe_names ns [] b = (e, c, b1)" by (rule prod_cases3)
  then have 1: "same_shape b b1" using unsubscribe_names_shape[of b ns "[]"] by simp
  define b2 where "b2 = (if ''message_time'' \<in> set c
      then upd_item ''message_time'' (\<lambda>i. i\<lparr>di_subscribed := False\<rparr>) (b1\<lparr>bk_subs := dpop (bk_subs b1) (last ns)\<rparr>) else b1)"
  define c2 where "c2 = (if ''message_time'' \<in> set c then remove1 ''message_time'' c else c)"
  have "same_shape b1 b2"
    using upd_item_same[of "\<lambda>i. i\<lparr>di_subscribed := False\<rparr>" "b1\<lparr>bk_subs := dpop (bk_subs b1) (last ns)\<rparr>" "''message_time''"]
    by (simp add: b2_def same_subs_def same_shape_def item_names_def fun_eq_iff)
  then have 2: "same_shape b b2" using 1 same_shape_trans by blast
  define q where "q = Some (PDict [(''data'', PList (map PStr c2))])"
  obtain r b3 w3 where s: "checked_call rpc ''unsubscribe'' t q (b2, w) = (r, b3, w3)" by (rule prod_cases3)
  then have "same_shape b2 b3" using checked_call_same[of b2 rpc "''unsubscribe''" t q w] by (simp add: same_subs_def)
  then have 3: "same_shape b (fold unsub_local c2 b3)" using 2 fold_unsub_shape same_shape_trans by blast
  have "unsubscribe_pass rpc ns t (b, w) = (if c2 = [] then (None, b2, w) else (None, fold unsub_local c2 b3, w3))" if "e = None"
    using k s that by (cases "''message_time'' \<in> set c") (simp_all add: unsubscribe_pass_def Let_def b2_def c2_def q_def)
  then show ?thesis using 1 2 3 k by (cases e) (auto simp: unsubscribe_pass_def)
qed

lemma unsubscribe_shape: "same_shape b (fst (snd (unsubscribe fuel rpc ns t (b, w))))"
proof (induction fuel arbitrary: ns t b w)
  case (Suc n)
  obtain e b1 w1 where p: "unsubscribe_pass rpc ns t (b, w) = (e, b1, w1)" by (rule prod_cases3)
  then have 1: "same_shape b b1" using unsubscribe_pass_shape[of b rpc ns t w] by simp
  moreover have "same_shape b (b1\<lparr>bk_sub_running := r\<rparr>)" for r
    using 1 by (simp add: same_shape_def item_names_def fun_eq_iff)
  ultimately show ?case using p same_shape_trans[OF 1 Suc.IH] by (cases e) auto
qed simp

lemma unsubscribe_all_ok:
  assumes "client_ok b"
  shows "client_ok (fst (snd (unsubscribe_all fuel rpc (b, w)))) \<or> fst (unsubscribe_all fuel rpc (b, w)) \<noteq> None"
proof -
  obtain e b1 w1 where u: "(if bk_subs b \<noteq> [] then unsubscribe fuel rpc (dkeys (bk_subs b)) None (b, w) else (None, b, w)) = (e, b1, w1)"
    by (rule prod_cases3)
  have "same_shape b b1" using u unsubscribe_shape[of b fuel rpc "dkeys (bk_subs b)" None w] by (auto split: if_splits)
  then have "same_shape b (b1\<lparr>bk_callbacks := [], bk_subs := []\<rparr>)" by (simp add: same_shape_def item_names_def fun_eq_iff)
  then have "names_ok (b1\<lparr>bk_callbacks := [], bk_subs := []\<rparr>)" using assms same_names_ok by (auto simp: client_ok_def)
  then show ?thesis using u by (cases e) (auto simp: unsubscribe_all_def client_ok_def subs_ok_alt)
qed

lemma lives_ok: "lives rpc b \<Longrightarrow> client_ok b"
proof (induction rule: lives.induct)
  case (linked b l)
  show ?case by (rule same_client_ok[OF linked.IH]) (simp add: same_subs_fields)
next
  case (built b tries w)
  then show ?case by (simp add: structure_data_ok)
next
  case (aliased b kv b1)
  then show ?case by (simp add: add_alias_ok)
next
  case (subscribed b ns opts tmo w)
  then show ?case by (simp add: add_subscriptions_ok)
next
  case (drop_all b fuel w)
  have "fst (unsubscribe_all (Suc (Suc fuel)) rpc (b, w)) = None"
    using unsubscribe_all_clears[of b fuel rpc w] drop_all.IH by (auto simp: client_ok_def)
  then show ?case using unsubscribe_all_ok[OF drop_all.IH, of "Suc (Suc fuel)" rpc w] by simp
next
  case (callback b cbs)
  show ?case by (rule same_client_ok[OF callback.IH]) (simp add: add_callback_def same_subs_fields)
next
  case (notified b now_text n)
  show ?case by (rule same_client_ok[OF notified.IH]) (rule notify_same)
next
  case (written b now ps ws tmo w)
  show ?case by (rule same_client_ok[OF written.IH]) (rule set_params_same)
next
  case (was_read b now k w)
  show ?case by (rule same_client_ok[OF was_read.IH]) (rule value_getter_same)
next
  case (asked b ns v tmo w)
  show ?case by (rule same_client_ok[OF asked.IH]) (rule get_value_same)
qed (rule fresh_ok)

subsection \<open>Numerals\<close>

lemma digits_val_append:
  "ds \<noteq> [] \<Longrightarrow> \<forall>c \<in> set ds. is_digit c \<Longrightarrow>
     digits_val acc d (ds @ cs) = digits_val (foldl (\<lambda>a c. 10 * a + digit_val c) acc ds) True cs"
proof (induction ds arbitrary: acc d)
  case (Cons c ds)
  then show ?case by (cases "ds = []") auto
qed simp

lemma digit_char_ok:
  assumes "n < 10"
  shows "is_digit (digit_char n)" "digit_val (digit_char n) = int n" "\<not> is_blank (digit_char n)"
    "digit_char n \<noteq> CHR ''-''" "digit_char n \<noteq> CHR ''+''" "digit_char n \<noteq> CHR ''.''"
proof -
  have "n \<in> {0, 1, 2, 3, 4, 5, 6, 7, 8, 9}" using assms by auto
  then show "is_digit (digit_char n)" "digit_val (digit_char n) = int n" "\<not> is_blank (digit_char n)"
    "digit_char n \<noteq> CHR ''-''" "digit_char n \<noteq> CHR ''+''" "digit_char n \<noteq> CHR ''.''"
    by (elim insertE emptyE; simp; code_simp)+
qed

definition plain_digit :: "char \<Rightarrow> bool" where
  "plain_digit c \<longleftrightarrow> is_digit c \<and> \<not> is_blank c \<and> c \<noteq> CHR ''-'' \<and> c \<noteq> CHR ''+'' \<and> c \<noteq> CHR ''.''"

lemma pos_digits_ok:
  "0 \<le> i \<Longrightarrow> pos_digits i \<noteq> [] \<and> (\<forall>c \<in> set (pos_digits i). plain_digit c) \<and> foldl (\<lambda>a c. 10 * a + digit_val c) 0 (pos_digits i) = i"
proof (induction i rule: pos_digits.induct)
  case (1 i)
  have d: "plain_digit (digit_char (nat (i mod 10)))" "digit_val (digit_char (nat (i mod 10))) = i mod 10"
    using digit_char_ok[of "nat (i mod 10)"] by (auto simp: plain_digit_def nat_less_iff)
  show ?case
  proof (cases "i < 10")
    case True
    then have "i mod 10 = i" using 1(2) by simp
    then show ?thesis using True d by (simp add: pos_digits.simps[of i])
  next
    case False
    then have ih: "pos_digits (i div 10) \<noteq> []" "\<forall>c \<in> set (pos_digits (i div 10)). plain_digit c"
      "foldl (\<lambda>a c. 10 * a + digit_val c) 0 (pos_digits (i div 10)) = i div 10" using 1 by auto
    then show ?thesis using False d by (auto simp: pos_digits.simps[of i])
  qed
qed

lemma strip_plain: "s \<noteq> [] \<Longrightarrow> \<not> is_blank (hd s) \<Longrightarrow> \<not> is_blank (last s) \<Longrightarrow> strip s = s"
  by (simp add: strip_def dropWhile_eq_self_iff[THEN iffD2] hd_rev)

lemma int_roundtrip: "int_of_string (int_to_string i) = Inr i \<and> CHR ''.'' \<notin> set (int_to_string i)"
proof -
  let ?ds = "pos_digits \<bar>i\<bar>"
  have p: "?ds \<noteq> []" "\<forall>c \<in> set ?ds. plain_digit c" "foldl (\<lambda>a c. 10 * a + digit_val c) 0 ?ds = \<bar>i\<bar>"
    using pos_digits_ok[of "\<bar>i\<bar>"] by auto
  have v: "digits_val 0 False ?ds = Some \<bar>i\<bar>"
    using digits_val_append[of ?ds 0 False "[]"] p by (simp add: plain_digit_def)
  obtain c cs where ds: "?ds = c # cs" using p(1) by (cases ?ds) auto
  have c: "\<not> is_blank c" "c \<noteq> CHR ''-''" "c \<noteq> CHR ''+''" "\<not> is_blank (last ?ds)"
    using p(1,2) ds last_in_set[OF p(1)] by (auto simp: plain_digit_def)
  have m: "\<not> is_blank (CHR ''-'')" by code_simp
  show ?thesis
  proof (cases "i < 0")
    case True
    then have s: "int_to_string i = CHR ''-'' # ?ds" by (simp add: int_to_string_def)
    have "strip (CHR ''-'' # ?ds) = CHR ''-'' # ?ds" using c m p(1) by (intro strip_plain) auto
    then show ?thesis using s v p True by (auto simp: int_of_string_def Let_def plain_digit_def)
  next
    case False
    then have s: "int_to_string i = ?ds" by (simp add: int_to_string_def)
    have "strip ?ds = ?ds" using c p(1) ds by (intro strip_plain) auto
    then show ?thesis using s v p False ds c by (auto simp: int_of_string_def Let_def plain_digit_def)
  qed
qed

section \<open>Properties\<close>


text \<open>
  The client of the board cannot be constructed without a connection when the configuration has
  aliases for its inputs: the second attempt to add them, which does not ask for the connection, raises.
\<close>

theorem board_needs_connection:
  assumes "True \<notin> set (take max_looks looks)" "\<forall>(k, v) \<in> set aliases. case v of PStr t \<Rightarrow> dget (bk_attrs b) t = None | _ \<Rightarrow> False"
  shows "fst (init_aio rpc looks aliases (b, w)) = (if aliases = [] then None else Some AttributeError)"
proof (cases aliases)
  case (Cons kv kvs)
  then obtain t where "snd kv = PStr t" "dget (bk_attrs b) t = None" using assms(2) by (cases kv) (auto split: pyval.splits)
  then show ?thesis using assms(1) Cons by (simp add: init_aio_def init_client_def add_alias_def)
qed (use assms in \<open>simp add: init_aio_def init_client_def\<close>)

text \<open>
  An integer written as decimal text into the configuration file is read back as the constant of
  that value.
\<close>

theorem constant_roundtrip: "constant_of (PStr (int_to_string i)) = Inr (PInt i)"
  using int_roundtrip[of i] by (simp add: constant_of_def)

section \<open>Witnesses\<close>

definition no_settings :: settings where
  "no_settings = \<lparr>st_port = 0, st_timeout = 5, st_resume = 50, st_stale = 10, st_constants = []\<rparr>"


theorem board_needs_connection_witness:
  "fst (init_aio script_rpc [False, False] [(''up_button'', PStr ''DI_1'')] (fresh_client ''aio'' 1 [''set''] no_settings, [])) =
     Some AttributeError"
proof -
  have "True \<notin> set (take max_looks [False, False])" by code_simp
  moreover have "\<forall>(k, v) \<in> set [(''up_button'', PStr ''DI_1'')]. case v of
      PStr t \<Rightarrow> dget (bk_attrs (fresh_client ''aio'' 1 [''set''] no_settings)) t = None | _ \<Rightarrow> False" by code_simp
  ultimately show ?thesis by (subst board_needs_connection) simp_all
qed

end
