(* ===== verification/Lcd.thy ===== *)
theory Lcd
  imports Effects
begin

text \<open>
  The displays of the local panel, src/python/avp_LCD.py: the text of every line is remembered in a
  dictionary and sent to the device. The module imports \<open>thread\<close>, a name of Python 2.
\<close>

section \<open>Displays\<close>

datatype display = Pertelian | ColdTears

fun lcd_lines :: "display \<Rightarrow> int" where
  "lcd_lines Pertelian = 4"
| "lcd_lines ColdTears = 6"

definition lcd_columns :: nat where
  "lcd_columns = 20"

text \<open>
  \<open>dp_dict\<close> is what the program remembers, \<open>dp_shown\<close> the text the device was last sent for a line
  and \<open>dp_scrolls\<close> the threads started to scroll a text.
\<close>

record lcd =
  dp_kind :: display
  dp_dict :: "(int \<times> string) list"
  dp_shown :: "(int \<times> string) list"
  dp_scrolls :: "(int \<times> string) list"

definition valid_lines :: "display \<Rightarrow> int list" where
  "valid_lines k = [1 .. lcd_lines k]"

text \<open>The constructor of ColdTears clears the device; a Pertelian may show anything, given as \<open>before\<close>.\<close>

definition new_lcd :: "display \<Rightarrow> (int \<times> string) list \<Rightarrow> lcd" where
  "new_lcd k before =
     \<lparr>dp_kind = k, dp_dict = map (\<lambda>n. (n, [])) (valid_lines k),
      dp_shown = (case k of Pertelian \<Rightarrow> before | ColdTears \<Rightarrow> map (\<lambda>n. (n, [])) (valid_lines k)), dp_scrolls = []\<rparr>"

definition put_line :: "int \<Rightarrow> string \<Rightarrow> lcd \<Rightarrow> lcd" where
  "put_line n s d = d\<lparr>dp_dict := dset (dp_dict d) n s, dp_shown := dset (dp_shown d) n s\<rparr>"

text \<open>ColdTears clears a line before it is written; a text wider than the display is scrolled by a thread.\<close>

definition write_line :: "int \<Rightarrow> string \<Rightarrow> lcd \<Rightarrow> lcd" where
  "write_line n s d =
     (if n \<notin> set (valid_lines (dp_kind d)) then d
      else (case dp_kind d of
              Pertelian \<Rightarrow> put_line n s d
            | ColdTears \<Rightarrow>
                (let d1 = put_line n s (put_line n [] d)
                 in if length s > lcd_columns then d1\<lparr>dp_scrolls := dp_scrolls d1 @ [(n, s)]\<rparr> else d1)))"

text \<open>One frame of a scrolled text.\<close>

definition scroll_text :: "nat \<Rightarrow> string \<Rightarrow> string" where
  "scroll_text n s = drop n s @ take n s"

definition clear_line :: "int \<Rightarrow> lcd \<Rightarrow> lcd" where
  "clear_line n d =
     (case dp_kind d of
        Pertelian \<Rightarrow> if n \<in> set (valid_lines (dp_kind d)) then write_line n '' '' d else d
      | ColdTears \<Rightarrow> put_line n [] d)"

text \<open>
  \<open>clear_screen\<close>: a list of lines, or all of them (None). ColdTears clears all of them either way.
\<close>

definition clear_screen :: "int list option \<Rightarrow> lcd \<Rightarrow> lcd" where
  "clear_screen ns d =
     (case dp_kind d of
        Pertelian \<Rightarrow> fold clear_line (case ns of None \<Rightarrow> valid_lines Pertelian | Some l \<Rightarrow> l) d
      | ColdTears \<Rightarrow> fold (\<lambda>n. put_line n []) (dkeys (dp_dict d)) d)"

text \<open>
  Shifting: every line of a list is written one line higher or lower. After each the message
  names the line below, which the last line does not have when shifting up.
\<close>

fun shift_up :: "int list \<Rightarrow> lcd \<Rightarrow> pyexn option \<times> lcd" where
  "shift_up [] d = (None, d)"
| "shift_up (n # ns) d =
     (case dget (dp_dict d) n of
        None \<Rightarrow> (Some (KeyError ''line''), d)
      | Some s \<Rightarrow>
          (let d1 = write_line (n - 1) s d
           in if dget (dp_dict d1) (n + 1) = None then (Some (KeyError ''line''), d1) else shift_up ns d1))"

fun shift_down :: "int list \<Rightarrow> lcd \<Rightarrow> pyexn option \<times> lcd" where
  "shift_down [] d = (None, d)"
| "shift_down (n # ns) d =
     (case dget (dp_dict d) n of
        None \<Rightarrow> (Some (KeyError ''line''), d)
      | Some s \<Rightarrow>
          (let d1 = write_line (n + 1) s d
           in if dget (dp_dict d1) (n + 1) = None then (Some (KeyError ''line''), d1) else shift_down ns d1))"

definition insert_line :: "int \<Rightarrow> string \<Rightarrow> string \<Rightarrow> lcd \<Rightarrow> pyexn option \<times> lcd" where
  "insert_line n s direction d =
     (if n \<notin> set (valid_lines (dp_kind d)) then (None, d)
      else if direction = ''up'' then
        (case shift_up [2 .. n] d of (Some e, d1) \<Rightarrow> (Some e, d1) | (None, d1) \<Rightarrow> (None, write_line n s d1))
      else if direction = ''down'' then
        (case shift_down (rev [n .. lcd_lines (dp_kind d) - 1]) d of (Some e, d1) \<Rightarrow> (Some e, d1) | (None, d1) \<Rightarrow> (None, write_line n s d1))
      else (None, d))"

section \<open>Lemmas\<close>

text \<open>The text of a line, and displays on which every line is remembered and shown as it is remembered.\<close>

definition line_text :: "lcd \<Rightarrow> int \<Rightarrow> string option" where
  "line_text d n = dget (dp_dict d) n"

definition lcd_ok :: "lcd \<Rightarrow> bool" where
  "lcd_ok d \<longleftrightarrow> (\<forall>n. line_text d n \<noteq> None \<longleftrightarrow> n \<in> set (valid_lines (dp_kind d)))"

definition truthful :: "lcd \<Rightarrow> bool" where
  "truthful d \<longleftrightarrow> (\<forall>n \<in> set (valid_lines (dp_kind d)). dget (dp_shown d) n = line_text d n)"

lemma valid_lines_iff [simp]: "n \<in> set (valid_lines k) \<longleftrightarrow> 1 \<le> n \<and> n \<le> lcd_lines k"
  by (simp add: valid_lines_def)

lemma put_line_simps [simp]:
  "dp_kind (put_line n s d) = dp_kind d"
  "line_text (put_line n s d) m = (if m = n then Some s else line_text d m)"
  "dget (dp_shown (put_line n s d)) m = (if m = n then Some s else dget (dp_shown d) m)"
  by (simp_all add: put_line_def line_text_def dict_simps)

lemma line_text_scrolls [simp]: "line_text (d\<lparr>dp_scrolls := x\<rparr>) n = line_text d n"
  by (simp add: line_text_def)

lemma write_line_simps [simp]:
  "dp_kind (write_line n s d) = dp_kind d"
  "line_text (write_line n s d) m = (if m = n \<and> 1 \<le> n \<and> n \<le> lcd_lines (dp_kind d) then Some s else line_text d m)"
  "dget (dp_shown (write_line n s d)) m = (if m = n \<and> 1 \<le> n \<and> n \<le> lcd_lines (dp_kind d) then Some s else dget (dp_shown d) m)"
  by (auto simp: write_line_def Let_def split: display.splits)

lemma write_line_ok: "lcd_ok d \<Longrightarrow> lcd_ok (write_line n s d)"
  by (simp add: lcd_ok_def)

lemma write_line_truthful: "truthful d \<Longrightarrow> truthful (write_line n s d)"
  by (auto simp: truthful_def)

lemma lcd_ok_outside: "lcd_ok d \<Longrightarrow> \<not> (1 \<le> n \<and> n \<le> lcd_lines (dp_kind d)) \<Longrightarrow> line_text d n = None"
  unfolding lcd_ok_def valid_lines_iff by (metis)

text \<open>Clearing lines that exist.\<close>

lemma clear_line_kept:
  assumes "lcd_ok d" "truthful d" "1 \<le> n" "n \<le> lcd_lines (dp_kind d)"
  shows "lcd_ok (clear_line n d) \<and> truthful (clear_line n d) \<and> dp_kind (clear_line n d) = dp_kind d"
  using assms by (auto simp: clear_line_def lcd_ok_def truthful_def split: display.split)

lemma clear_lines_kept:
  "lcd_ok d \<Longrightarrow> truthful d \<Longrightarrow> set ns \<subseteq> set (valid_lines (dp_kind d)) \<Longrightarrow>
     lcd_ok (fold clear_line ns d) \<and> truthful (fold clear_line ns d) \<and> dp_kind (fold clear_line ns d) = dp_kind d"
proof (induction ns arbitrary: d)
  case (Cons n ns)
  then show ?case using clear_line_kept[of d n] by auto
qed simp

lemma clear_screen_kept:
  assumes "lcd_ok d" "truthful d" "ns \<in> {None, Some [1, 2, 3, 4]}"
  shows "lcd_ok (clear_screen ns d) \<and> truthful (clear_screen ns d) \<and> dp_kind (clear_screen ns d) = dp_kind d"
proof (cases "dp_kind d")
  case Pertelian
  then show ?thesis using assms clear_lines_kept[of d "valid_lines Pertelian"] clear_lines_kept[of d "[1, 2, 3, 4]"]
    by (auto simp: clear_screen_def)
next
  case ColdTears
  then have "fold (\<lambda>n. put_line n []) ns e = fold clear_line ns e" if "dp_kind e = ColdTears" for ns e
    using that by (induction ns arbitrary: e) (auto simp: clear_line_def)
  moreover have "set (dkeys (dp_dict d)) \<subseteq> set (valid_lines (dp_kind d))"
    using assms(1) unfolding dkeys_set by (auto simp: lcd_ok_def line_text_def)
  ultimately show ?thesis using assms ColdTears clear_lines_kept[of d "dkeys (dp_dict d)"] by (simp add: clear_screen_def)
qed

lemma new_lcd_ok: "lcd_ok (new_lcd k before)" "dp_kind (new_lcd k before) = k"
  by (auto simp: lcd_ok_def line_text_def new_lcd_def valid_lines_def dget_def map_of_eq_None_iff image_image)

text \<open>Clearing the whole screen makes what is remembered true.\<close>

lemma clear_all_shown:
  "set ns \<subseteq> set (valid_lines (dp_kind d)) \<Longrightarrow>
     (\<forall>n \<in> set (valid_lines (dp_kind d)). n \<notin> set ns \<longrightarrow> dget (dp_shown d) n = line_text d n) \<Longrightarrow> truthful (fold clear_line ns d)"
proof (induction ns arbitrary: d)
  case (Cons n ns)
  then show ?case by (auto simp: clear_line_def split: display.split)
qed (simp add: truthful_def)

lemma clear_lines_ok: "lcd_ok d \<Longrightarrow> set ns \<subseteq> set (valid_lines (dp_kind d)) \<Longrightarrow> lcd_ok (fold clear_line ns d)"
proof (induction ns arbitrary: d)
  case (Cons n ns)
  have "lcd_ok (clear_line n d)" "dp_kind (clear_line n d) = dp_kind d"
    using Cons.prems by (auto simp: clear_line_def lcd_ok_def split: display.split)
  then show ?case using Cons by auto
qed simp

lemma clear_new_lcd:
  "lcd_ok (clear_screen None (new_lcd k before)) \<and> truthful (clear_screen None (new_lcd k before)) \<and>
     dp_kind (clear_screen None (new_lcd k before)) = k"
proof (cases k)
  case Pertelian
  then show ?thesis
    using clear_all_shown[of "valid_lines k" "new_lcd k before"] clear_lines_ok[of "new_lcd k before" "valid_lines k"] new_lcd_ok[of k before]
    by (simp add: clear_screen_def) (simp add: valid_lines_def upto.simps clear_line_def)
next
  case ColdTears
  then have "truthful (new_lcd k before)" by (simp add: truthful_def new_lcd_def line_text_def)
  then show ?thesis using clear_screen_kept[of "new_lcd k before" None] new_lcd_ok[of k before] by simp
qed

lemma shift_up_run:
  assumes "lcd_ok d" "2 \<le> a" "b < lcd_lines (dp_kind d)"
  shows "\<exists>d1. shift_up [a .. b] d = (None, d1) \<and> lcd_ok d1 \<and> dp_kind d1 = dp_kind d \<and>
    (\<forall>k. line_text d1 k = (if a - 1 \<le> k \<and> k < b then line_text d (k + 1) else line_text d k))"
  using assms
proof (induction "nat (b + 1 - a)" arbitrary: a d)
  case 0
  then show ?case by auto
next
  case (Suc n)
  then have r: "[a .. b] = a # [a + 1 .. b]" by (simp add: upto_rec1)
  obtain s where s: "dget (dp_dict d) a = Some s"
    using Suc.prems Suc.hyps(2) by (fastforce simp: lcd_ok_def line_text_def)
  let ?d1 = "write_line (a - 1) s d"
  have n: "n = nat (b - a)" using Suc.hyps(2) by arith
  have ok: "lcd_ok ?d1" using Suc.prems write_line_ok by blast
  then have m: "dget (dp_dict ?d1) (a + 1) \<noteq> None"
    using Suc.prems Suc.hyps(2) by (auto simp: lcd_ok_def line_text_def)
  obtain d2 where d2: "shift_up [a + 1 .. b] ?d1 = (None, d2)" "lcd_ok d2" "dp_kind d2 = dp_kind ?d1"
    "\<forall>k. line_text d2 k = (if a \<le> k \<and> k < b then line_text ?d1 (k + 1) else line_text ?d1 k)"
    using Suc.hyps(1)[of "a + 1" ?d1] n Suc.prems ok by auto
  have t: "line_text d a = Some s" using s by (simp add: line_text_def)
  have "shift_up [a .. b] d = (None, d2)" using s m d2(1) by (simp add: r Let_def)
  moreover have "line_text d2 k = (if a - 1 \<le> k \<and> k < b then line_text d (k + 1) else line_text d k)" for k
    using d2(4) t Suc.prems Suc.hyps(2) by auto
  ultimately show ?case using d2(2,3) by simp
qed

lemma shift_up_last:
  assumes "lcd_ok d"
  shows "fst (shift_up [2 .. lcd_lines (dp_kind d)] d) = Some (KeyError ''line'')"
proof -
  let ?n = "lcd_lines (dp_kind d)"
  have n: "2 \<le> ?n - 1" by (cases "dp_kind d") auto
  obtain d1 where d1: "shift_up [2 .. ?n - 1] d = (None, d1)" "lcd_ok d1" "dp_kind d1 = dp_kind d"
    using shift_up_run[OF assms, of 2 "?n - 1"] by auto
  have app: "shift_up xs d = (None, e) \<Longrightarrow> shift_up (xs @ ys) d = shift_up ys e" for xs ys d e
    by (induction xs d rule: shift_up.induct) (auto simp: Let_def split: option.splits if_splits)
  have "[2 .. ?n] = [2 .. ?n - 1] @ [?n]" using n by (simp add: upto_rec2)
  then have s: "shift_up [2 .. ?n] d = shift_up [?n] d1" using app[OF d1(1)] by simp
  obtain t where t: "dget (dp_dict d1) ?n = Some t" using d1 n by (fastforce simp: lcd_ok_def line_text_def)
  have "lcd_ok (write_line (?n - 1) t d1)" using d1(2) by (rule write_line_ok)
  then have "line_text (write_line (?n - 1) t d1) (?n + 1) = None" by (rule lcd_ok_outside) (simp add: d1(3))
  then have "dget (dp_dict (write_line (?n - 1) t d1)) (?n + 1) = None" by (simp add: line_text_def)
  then show ?thesis using s t by (simp add: Let_def)
qed

lemma shift_down_run:
  assumes "lcd_ok d" "1 \<le> a" "b < lcd_lines (dp_kind d)"
  shows "\<exists>d1. shift_down (rev [a .. b]) d = (None, d1) \<and> lcd_ok d1 \<and> dp_kind d1 = dp_kind d \<and>
    (\<forall>k. line_text d1 k = (if a < k \<and> k \<le> b + 1 then line_text d (k - 1) else line_text d k))"
  using assms
proof (induction "nat (b + 1 - a)" arbitrary: b d)
  case 0
  then show ?case by auto
next
  case (Suc n)
  then have r: "rev [a .. b] = b # rev [a .. b - 1]" by (simp add: upto_rec2)
  obtain s where s: "dget (dp_dict d) b = Some s"
    using Suc.prems Suc.hyps(2) by (fastforce simp: lcd_ok_def line_text_def)
  let ?d1 = "write_line (b + 1) s d"
  have n: "n = nat (b - a)" using Suc.hyps(2) by arith
  have ok: "lcd_ok ?d1" using Suc.prems write_line_ok by blast
  then have m: "dget (dp_dict ?d1) (b + 1) \<noteq> None"
    using Suc.prems Suc.hyps(2) by (auto simp: lcd_ok_def line_text_def)
  obtain d2 where d2: "shift_down (rev [a .. b - 1]) ?d1 = (None, d2)" "lcd_ok d2" "dp_kind d2 = dp_kind ?d1"
    "\<forall>k. line_text d2 k = (if a < k \<and> k \<le> b then line_text ?d1 (k - 1) else line_text ?d1 k)"
    using Suc.hyps(1)[of "b - 1" ?d1] n Suc.prems ok by auto
  have t: "line_text d b = Some s" using s by (simp add: line_text_def)
  have "shift_down (rev [a .. b]) d = (None, d2)" using s m d2(1) by (simp add: r Let_def)
  moreover have "line_text d2 k = (if a < k \<and> k \<le> b + 1 then line_text d (k - 1) else line_text d k)" for k
    using d2(4) t Suc.prems Suc.hyps(2) by auto
  ultimately show ?case using d2(2,3) by simp
qed

section \<open>Properties\<close>

text \<open>
  Inserting a line shifts the lines below it down by one, the last one being lost, or those from the
  second to the place of insertion up by one, the first one being lost. Only inserting at the last line
  while shifting up fails: the message about the line below it raises.
\<close>

theorem insert_shifts:
  assumes "lcd_ok d" "1 \<le> n" "n \<le> lcd_lines (dp_kind d)"
  shows "(\<exists>d1. insert_line n s ''down'' d = (None, d1) \<and> (\<forall>k. line_text d1 k =
      (if k = n then Some s else if n < k \<and> k \<le> lcd_lines (dp_kind d) then line_text d (k - 1) else line_text d k))) \<and>
    (if n < lcd_lines (dp_kind d)
     then \<exists>d1. insert_line n s ''up'' d = (None, d1) \<and> (\<forall>k. line_text d1 k =
       (if k = n then Some s else if 1 \<le> k \<and> k < n then line_text d (k + 1) else line_text d k))
     else fst (insert_line n s ''up'' d) = Some (KeyError ''line''))"
proof
  obtain d1 where "shift_down (rev [n .. lcd_lines (dp_kind d) - 1]) d = (None, d1)" "dp_kind d1 = dp_kind d"
    "\<forall>k. line_text d1 k = (if n < k \<and> k \<le> lcd_lines (dp_kind d) then line_text d (k - 1) else line_text d k)"
    using shift_down_run[OF assms(1,2), of "lcd_lines (dp_kind d) - 1"] by auto
  then show "\<exists>d1. insert_line n s ''down'' d = (None, d1) \<and> (\<forall>k. line_text d1 k =
      (if k = n then Some s else if n < k \<and> k \<le> lcd_lines (dp_kind d) then line_text d (k - 1) else line_text d k))"
    using assms by (auto simp: insert_line_def)
  show "if n < lcd_lines (dp_kind d)
     then \<exists>d1. insert_line n s ''up'' d = (None, d1) \<and> (\<forall>k. line_text d1 k =
       (if k = n then Some s else if 1 \<le> k \<and> k < n then line_text d (k + 1) else line_text d k))
     else fst (insert_line n s ''up'' d) = Some (KeyError ''line'')"
  proof (cases "n < lcd_lines (dp_kind d)")
    case True
    then obtain d1 where "shift_up [2 .. n] d = (None, d1)" "dp_kind d1 = dp_kind d"
      "\<forall>k. line_text d1 k = (if 1 \<le> k \<and> k < n then line_text d (k + 1) else line_text d k)"
      using shift_up_run[OF assms(1), of 2 n] by auto
    then show ?thesis using assms True by (auto simp: insert_line_def)
  next
    case False
    then have "n = lcd_lines (dp_kind d)" using assms by simp
    then show ?thesis using assms shift_up_last[OF assms(1)] by (auto simp: insert_line_def split: prod.split option.split)
  qed
qed

section \<open>Witnesses\<close>

theorem insert_shifts_witness:
  "snd (insert_line 2 ''b'' ''down'' (new_lcd Pertelian [])) \<noteq> new_lcd Pertelian [] \<and>
   fst (insert_line 4 ''d'' ''up'' (new_lcd Pertelian [])) = Some (KeyError ''line'')"
proof -
  have ok: "lcd_ok (new_lcd Pertelian [])"
    by (auto simp: lcd_ok_def line_text_def new_lcd_def valid_lines_def dget_def map_of_eq_None_iff upto.simps)
  have "\<exists>d1. insert_line 2 ''b'' ''down'' (new_lcd Pertelian []) = (None, d1) \<and> line_text d1 2 = Some ''b''"
    using insert_shifts[OF ok, of 2 "''b''"] by (fastforce simp: new_lcd_def)
  moreover have "line_text (new_lcd Pertelian []) 2 \<noteq> Some ''b''"
    by (simp add: line_text_def new_lcd_def valid_lines_def upto.simps)
  ultimately show ?thesis using insert_shifts[OF ok, of 4 "''d''"] by (auto simp: new_lcd_def)
qed

end
