(* ===== verification/Panel.thy ===== *)
theory Panel
  imports Launcher Lcd
begin

text \<open>
  The panel with two buttons and a display, src/python/Local_Interface.py. Every change of a button runs
  in a thread of its own; a thread is divided where it sleeps or waits, the pending threads are part of the
  state and may go on in any order. Calls of the clients are recorded in the order in which
  they are made. As it stands the file is only accepted by Python 2 (\<open>print output\<close>, and
  \<open>import thread\<close> in avp_LCD.py); where the languages differ the model follows Python 2.
\<close>

section \<open>State\<close>

datatype button = Up_button | Down_button

fun other :: "button \<Rightarrow> button" where
  "other Up_button = Down_button"
| "other Down_button = Up_button"

text \<open>
  A button: its value, which is 1 when it is not pressed, the times of the last press and release, None
  where the attribute does not exist, and the value the detector of changes has seen last.
\<close>

record button_state =
  bs_value :: int
  bs_press :: "instant option"
  bs_release :: "instant option"
  bs_seen :: int

datatype shown_item = Sonde_data | Wind_data | Depth_data | Power_status

text \<open>
  Pending threads: a press that waits for a second button, and for being long; a long press that has
  been found but has not yet given its command; a move being watched; the loops of the items of the menu.
\<close>

datatype task =
    After_double button instant
  | After_long button instant
  | Before_move button
  | Watching button
  | In_swap
  | Warned
  | Before_show shown_item
  | Showing shown_item
  | Countdown nat

datatype panel_call =
    Take string
  | Give string
  | Move_motor button
  | Stop_motor
  | Suspend_sonde
  | Resume_sonde
  | Start_client string
  | Start_sampling
  | Subscribe_sonde
  | Unsubscribe_sonde
  | Shut_down_system

text \<open>
  \<open>pn_table\<close>, \<open>pn_cast\<close> and \<open>pn_ifconfig\<close> are what the database and the system command answer;
  \<open>pn_clients\<close> are the clients the context can supply. \<open>pn_motor\<close> is the direction of the motor.
\<close>

record panel =
  pn_up :: button_state
  pn_down :: button_state
  pn_double :: bool
  pn_menu :: bool
  pn_first :: int
  pn_selected :: int
  pn_welcome :: bool
  pn_lcd :: lcd
  pn_host :: string
  pn_swap_time :: instant
  pn_swapping :: bool
  pn_swap_length :: timespan
  pn_wifi :: "string option"
  pn_wifi_off :: instant
  pn_wifi_length :: timespan
  pn_sched :: sched_status
  pn_attrs :: "string list"
  pn_last_cast :: "string option"
  pn_table :: string
  pn_cast :: string
  pn_ifconfig :: "string list option"
  pn_clients :: "string list"
  pn_motor :: "button option"
  pn_clock :: instant
  pn_tasks :: "(instant \<times> task) list"
  pn_calls :: "panel_call list"
  pn_raised :: "pyexn list"

definition double_delay :: timespan where
  "double_delay = 100000"

definition long_delay :: timespan where
  "long_delay = seconds 1"

definition button_of :: "button \<Rightarrow> panel \<Rightarrow> button_state" where
  "button_of b p = (case b of Up_button \<Rightarrow> pn_up p | Down_button \<Rightarrow> pn_down p)"

definition set_button :: "button \<Rightarrow> button_state \<Rightarrow> panel \<Rightarrow> panel" where
  "set_button b s p = (case b of Up_button \<Rightarrow> p\<lparr>pn_up := s\<rparr> | Down_button \<Rightarrow> p\<lparr>pn_down := s\<rparr>)"

definition call_out :: "panel_call list \<Rightarrow> (panel, unit) act" where
  "call_out cs = modify (\<lambda>p. p\<lparr>pn_calls := pn_calls p @ cs\<rparr>)"

text \<open>The thread of an operation goes on at the given instant with a task.\<close>

definition sleep_until :: "instant \<Rightarrow> task \<Rightarrow> (panel, unit) act" where
  "sleep_until t k = modify (\<lambda>p. p\<lparr>pn_tasks := pn_tasks p @ [(t, k)]\<rparr>)"

definition on_lcd :: "(lcd \<Rightarrow> lcd) \<Rightarrow> (panel, unit) act" where
  "on_lcd f = modify (\<lambda>p. p\<lparr>pn_lcd := f (pn_lcd p)\<rparr>)"

definition write_text :: "int \<Rightarrow> string \<Rightarrow> (panel, unit) act" where
  "write_text n s = on_lcd (write_line n s)"

section \<open>Schedule and wireless network\<close>

text \<open>Reading \<open>schedule_status.state\<close> looks into the table; setting it writes the table.\<close>

definition sched_state :: "instant \<Rightarrow> (panel, string) act" where
  "sched_state now p =
     (let st = get_state True (Inr (pn_table p, Some now)) (Inr (pn_cast p)) now (pn_sched p)
      in (Inr (st_state st), p\<lparr>pn_sched := st\<rparr>))"

definition put_state :: "string \<Rightarrow> instant \<Rightarrow> (panel, unit) act" where
  "put_state v now = modify (\<lambda>p.
     (case set_state v now (pn_sched p) of
        (st, None) \<Rightarrow> p\<lparr>pn_sched := st\<rparr> | (st, Some (x, t)) \<Rightarrow> p\<lparr>pn_sched := st, pn_table := x\<rparr>))"

text \<open>\<open>WiFi.get_status\<close>: the words of the output of ifconfig, None if the command cannot be run.\<close>

definition wifi_status :: "string list option \<Rightarrow> string \<Rightarrow> string" where
  "wifi_status out old =
     (case out of None \<Rightarrow> old
      | Some ws \<Rightarrow> if ''UP'' \<in> set ws then ''on'' else if ws \<noteq> [] then ''off'' else ''disabled'')"

text \<open>
  \<open>WiFi.start\<close> and \<open>stop\<close>: the return code of the command, which is 0 if it succeeded, is taken as true for
  success.
\<close>

definition wifi_switch :: "int \<Rightarrow> string list option \<Rightarrow> string \<Rightarrow> int \<times> string" where
  "wifi_switch code out old = (code, if code \<noteq> 0 then wifi_status out old else old)"

section \<open>Menu\<close>

definition menu_items :: "string list" where
  "menu_items = [''Sonde swap'', ''Toggle schedule'', ''Toggle WiFi'', ''Show sonde data'', ''Show wind data'',
     ''Show depth data'', ''Show power status'', ''Shutdown system'', ''Exit interface'']"

text \<open>An entry of a list of nine: a negative index counts from the end.\<close>

definition menu_item :: "int \<Rightarrow> string res" where
  "menu_item i =
     (if 0 \<le> i \<and> i < 9 then Inr (menu_items ! nat i)
      else if - 9 \<le> i \<and> i < 0 then Inr (menu_items ! nat (i + 9)) else Inl IndexError)"

text \<open>\<open>format\<close> with \<open>{:^20}\<close>.\<close>

definition centred :: "nat \<Rightarrow> string \<Rightarrow> string" where
  "centred n s = (let k = n - length s in replicate (k div 2) CHR '' '' @ s @ replicate (k - k div 2) CHR '' '')"

definition menu_text :: "display \<Rightarrow> int \<Rightarrow> int \<Rightarrow> string \<Rightarrow> string" where
  "menu_text kind selected i item =
     (if i = selected then int_to_string i @ '' '' @ item
      else (case kind of ColdTears \<Rightarrow> ''||'' | Pertelian \<Rightarrow> ''  '') @ item)"

text \<open>A line is only written if the display does not show the text already.\<close>

fun print_lines :: "int \<Rightarrow> int list \<Rightarrow> (panel, unit) act" where
  "print_lines first [] = ret ()"
| "print_lines first (i # is) =
     bnd (of_res (menu_item i)) (\<lambda>item.
     bnd (modify (\<lambda>p.
       (let s = menu_text (dp_kind (pn_lcd p)) (pn_selected p) i item; n = i - first + 1
        in if (case line_text (pn_lcd p) n of None \<Rightarrow> ''BLANK'' | Some t \<Rightarrow> t) \<noteq> s
           then p\<lparr>pn_lcd := write_line n s (pn_lcd p)\<rparr> else p))) (\<lambda>_.
     print_lines first is))"

definition status_line :: "string \<Rightarrow> string \<Rightarrow> string" where
  "status_line sched wifi = ''Sched:'' @ ljust 3 sched @ '', WiFi:'' @ ljust 3 wifi"

definition print_menu :: "instant \<Rightarrow> (panel, unit) act" where
  "print_menu now =
     bnd (peek (\<lambda>p. (pn_first p, lcd_lines (dp_kind (pn_lcd p))))) (\<lambda>(first, n).
     bnd (print_lines first [first .. first + n - 2]) (\<lambda>_.
     bnd (sched_state now) (\<lambda>s.
     bnd (peek pn_wifi) (\<lambda>w.
       (case w of None \<Rightarrow> fail AttributeError | Some x \<Rightarrow> write_text n (status_line s x))))))"

definition clear_menu :: "(panel, unit) act" where
  "clear_menu = on_lcd (clear_screen None)"

definition window_up :: "panel \<Rightarrow> panel" where
  "window_up p =
     (let s = pn_selected p - 1 in p\<lparr>pn_selected := s, pn_first := (if s < pn_first p then s else pn_first p)\<rparr>)"

definition window_down :: "panel \<Rightarrow> panel" where
  "window_down p =
     (let s = pn_selected p + 1
      in p\<lparr>pn_selected := s,
           pn_first := (if s > pn_first p + lcd_lines (dp_kind (pn_lcd p)) - 2 then pn_first p + 1 else pn_first p)\<rparr>)"

definition menu_up :: "instant \<Rightarrow> (panel, unit) act" where
  "menu_up now p = (if pn_selected p > 0 then print_menu now (window_up p) else ret () p)"

definition menu_down :: "instant \<Rightarrow> (panel, unit) act" where
  "menu_down now p = (if pn_selected p < int (length menu_items) - 1 then print_menu now (window_down p) else ret () p)"

section \<open>Items of the menu\<close>

definition set_menu :: "bool \<Rightarrow> (panel, unit) act" where
  "set_menu x = modify (\<lambda>p. p\<lparr>pn_menu := x\<rparr>)"

text \<open>A client that is no attribute yet is started by the context.\<close>

definition need_client :: "string \<Rightarrow> (panel, unit) act" where
  "need_client n p =
     (if n \<in> set (pn_attrs p) then ret () p
      else if n \<in> set (pn_clients p)
           then (Inr (), p\<lparr>pn_attrs := pn_attrs p @ [n], pn_calls := pn_calls p @ [Start_client n]\<rparr>)
           else fail AttributeError p)"

definition minutes_left :: "instant \<Rightarrow> panel \<Rightarrow> int" where
  "minutes_left now p = (pn_swap_time p + pn_swap_length p - now) div 1000000 mod 86400 div 60"

text \<open>The loop of the sonde swap: a pass, or the end and the menu.\<close>

definition swap_pass :: "instant \<Rightarrow> (panel, unit) act" where
  "swap_pass now =
     bnd (peek (\<lambda>p. (pn_menu p, minutes_left now p))) (\<lambda>(on, m).
     if \<not> on
     then bnd (write_text 2 (''Time left: '' @ rjust 3 (int_to_string m) @ '' min '')) (\<lambda>_. sleep_until (now + seconds 1) In_swap)
     else bnd (modify (\<lambda>p. p\<lparr>pn_swapping := False\<rparr>)) (\<lambda>_.
          bnd (sched_state now) (\<lambda>s.
          bnd (only_if (s \<noteq> ''off'') (put_state ''on'' now) ()) (\<lambda>_.
          bnd (call_out [Take ''sonde'', Resume_sonde, Give ''sonde'']) (\<lambda>_.
          print_menu now)))))"

definition sonde_swap :: "instant \<Rightarrow> (panel, unit) act" where
  "sonde_swap now =
     bnd (need_client ''sonde'') (\<lambda>_.
     bnd (modify (\<lambda>p. p\<lparr>pn_swap_time := now, pn_swapping := True\<rparr>)) (\<lambda>_.
     bnd (sched_state now) (\<lambda>s.
     bnd (only_if (s \<noteq> ''off'') (put_state ''paused'' now) ()) (\<lambda>_.
     bnd (call_out [Take ''sonde'', Suspend_sonde, Give ''sonde'']) (\<lambda>_.
     bnd clear_menu (\<lambda>_.
     bnd (write_text 1 ''Sonde Swap'') (\<lambda>_.
     bnd (write_text 3 ''Press both when done'') (\<lambda>_.
     bnd (set_menu False) (\<lambda>_.
     swap_pass now)))))))))"

definition write_texts :: "string list \<Rightarrow> (panel, unit) act" where
  "write_texts ss = on_lcd (\<lambda>d. fold (\<lambda>(n, s). write_line (int n) s) (enumerate 1 ss) d)"

text \<open>A warning stays for five seconds; the menu is printed by the item and again by the selection.\<close>

definition toggle_schedule :: "instant \<Rightarrow> (panel, unit) act" where
  "toggle_schedule now =
     bnd (sched_state now) (\<lambda>s.
     if s = ''on'' then bnd (put_state ''paused'' now) (\<lambda>_. bnd (print_menu now) (\<lambda>_. print_menu now))
     else if s = ''paused'' then bnd (put_state ''on'' now) (\<lambda>_. bnd (print_menu now) (\<lambda>_. print_menu now))
     else bnd clear_menu (\<lambda>_.
          bnd (write_texts (if s = ''off'' then [''WARNING: Schedule is'', ''off and may not be'', ''resumed from here.'']
                            else [''WARNING: Unknown'', ''schedule state'', s])) (\<lambda>_.
          sleep_until (now + seconds 5) Warned)))"

definition toggle_wifi :: "instant \<Rightarrow> (panel, unit) act" where
  "toggle_wifi now =
     bnd (peek pn_wifi) (\<lambda>w.
     case w of None \<Rightarrow> fail AttributeError
     | Some x \<Rightarrow>
         bnd (modify (\<lambda>p.
           (let s = wifi_status (pn_ifconfig p) x
            in p\<lparr>pn_wifi := Some s,
                 pn_wifi_off := (if s = ''off'' then now + pn_wifi_length p else if s = ''on'' then now else pn_wifi_off p)\<rparr>))) (\<lambda>_.
         bnd (print_menu now) (\<lambda>_. print_menu now)))"

text \<open>
  The items that show data: preparation, and the loop. The texts of a pass are given, or the exception
  that reading or formatting the values raises.
\<close>

definition show_pass :: "shown_item \<Rightarrow> instant \<Rightarrow> string list res \<Rightarrow> (panel, unit) act" where
  "show_pass k now texts =
     bnd (peek pn_menu) (\<lambda>on.
     if \<not> on
     then bnd (of_res texts) (\<lambda>ss. bnd (write_texts ss) (\<lambda>_. sleep_until (now + 500000) (Showing k)))
     else bnd (only_if (k = Sonde_data) (call_out [Unsubscribe_sonde]) ()) (\<lambda>_.
          bnd (on_lcd (clear_screen (Some [1, 2, 3, 4]))) (\<lambda>_.
          print_menu now)))"

definition enter_show :: "shown_item \<Rightarrow> instant \<Rightarrow> string list res \<Rightarrow> (panel, unit) act" where
  "enter_show k now texts =
     bnd (set_menu False) (\<lambda>_.
     bnd (only_if (k = Sonde_data) (call_out [Subscribe_sonde]) ()) (\<lambda>_.
     show_pass k now texts))"

definition show_data :: "shown_item \<Rightarrow> instant \<Rightarrow> string list res \<Rightarrow> (panel, unit) act" where
  "show_data k now texts =
     bnd clear_menu (\<lambda>_.
     case k of
       Sonde_data \<Rightarrow>
         bnd (write_text 2 ''Getting sonde data'') (\<lambda>_.
         bnd (need_client ''sonde'') (\<lambda>_.
         bnd (call_out [Take ''sonde'', Start_sampling, Give ''sonde'']) (\<lambda>_.
         sleep_until (now + seconds 2) (Before_show k))))
     | Wind_data \<Rightarrow>
         bnd (write_text 2 ''Getting wind data'') (\<lambda>_. bnd (need_client ''wind'') (\<lambda>_. sleep_until (now + seconds 2) (Before_show k)))
     | Depth_data \<Rightarrow>
         bnd (write_text 2 ''Getting depth data'') (\<lambda>_. bnd (need_client ''sounder'') (\<lambda>_. sleep_until (now + seconds 2) (Before_show k)))
     | Power_status \<Rightarrow>
         bnd (need_client ''power'') (\<lambda>_. enter_show k now texts))"

definition counting :: "nat \<Rightarrow> string" where
  "counting n = ''Shutting down in '' @ int_to_string (int n)"

text \<open>The countdown: after every second the number is written; the loop ends at zero or when the menu is on.\<close>

definition count_pass :: "nat \<Rightarrow> instant \<Rightarrow> (panel, unit) act" where
  "count_pass n now =
     bnd (peek pn_menu) (\<lambda>on.
     if \<not> on \<and> n > 0 then sleep_until (now + seconds 1) (Countdown n)
     else bnd (only_if (\<not> on) (call_out [Shut_down_system]) ()) (\<lambda>_. print_menu now))"

definition count_wake :: "nat \<Rightarrow> instant \<Rightarrow> (panel, unit) act" where
  "count_wake n now = bnd (write_text 2 (counting (n - 1))) (\<lambda>_. count_pass (n - 1) now)"

definition shutdown_system :: "instant \<Rightarrow> (panel, unit) act" where
  "shutdown_system now =
     bnd (set_menu False) (\<lambda>_.
     bnd clear_menu (\<lambda>_.
     bnd (write_text 2 (counting 10)) (\<lambda>_.
     bnd (write_text 3 ''Double press cancels'') (\<lambda>_.
     count_pass 10 now))))"

definition exit_interface :: "instant \<Rightarrow> (panel, unit) act" where
  "exit_interface now = bnd (modify (\<lambda>p. p\<lparr>pn_menu := False, pn_welcome := True\<rparr>)) (\<lambda>_. print_menu now)"

text \<open>
  The methods of the items, each with the printing of the menu that the selection does after it; the
  list has the same length as that of the texts.
\<close>

definition menu_methods :: "(instant \<Rightarrow> string list res \<Rightarrow> (panel, unit) act) list" where
  "menu_methods = [\<lambda>now t. sonde_swap now, \<lambda>now t. toggle_schedule now, \<lambda>now t. toggle_wifi now,
     show_data Sonde_data, show_data Wind_data, show_data Depth_data, show_data Power_status,
     \<lambda>now t. shutdown_system now, \<lambda>now t. exit_interface now]"

definition menu_select :: "instant \<Rightarrow> string list res \<Rightarrow> (panel, unit) act" where
  "menu_select now texts =
     bnd (peek pn_selected) (\<lambda>i.
     if 0 \<le> i \<and> i < 9 then (menu_methods ! nat i) now texts
     else if - 9 \<le> i \<and> i < 0 then (menu_methods ! nat (i + 9)) now texts else fail IndexError)"

section \<open>Buttons\<close>

definition double_press :: "instant \<Rightarrow> string list res \<Rightarrow> (panel, unit) act" where
  "double_press now texts p =
     (if pn_double p then ret () p
      else (let p1 = p\<lparr>pn_double := True\<rparr>
            in if \<not> pn_menu p1 then print_menu now (p1\<lparr>pn_menu := True, pn_first := 0, pn_selected := 0\<rparr>)
               else menu_select now texts p1))"

definition double_release :: "(panel, unit) act" where
  "double_release = modify (\<lambda>p. p\<lparr>pn_double := False\<rparr>)"

definition motor_stop :: "(panel, unit) act" where
  "motor_stop = bnd (call_out [Take ''mm3'', Stop_motor, Give ''mm3'']) (\<lambda>_. modify (\<lambda>p. p\<lparr>pn_motor := None\<rparr>))"

text \<open>
  \<open>move_motor\<close> up to the watching of the move by the winch, and its end, which stops the motor.
\<close>

definition move_motor :: "button \<Rightarrow> instant \<Rightarrow> (panel, unit) act" where
  "move_motor b now =
     bnd (call_out [Take ''mm3'', Move_motor b]) (\<lambda>_.
     bnd (modify (\<lambda>p. p\<lparr>pn_motor := Some b\<rparr>)) (\<lambda>_. sleep_until now (Watching b)))"

definition move_over :: "(panel, unit) act" where
  "move_over = bnd (call_out [Stop_motor, Give ''mm3'']) (\<lambda>_. modify (\<lambda>p. p\<lparr>pn_motor := None\<rparr>))"

text \<open>
  A press remembers its time and waits for the other button, then for being long. The thread is divided at the
  two pauses and before the command to the motor.
\<close>

definition pressed :: "button \<Rightarrow> panel \<Rightarrow> bool" where
  "pressed b p \<longleftrightarrow> bs_value (button_of b p) = 0"

definition press_start :: "button \<Rightarrow> instant \<Rightarrow> instant \<Rightarrow> string list res \<Rightarrow> (panel, unit) act" where
  "press_start b tm now texts p =
     (if pressed (other b) p then double_press now texts p else sleep_until (now + double_delay) (After_double b tm) p)"

definition press_waited :: "button \<Rightarrow> instant \<Rightarrow> instant \<Rightarrow> (panel, unit) act" where
  "press_waited b tm now p =
     (if pressed (other b) p then ret () p else sleep_until (now + (long_delay - double_delay)) (After_long b tm) p)"

definition press_long :: "button \<Rightarrow> instant \<Rightarrow> instant \<Rightarrow> (panel, unit) act" where
  "press_long b tm now p =
     (if pressed b p \<and> bs_press (button_of b p) = Some tm then sleep_until now (Before_move b) p else ret () p)"

definition button_release :: "button \<Rightarrow> instant \<Rightarrow> instant \<Rightarrow> (panel, unit) act" where
  "button_release b released now p =
     (if pressed (other b) p then ret () p
      else if pn_double p then double_release p
      else (case bs_press (button_of b p) of
              None \<Rightarrow> fail AttributeError p
            | Some start \<Rightarrow>
                if released - start < long_delay
                then (if pn_menu p then (case b of Up_button \<Rightarrow> menu_up now p | Down_button \<Rightarrow> menu_down now p) else ret () p)
                else motor_stop p))"

definition button_callback :: "button \<Rightarrow> instant \<Rightarrow> int \<Rightarrow> instant \<Rightarrow> string list res \<Rightarrow> (panel, unit) act" where
  "button_callback b ts v now texts p =
     (let s = (button_of b p)\<lparr>bs_value := v\<rparr>
      in if v = 0 then press_start b ts now texts (set_button b (s\<lparr>bs_press := Some ts\<rparr>) p)
         else if v = 1 then button_release b ts now (set_button b (s\<lparr>bs_release := Some ts\<rparr>) p)
         else ret () (set_button b s p))"

text \<open>The detector of changes.\<close>

definition button_change :: "button \<Rightarrow> instant \<Rightarrow> int \<Rightarrow> instant \<Rightarrow> string list res \<Rightarrow> (panel, unit) act" where
  "button_change b ts v now texts p =
     (if v \<noteq> bs_seen (button_of b p)
      then button_callback b ts v now texts (set_button b ((button_of b p)\<lparr>bs_seen := v\<rparr>) p)
      else ret () p)"

section \<open>The main thread\<close>

definition welcome_screen :: "string \<Rightarrow> (panel, unit) act" where
  "welcome_screen second =
     bnd (on_lcd (clear_screen None)) (\<lambda>_.
     bnd (peek pn_host) (\<lambda>h.
     bnd (write_text 1 (centred lcd_columns (''Welcome to '' @ h))) (\<lambda>_.
     write_text 2 (centred lcd_columns second))))"

text \<open>One pass of \<open>run\<close>: the end of a swap, the welcome, the status of the cast.\<close>

definition cast_text :: "string \<Rightarrow> string" where
  "cast_text s = (if length s > lcd_columns then s @ ''     '' else s)"

definition main_pass :: "instant \<Rightarrow> (panel, unit) act" where
  "main_pass now =
     bnd (modify (\<lambda>p. if pn_swapping p \<and> now > pn_swap_time p + pn_swap_length p then p\<lparr>pn_menu := True\<rparr> else p)) (\<lambda>_.
     bnd (peek pn_welcome) (\<lambda>w.
     bnd (only_if w (bnd (welcome_screen ''Press both for menu'') (\<lambda>_. modify (\<lambda>p. p\<lparr>pn_welcome := False\<rparr>))) ()) (\<lambda>_.
     modify (\<lambda>p.
       (let c = st_cast_status (pn_sched p)
        in if \<not> pn_menu p \<and> pn_last_cast p \<noteq> Some c
           then p\<lparr>pn_lcd := write_line (lcd_lines (dp_kind (pn_lcd p))) (cast_text c) (pn_lcd p), pn_last_cast := Some c\<rparr>
           else p)))))"

section \<open>Events\<close>

text \<open>
  A sample of a button arrives with its time stamp, a pending thread goes on, the main thread makes a
  pass, or the table, the status of the cast and the network change. The second time is that of the panel's
  clock. The texts are those of the first pass of an item that shows data.
\<close>

datatype panel_event =
    Sample button instant int instant "string list res"
  | Wake nat instant "string list res"
  | Pass instant
  | Outside string string "string list option"

fun event_time :: "panel_event \<Rightarrow> panel \<Rightarrow> instant" where
  "event_time (Sample b ts v now t) p = now"
| "event_time (Wake i now t) p = now"
| "event_time (Pass now) p = now"
| "event_time (Outside s c w) p = pn_clock p"

fun resume :: "task \<Rightarrow> instant \<Rightarrow> string list res \<Rightarrow> (panel, unit) act" where
  "resume (After_double b tm) now t = press_waited b tm now"
| "resume (After_long b tm) now t = press_long b tm now"
| "resume (Before_move b) now t = move_motor b now"
| "resume (Watching b) now t = move_over"
| "resume In_swap now t = swap_pass now"
| "resume Warned now t = bnd (print_menu now) (\<lambda>_. print_menu now)"
| "resume (Before_show k) now t = enter_show k now t"
| "resume (Showing k) now t = show_pass k now t"
| "resume (Countdown n) now t = count_wake n now"

text \<open>An exception ends the thread that raises it.\<close>

definition in_thread :: "(panel, unit) act \<Rightarrow> panel \<Rightarrow> panel" where
  "in_thread m p = (case m p of (Inl e, p1) \<Rightarrow> p1\<lparr>pn_raised := pn_raised p1 @ [e]\<rparr> | (Inr u, p1) \<Rightarrow> p1)"

fun event_act :: "panel_event \<Rightarrow> (panel, unit) act" where
  "event_act (Sample b ts v now t) = button_change b ts v now t"
| "event_act (Wake i now t) =
     (\<lambda>p. if i < length (pn_tasks p) \<and> fst (pn_tasks p ! i) \<le> now
           then resume (snd (pn_tasks p ! i)) now t (p\<lparr>pn_tasks := take i (pn_tasks p) @ drop (Suc i) (pn_tasks p)\<rparr>)
           else ret () p)"
| "event_act (Pass now) = main_pass now"
| "event_act (Outside s c w) = modify (\<lambda>p. p\<lparr>pn_table := s, pn_cast := c, pn_ifconfig := w\<rparr>)"

text \<open>The clock does not go back.\<close>

definition panel_step :: "panel_event \<Rightarrow> panel \<Rightarrow> panel" where
  "panel_step ev p =
     (if pn_clock p \<le> event_time ev p then in_thread (event_act ev) (p\<lparr>pn_clock := event_time ev p\<rparr>) else p)"

definition panel_run :: "panel_event list \<Rightarrow> panel \<Rightarrow> panel" where
  "panel_run = fold panel_step"

text \<open>
  The constructor: \<open>_upPressDT\<close> is not set, the time of the release is set twice instead. It ends with a first
  screen. The state of the schedule is \<open>st\<close>.
\<close>

definition year_2000 :: instant where
  "year_2000 = (case instant_of (Civil 2000 1 1 0 0) of Inr t \<Rightarrow> t | Inl e \<Rightarrow> 0)"

definition new_panel :: "lcd \<Rightarrow> string \<Rightarrow> timespan \<Rightarrow> timespan \<Rightarrow> string option \<Rightarrow> sched_status \<Rightarrow> string list \<Rightarrow> instant \<Rightarrow> panel" where
  "new_panel d host swap wifi_len wifi st clients now =
     snd (welcome_screen ''Please Wait...''
       \<lparr>pn_up = \<lparr>bs_value = 1, bs_press = None, bs_release = Some year_2000, bs_seen = 1\<rparr>,
        pn_down = \<lparr>bs_value = 1, bs_press = Some year_2000, bs_release = Some year_2000, bs_seen = 1\<rparr>,
        pn_double = False, pn_menu = False, pn_first = 0, pn_selected = 0, pn_welcome = True, pn_lcd = d, pn_host = host,
        pn_swap_time = year_2000, pn_swapping = False, pn_swap_length = swap, pn_wifi = wifi, pn_wifi_off = now + wifi_len,
        pn_wifi_length = wifi_len, pn_sched = st, pn_attrs = [''aio'', ''mm3''], pn_last_cast = None, pn_table = st_state st,
        pn_cast = st_cast_status st, pn_ifconfig = None, pn_clients = clients, pn_motor = None, pn_clock = now, pn_tasks = [],
        pn_calls = [], pn_raised = []\<rparr>)"

inductive panel_reached :: "panel \<Rightarrow> bool" where
  started: "panel_reached (new_panel (new_lcd k before) host swap wifi_len wifi st clients now)"
| stepped: "panel_reached p \<Longrightarrow> panel_reached (panel_step ev p)"

section \<open>What every operation keeps\<close>

text \<open>
  Two states that agree in the window of the menu, the display, the calls and the pending threads. A
  relation between the states before and after is kept by every operation if it is kept by the few changes
  below; \<open>okc\<close> and \<open>okt\<close> tell which calls and threads may be added.
\<close>

definition same_core :: "panel \<Rightarrow> panel \<Rightarrow> bool" where
  "same_core p q \<longleftrightarrow> pn_first q = pn_first p \<and> pn_selected q = pn_selected p \<and> pn_lcd q = pn_lcd p \<and>
     pn_calls q = pn_calls p \<and> pn_tasks q = pn_tasks p"

fun risky_call :: "panel_call \<Rightarrow> bool" where
  "risky_call (Move_motor b) = True"
| "risky_call Shut_down_system = True"
| "risky_call _ = False"

fun risky_task :: "task \<Rightarrow> bool" where
  "risky_task (Before_move b) = True"
| "risky_task _ = False"

locale panel_rel = kept R for R :: "panel \<Rightarrow> panel \<Rightarrow> bool" +
  fixes okc :: "panel_call \<Rightarrow> bool" and okt :: "task \<Rightarrow> bool"
  assumes r_core: "same_core p q \<Longrightarrow> R p q"
    and r_write: "R p (p\<lparr>pn_lcd := write_line n s (pn_lcd p)\<rparr>)"
    and r_clear: "ns \<in> {None, Some [1, 2, 3, 4]} \<Longrightarrow> R p (p\<lparr>pn_lcd := clear_screen ns (pn_lcd p)\<rparr>)"
    and r_home: "R p (p\<lparr>pn_double := True, pn_menu := True, pn_first := 0, pn_selected := 0\<rparr>)"
    and r_up: "pn_selected p > 0 \<Longrightarrow> R p (window_up p)"
    and r_down: "pn_selected p < 9 - 1 \<Longrightarrow> R p (window_down p)"
    and r_calls: "list_all okc cs \<Longrightarrow> R p (p\<lparr>pn_calls := pn_calls p @ cs\<rparr>)"
    and r_task: "okt k \<Longrightarrow> R p (p\<lparr>pn_tasks := pn_tasks p @ [(t, k)]\<rparr>)"
    and safe_calls: "\<not> risky_call c \<Longrightarrow> okc c"
    and safe_tasks: "\<not> risky_task k \<Longrightarrow> okt k"
begin

lemma k_modify: "(\<And>p. R p (f p)) \<Longrightarrow> keeps R (modify f)"
  by (simp add: keeps_def modify_def)

lemma k_same: "(\<And>p. same_core p (f p)) \<Longrightarrow> keeps R (modify f)"
  by (simp add: k_modify r_core)

lemma k_at: "(\<And>p. R p (snd (m p))) \<Longrightarrow> keeps R m"
  by (simp add: keeps_def)

lemma k_call: "list_all okc cs \<Longrightarrow> keeps R (call_out cs)"
  by (simp add: call_out_def k_modify r_calls)

lemma k_sleep: "okt k \<Longrightarrow> keeps R (sleep_until t k)"
  by (simp add: sleep_until_def k_modify r_task)

lemma k_write: "keeps R (write_text n s)"
  by (simp add: write_text_def on_lcd_def k_modify r_write)

lemma r_writes: "R p (p\<lparr>pn_lcd := fold (\<lambda>(n, s). write_line (f n) s) xs (pn_lcd p)\<rparr>)"
proof (induction xs arbitrary: p)
  case Nil
  then show ?case by (simp add: r_refl)
next
  case (Cons x xs)
  obtain n s where x: "x = (n, s)" by (cases x)
  show ?case using r_trans[OF r_write Cons.IH[of "p\<lparr>pn_lcd := write_line (f n) s (pn_lcd p)\<rparr>"]] by (simp add: x)
qed

lemma k_writes: "keeps R (write_texts ss)"
  unfolding write_texts_def on_lcd_def by (rule k_modify) (rule r_writes)

lemma k_clear: "keeps R clear_menu" "keeps R (on_lcd (clear_screen None))" "keeps R (on_lcd (clear_screen (Some [1, 2, 3, 4])))"
  by (simp_all add: clear_menu_def on_lcd_def k_modify r_clear)

lemma k_state: "keeps R (sched_state now)" "keeps R (put_state v now)" "keeps R (set_menu x)"
  by (rule k_at, simp add: sched_state_def Let_def r_core same_core_def)
    (auto simp: put_state_def set_menu_def same_core_def intro!: k_same split: prod.split option.split)

lemmas basic_rules = k_rules k_sleep k_write k_writes k_clear k_state

lemma k_lines: "keeps R (print_lines first is)"
proof (induction "is")
  case (Cons i "is")
  show ?case unfolding print_lines.simps
    by (intro k_bnd k_of_res Cons.IH k_modify) (simp add: Let_def r_refl r_write)
qed (simp add: k_ret)

lemma k_print: "keeps R (print_menu now)"
  unfolding print_menu_def by (auto intro!: basic_rules k_lines split: option.split)

lemma r_then_print: "R p q \<Longrightarrow> R p (snd (print_menu now q))"
  using k_print r_trans by (auto simp: keeps_def)

lemma k_up: "keeps R (menu_up now)"
  by (rule k_at) (auto simp: menu_up_def ret_def r_refl r_up r_then_print)

lemma k_down: "keeps R (menu_down now)"
  by (rule k_at) (auto simp: menu_down_def menu_items_def ret_def r_refl r_down r_then_print)

lemma k_need_client: "keeps R (need_client n)"
proof (rule k_at)
  fix p :: panel
  let ?q = "p\<lparr>pn_attrs := pn_attrs p @ [n]\<rparr>"
  have "R p ?q" by (rule r_core) (simp add: same_core_def)
  moreover have "R ?q (?q\<lparr>pn_calls := pn_calls ?q @ [Start_client n]\<rparr>)" by (rule r_calls) (simp add: safe_calls)
  ultimately have "R p (p\<lparr>pn_attrs := pn_attrs p @ [n], pn_calls := pn_calls p @ [Start_client n]\<rparr>)"
    by (auto intro: r_trans)
  then show "R p (snd (need_client n p))" by (auto simp: need_client_def ret_def fail_def r_refl)
qed

lemmas item_rules = basic_rules k_print k_need_client k_call

lemma k_swap_pass: "keeps R (swap_pass now)"
  unfolding swap_pass_def
  by (auto intro!: item_rules k_same split: prod.split simp: safe_calls safe_tasks same_core_def)

lemma k_swap: "keeps R (sonde_swap now)"
  unfolding sonde_swap_def
  by (auto intro!: item_rules k_swap_pass k_same simp: safe_calls same_core_def)

lemma k_toggle: "keeps R (toggle_schedule now)"
  unfolding toggle_schedule_def by (auto intro!: item_rules simp: safe_tasks)

lemma k_wifi: "keeps R (toggle_wifi now)"
  unfolding toggle_wifi_def by (auto intro!: item_rules k_same split: option.split simp: same_core_def Let_def)

lemma k_show_pass: "keeps R (show_pass k now t)"
  unfolding show_pass_def by (auto intro!: item_rules simp: safe_calls safe_tasks)

lemma k_enter_show: "keeps R (enter_show k now t)"
  unfolding enter_show_def by (auto intro!: item_rules k_show_pass simp: safe_calls)

lemma k_show: "keeps R (show_data k now t)"
  unfolding show_data_def
  by (cases k) (auto intro!: item_rules k_enter_show simp: safe_calls safe_tasks)

lemma k_count: "okc Shut_down_system \<or> n > 0 \<Longrightarrow> keeps R (count_pass n now)"
  unfolding count_pass_def by (auto intro!: item_rules simp: safe_tasks)

lemma k_shutdown: "keeps R (shutdown_system now)"
  unfolding shutdown_system_def by (auto intro!: item_rules k_count)

lemma k_exit: "keeps R (exit_interface now)"
  unfolding exit_interface_def by (auto intro!: item_rules k_same simp: same_core_def)

lemma k_methods: "\<forall>m \<in> set menu_methods. keeps R (m now t)"
  by (simp add: menu_methods_def k_swap k_toggle k_wifi k_show k_shutdown k_exit)

lemma k_select: "keeps R (menu_select now t)"
proof -
  have "length menu_methods = 9" by (simp add: menu_methods_def)
  then have "i < 9 \<Longrightarrow> keeps R ((menu_methods ! i) now t)" for i
    using k_methods[of now t] nth_mem[of i menu_methods] by simp
  then show ?thesis unfolding menu_select_def by (auto intro!: k_rules)
qed

lemma r_then: "R p q \<Longrightarrow> keeps R m \<Longrightarrow> R p (snd (m q))"
  using r_trans by (auto simp: keeps_def)

lemma k_double: "keeps R (double_press now t)"
proof (rule k_at)
  fix p :: panel
  have "R p (p\<lparr>pn_double := True\<rparr>)" by (rule r_core) (simp add: same_core_def)
  then show "R p (snd (double_press now t p))"
    using r_home[of p] by (auto simp: double_press_def Let_def ret_def r_refl intro!: r_then k_print k_select)
qed

lemma k_stop: "keeps R motor_stop" "keeps R move_over" "keeps R double_release"
  unfolding motor_stop_def move_over_def double_release_def
  by (auto intro!: item_rules k_same simp: safe_calls same_core_def)

lemma k_release: "keeps R (button_release b r now)"
  by (rule k_at) (auto simp: button_release_def ret_def fail_def r_refl split: option.split button.split
      intro!: r_then k_stop k_up k_down)

lemma k_press: "keeps R (press_start b tm now t)" "keeps R (press_waited b tm now)"
  by (rule k_at, auto simp: press_start_def press_waited_def ret_def r_refl safe_tasks intro!: r_then k_double k_sleep)+

lemma r_button: "R p (set_button b s p)"
  by (rule r_core) (simp add: set_button_def same_core_def split: button.split)

lemma k_callback: "keeps R (button_callback b ts v now t)"
  by (rule k_at) (auto simp: button_callback_def Let_def ret_def r_button intro!: r_then k_press k_release)

lemma k_change: "keeps R (button_change b ts v now t)"
  by (rule k_at) (auto simp: button_change_def ret_def r_refl intro!: r_then k_callback r_button)

lemma k_welcome: "keeps R (welcome_screen s)"
  unfolding welcome_screen_def by (intro item_rules)

lemma k_main: "keeps R (main_pass now)"
proof -
  have "R p (p\<lparr>pn_lcd := write_line n s (pn_lcd p), pn_last_cast := c\<rparr>)" for p n s c
    using r_trans[OF r_write[of p n s] r_core, of "p\<lparr>pn_lcd := write_line n s (pn_lcd p), pn_last_cast := c\<rparr>"]
    by (simp add: same_core_def)
  then show ?thesis unfolding main_pass_def
    by (auto intro!: item_rules k_welcome k_modify simp: Let_def r_refl) (auto intro!: r_core simp: same_core_def)
qed

lemma k_resume: "\<not> risky_task k \<and> \<not> (\<exists>b tm. k = After_long b tm) \<and> (\<forall>n. k = Countdown n \<longrightarrow> n > 1) \<Longrightarrow> keeps R (resume k now t)"
  by (cases k) (auto intro!: item_rules k_press k_stop k_swap_pass k_enter_show k_show_pass k_count simp: count_wake_def)

lemma k_resume_all: "\<forall>c. okc c \<Longrightarrow> \<forall>k. okt k \<Longrightarrow> keeps R (resume k now t)"
proof (cases k)
  case (After_long b tm)
  assume "\<forall>k. okt k"
  then show ?thesis unfolding After_long
    by (auto intro!: k_at simp: press_long_def ret_def r_refl sleep_until_def modify_def r_task)
qed (auto intro!: item_rules k_press k_stop k_swap_pass k_enter_show k_show_pass k_count k_same
    simp: count_wake_def move_motor_def same_core_def list_all_iff)

end

section \<open>The window of the menu\<close>

definition menu_fits :: "panel \<Rightarrow> bool" where
  "menu_fits p \<longleftrightarrow> 0 \<le> pn_first p \<and> pn_first p \<le> pn_selected p \<and>
     pn_selected p \<le> pn_first p + lcd_lines (dp_kind (pn_lcd p)) - 2 \<and>
     pn_first p + lcd_lines (dp_kind (pn_lcd p)) - 2 \<le> int (length menu_items) - 1"

definition panel_ok :: "panel \<Rightarrow> bool" where
  "panel_ok p \<longleftrightarrow> menu_fits p \<and> lcd_ok (pn_lcd p) \<and> truthful (pn_lcd p)"

lemma lcd_lines_range: "4 \<le> lcd_lines k" "lcd_lines k \<le> 6"
  by (cases k; simp)+

interpretation fits: panel_rel "\<lambda>p q. panel_ok p \<longrightarrow> panel_ok q" "\<lambda>_. True" "\<lambda>_. True"
proof (unfold_locales, goal_cases)
  case (3 p q)
  then show ?case by (simp add: same_core_def panel_ok_def menu_fits_def)
next
  case (4 p n s)
  then show ?case by (simp add: panel_ok_def menu_fits_def write_line_ok write_line_truthful)
next
  case (5 ns p)
  then show ?case using clear_screen_kept[of "pn_lcd p" ns] by (auto simp: panel_ok_def menu_fits_def)
next
  case (6 p)
  then show ?case using lcd_lines_range[of "dp_kind (pn_lcd p)"] by (auto simp: panel_ok_def menu_fits_def menu_items_def)
next
  case (7 p)
  then show ?case by (auto simp: panel_ok_def menu_fits_def window_up_def Let_def menu_items_def)
next
  case (8 p)
  then show ?case by (auto simp: panel_ok_def menu_fits_def window_down_def Let_def menu_items_def)
qed (auto simp: panel_ok_def menu_fits_def)

lemma in_thread_ok: "keeps (\<lambda>p q. panel_ok p \<longrightarrow> panel_ok q) m \<Longrightarrow> panel_ok p \<Longrightarrow> panel_ok (in_thread m p)"
proof -
  assume k: "keeps (\<lambda>p q. panel_ok p \<longrightarrow> panel_ok q) m" and p: "panel_ok p"
  obtain r p1 where m: "m p = (r, p1)" by (cases "m p")
  have "panel_ok p1" using keepsD[OF k m] p by simp
  then show ?thesis using m by (cases r) (simp_all add: in_thread_def panel_ok_def menu_fits_def)
qed

lemma event_ok: "keeps (\<lambda>p q. panel_ok p \<longrightarrow> panel_ok q) (event_act ev)"
proof (cases ev)
  case (Wake i now t)
  have "panel_ok p \<Longrightarrow> panel_ok (snd (resume k now t (p\<lparr>pn_tasks := ts\<rparr>)))" for p k ts
    using fits.k_resume_all[of k now t] by (simp add: keeps_def panel_ok_def menu_fits_def)
  then show ?thesis unfolding Wake by (auto simp: keeps_def ret_def)
qed (auto intro!: fits.k_change fits.k_main fits.k_same simp: same_core_def)

lemma new_panel_ok: "panel_ok (new_panel (new_lcd k before) host swap wl w st cl now)"
  using clear_new_lcd[of k before] lcd_lines_range[of k]
  by (simp add: new_panel_def welcome_screen_def bnd_def peek_def write_text_def on_lcd_def modify_def panel_ok_def menu_fits_def
      write_line_ok write_line_truthful menu_items_def)

lemma panel_keeps_ok: "panel_reached p \<Longrightarrow> panel_ok p"
proof (induction rule: panel_reached.induct)
  case (stepped p ev)
  have "panel_ok (p\<lparr>pn_clock := c\<rparr>)" for c using stepped.IH by (simp add: panel_ok_def menu_fits_def)
  then show ?case using stepped.IH in_thread_ok[OF event_ok] by (simp add: panel_step_def)
qed (rule new_panel_ok)

section \<open>What the display shows\<close>

lemma menu_item_in: "0 \<le> i \<Longrightarrow> i < 9 \<Longrightarrow> menu_item i = Inr (menu_items ! nat i)"
  by (simp add: menu_item_def)

lemma print_lines_run:
  assumes "\<forall>i \<in> set is. 0 \<le> i \<and> i < 9 \<and> first \<le> i \<and> i - first + 1 \<le> lcd_lines (dp_kind (pn_lcd p))" "lcd_ok (pn_lcd p)"
  shows "\<exists>d. print_lines first is p = (Inr (), p\<lparr>pn_lcd := d\<rparr>) \<and> dp_kind d = dp_kind (pn_lcd p) \<and>
    (\<forall>n. line_text d n = (if n - 1 + first \<in> set is
       then Some (menu_text (dp_kind (pn_lcd p)) (pn_selected p) (n - 1 + first) (menu_items ! nat (n - 1 + first)))
       else line_text (pn_lcd p) n))"
  using assms
proof (induction "is" arbitrary: p)
  case Nil
  then show ?case by (intro exI[of _ "pn_lcd p"]) (simp add: ret_def)
next
  case (Cons i "is")
  let ?s = "menu_text (dp_kind (pn_lcd p)) (pn_selected p) i (menu_items ! nat i)" and ?n = "i - first + 1"
  obtain t where t: "line_text (pn_lcd p) ?n = Some t" using Cons.prems by (fastforce simp: lcd_ok_def)
  define d where "d = (if t \<noteq> ?s then write_line ?n ?s (pn_lcd p) else pn_lcd p)"
  have d: "dp_kind d = dp_kind (pn_lcd p)" "lcd_ok d"
    "\<forall>m. line_text d m = (if m = ?n then Some ?s else line_text (pn_lcd p) m)"
    using Cons.prems t by (auto simp: d_def write_line_ok)
  have step: "print_lines first (i # is) p = print_lines first is (p\<lparr>pn_lcd := d\<rparr>)"
    using Cons.prems t by (simp add: menu_item_in of_res_def modify_def bnd_def Let_def d_def)
  obtain e where e: "print_lines first is (p\<lparr>pn_lcd := d\<rparr>) = (Inr (), p\<lparr>pn_lcd := e\<rparr>)" "dp_kind e = dp_kind d"
    "\<forall>n. line_text e n = (if n - 1 + first \<in> set is
       then Some (menu_text (dp_kind d) (pn_selected p) (n - 1 + first) (menu_items ! nat (n - 1 + first))) else line_text d n)"
    using Cons.IH[of "p\<lparr>pn_lcd := d\<rparr>"] Cons.prems d by auto
  have "line_text e n = (if n - 1 + first \<in> set (i # is)
       then Some (menu_text (dp_kind (pn_lcd p)) (pn_selected p) (n - 1 + first) (menu_items ! nat (n - 1 + first)))
       else line_text (pn_lcd p) n)" for n
    using e(3) d by (cases "n = ?n") auto
  then show ?case using step e d by auto
qed

lemma print_menu_run:
  assumes ok: "panel_ok p" and w: "pn_wifi p = Some w"
  shows "\<exists>q. print_menu now p = (Inr (), q) \<and> panel_ok q \<and> dp_kind (pn_lcd q) = dp_kind (pn_lcd p) \<and>
    (\<forall>n. line_text (pn_lcd q) n =
      (if n = lcd_lines (dp_kind (pn_lcd p)) then Some (status_line (if pn_table p \<in> set valid_states then pn_table p else ''off'') w)
       else if 1 \<le> n \<and> n < lcd_lines (dp_kind (pn_lcd p))
       then Some (menu_text (dp_kind (pn_lcd p)) (pn_selected p) (n - 1 + pn_first p) (menu_items ! nat (n - 1 + pn_first p)))
       else line_text (pn_lcd p) n))"
proof -
  let ?k = "lcd_lines (dp_kind (pn_lcd p))"
  have i: "\<forall>i \<in> set [pn_first p .. pn_first p + ?k - 2]. 0 \<le> i \<and> i < 9 \<and> pn_first p \<le> i \<and> i - pn_first p + 1 \<le> ?k"
    using ok by (auto simp: panel_ok_def menu_fits_def menu_items_def)
  have l: "lcd_ok (pn_lcd p)" using ok by (simp add: panel_ok_def)
  obtain d where d: "print_lines (pn_first p) [pn_first p .. pn_first p + ?k - 2] p = (Inr (), p\<lparr>pn_lcd := d\<rparr>)"
    "dp_kind d = dp_kind (pn_lcd p)"
    "\<forall>n. line_text d n = (if n - 1 + pn_first p \<in> set [pn_first p .. pn_first p + ?k - 2]
       then Some (menu_text (dp_kind (pn_lcd p)) (pn_selected p) (n - 1 + pn_first p) (menu_items ! nat (n - 1 + pn_first p)))
       else line_text (pn_lcd p) n)"
    using print_lines_run[OF i l] by blast
  define st where "st = get_state True (Inr (pn_table p, Some now)) (Inr (pn_cast p)) now (pn_sched p)"
  have s: "st_state st = (if pn_table p \<in> set valid_states then pn_table p else ''off'')"
    using get_state_valid[of True "Inr (pn_table p, Some now)" "Inr (pn_cast p)" now "pn_sched p"] by (simp add: st_def)
  define q where "q = p\<lparr>pn_lcd := write_line ?k (status_line (st_state st) w) d, pn_sched := st\<rparr>"
  have run: "print_menu now p = (Inr (), q)"
    using d w by (simp add: print_menu_def bnd_def peek_def sched_state_def Let_def st_def write_text_def on_lcd_def modify_def q_def)
  have "panel_ok q" using keepsD[OF fits.k_print run] ok by simp
  moreover have "1 \<le> ?k" using lcd_lines_range[of "dp_kind (pn_lcd p)"] by simp
  ultimately show ?thesis using run d by (auto simp: q_def s)
qed

section \<open>Where the motor and the end of the system come from\<close>

definition mild :: "panel \<Rightarrow> panel \<Rightarrow> bool" where
  "mild p q \<longleftrightarrow> (\<exists>cs ts. pn_calls q = pn_calls p @ cs \<and> pn_tasks q = pn_tasks p @ ts \<and>
     list_all (\<lambda>c. \<not> risky_call c) cs \<and> list_all (\<lambda>k. \<not> risky_task (snd k)) ts)"

lemma mild_same: "pn_calls q = pn_calls p \<Longrightarrow> pn_tasks q = pn_tasks p \<Longrightarrow> mild p q"
  by (simp add: mild_def)

interpretation hush: panel_rel mild "\<lambda>c. \<not> risky_call c" "\<lambda>k. \<not> risky_task k"
proof (unfold_locales, goal_cases)
  case (2 s t u)
  then obtain cs ts ds us where "pn_calls t = pn_calls s @ cs" "pn_tasks t = pn_tasks s @ ts" "pn_calls u = pn_calls t @ ds"
    "pn_tasks u = pn_tasks t @ us" "list_all (\<lambda>c. \<not> risky_call c) (cs @ ds)" "list_all (\<lambda>k. \<not> risky_task (snd k)) (ts @ us)"
    unfolding mild_def by fastforce
  then show ?case unfolding mild_def by (intro exI[of _ "cs @ ds"] exI[of _ "ts @ us"]) simp
qed (auto simp: mild_same same_core_def window_up_def window_down_def Let_def, auto simp: mild_def)

definition added_calls :: "panel \<Rightarrow> panel \<Rightarrow> panel_call list" where
  "added_calls p q = drop (length (pn_calls p)) (pn_calls q)"

text \<open>The state in which a woken thread goes on.\<close>

definition woken :: "nat \<Rightarrow> instant \<Rightarrow> panel \<Rightarrow> panel" where
  "woken i now p = p\<lparr>pn_clock := now, pn_tasks := take i (pn_tasks p) @ drop (Suc i) (pn_tasks p)\<rparr>"

lemma in_thread_simps [simp]:
  "pn_calls (in_thread m p) = pn_calls (snd (m p))" "pn_tasks (in_thread m p) = pn_tasks (snd (m p))"
  by (simp_all add: in_thread_def split: prod.split sum.split)

lemma mild_added:
  assumes "mild p q"
  shows "c \<in> set (added_calls p q) \<Longrightarrow> \<not> risky_call c"
    "Before_move b \<in> snd ` set (pn_tasks q) \<Longrightarrow> Before_move b \<in> snd ` set (pn_tasks p)"
proof -
  obtain cs ts where q: "pn_calls q = pn_calls p @ cs" "pn_tasks q = pn_tasks p @ ts" "list_all (\<lambda>c. \<not> risky_call c) cs"
    "list_all (\<lambda>k. \<not> risky_task (snd k)) ts" using assms unfolding mild_def by blast
  then show "c \<in> set (added_calls p q) \<Longrightarrow> \<not> risky_call c" by (auto simp: added_calls_def list_all_iff)
  have "Before_move b \<notin> snd ` set ts" using q(4) by (force simp: list_all_iff)
  then show "Before_move b \<in> snd ` set (pn_tasks q) \<Longrightarrow> Before_move b \<in> snd ` set (pn_tasks p)"
    using q(2) by (simp add: image_Un)
qed

lemma mild_event:
  assumes "\<forall>i now t. ev \<noteq> Wake i now t"
  shows "mild p (snd (event_act ev p))"
proof -
  have "keeps mild (event_act ev)" using assms
    by (cases ev) (auto intro!: hush.k_change hush.k_main hush.k_same simp: same_core_def)
  then show ?thesis by (simp add: keeps_def)
qed

lemma step_calls:
  "(\<exists>i now t d k. ev = Wake i now t \<and> i < length (pn_tasks p) \<and> pn_tasks p ! i = (d, k) \<and> d \<le> now \<and> pn_clock p \<le> now \<and>
       panel_step ev p = in_thread (resume k now t) (woken i now p)) \<or>
   (\<exists>q. pn_calls (panel_step ev p) = pn_calls q \<and> pn_tasks (panel_step ev p) = pn_tasks q \<and> mild p q)"
proof (cases "pn_clock p \<le> event_time ev p")
  case True
  let ?p = "p\<lparr>pn_clock := event_time ev p\<rparr>"
  show ?thesis
  proof (cases "\<exists>i now t. ev = Wake i now t")
    case False
    then have "mild p (snd (event_act ev ?p))"
      using mild_event[of ev ?p] hush.r_trans[of p ?p] mild_same[of ?p p] by simp
    then show ?thesis using True by (auto simp: panel_step_def)
  next
    case w: True
    then obtain i now t where ev: "ev = Wake i now t" by blast
    show ?thesis
    proof (cases "i < length (pn_tasks p) \<and> fst (pn_tasks p ! i) \<le> now")
      case True
      moreover obtain d k where dk: "pn_tasks p ! i = (d, k)" by (cases "pn_tasks p ! i")
      ultimately have "panel_step ev p = in_thread (resume k now t) (woken i now p)"
        using \<open>pn_clock p \<le> event_time ev p\<close> ev by (simp add: panel_step_def in_thread_def woken_def)
      then show ?thesis using True dk ev \<open>pn_clock p \<le> event_time ev p\<close> by auto
    next
      case False
      then have "panel_step ev p = ?p" using \<open>pn_clock p \<le> event_time ev p\<close> ev by (auto simp: panel_step_def in_thread_def ret_def)
      then show ?thesis by (auto simp: mild_same)
    qed
  qed
next
  case False
  then show ?thesis by (auto simp: panel_step_def mild_same)
qed

lemma woken_simps [simp]:
  "pn_calls (woken i now p) = pn_calls p" "pn_menu (woken i now p) = pn_menu p" "button_of b (woken i now p) = button_of b p"
  "pressed b (woken i now p) = pressed b p" "pn_tasks (woken i now p) = take i (pn_tasks p) @ drop (Suc i) (pn_tasks p)"
  by (simp_all add: woken_def button_of_def pressed_def split: button.split)

lemma woken_tasks: "x \<in> snd ` set (pn_tasks (woken i now p)) \<Longrightarrow> x \<in> snd ` set (pn_tasks p)"
  by (auto dest: in_set_takeD in_set_dropD)

text \<open>What the threads that can start the motor or end the system do when they go on.\<close>

lemma resume_risky:
  assumes "\<not> mild (woken i now p) (snd (resume k now t (woken i now p)))"
  shows "(\<exists>b. k = Before_move b) \<or> (\<exists>b tm. k = After_long b tm \<and> pressed b p \<and> bs_press (button_of b p) = Some tm) \<or>
    (\<exists>n. k = Countdown n \<and> n \<le> 1 \<and> \<not> pn_menu p)"
proof (cases k)
  case (After_long b tm)
  then show ?thesis using assms by (auto simp: press_long_def ret_def mild_same split: if_splits)
next
  case (Countdown n)
  show ?thesis
  proof (cases "n > 1 \<or> pn_menu p")
    case True
    then have "mild (woken i now p) (snd (count_wake n now (woken i now p)))"
    proof
      assume "n > 1"
      then have "keeps mild (resume (Countdown n) now t)" by (intro hush.k_resume) auto
      then show ?thesis by (simp add: keeps_def)
    next
      assume m: "pn_menu p"
      let ?p = "snd (write_text 2 (counting (n - 1)) (woken i now p))"
      have "count_wake n now (woken i now p) = print_menu now ?p"
        using m by (simp add: count_wake_def count_pass_def bnd_def peek_def write_text_def on_lcd_def modify_def ret_def)
      moreover have "mild (woken i now p) ?p" using hush.k_write by (simp add: keeps_def)
      ultimately show ?thesis using hush.r_then_print by simp
    qed
    then show ?thesis using assms Countdown by simp
  qed (use Countdown in auto)
next
  case (Before_move b)
  then show ?thesis by blast
qed (use assms hush.k_resume[of k now t] in \<open>simp_all add: keeps_def\<close>)

lemma resume_effects:
  "pn_calls (snd (move_motor b now p)) = pn_calls p @ [Take ''mm3'', Move_motor b]"
  "pn_tasks (snd (move_motor b now p)) = pn_tasks p @ [(now, Watching b)]"
  "pn_calls (snd (press_long b tm now p)) = pn_calls p"
  "pn_tasks (snd (press_long b tm now p)) =
     pn_tasks p @ (if pressed b p \<and> bs_press (button_of b p) = Some tm then [(now, Before_move b)] else [])"
  by (simp_all add: move_motor_def press_long_def bnd_def call_out_def modify_def sleep_until_def ret_def)

lemma count_effects:
  assumes "n \<le> 1" "\<not> pn_menu p"
  shows "\<exists>q. mild (p\<lparr>pn_calls := pn_calls p @ [Shut_down_system]\<rparr>) q \<and> snd (count_wake n now p) = q"
proof -
  define q where "q = p\<lparr>pn_lcd := write_line 2 (counting (n - 1)) (pn_lcd p), pn_calls := pn_calls p @ [Shut_down_system]\<rparr>"
  have "count_wake n now p = print_menu now q"
    using assms by (simp add: count_wake_def count_pass_def bnd_def peek_def write_text_def on_lcd_def modify_def ret_def call_out_def q_def)
  moreover have "mild (p\<lparr>pn_calls := pn_calls p @ [Shut_down_system]\<rparr>) q" by (simp add: q_def mild_same)
  ultimately show ?thesis using hush.r_then_print by simp
qed

section \<open>Properties\<close>



text \<open>
  C28. The motor is only started by a thread that has found its button held: that thread was waiting for the
  press to be long, its time had come, and the button was still pressed by the same press. The system is only
  shut down at the end of a countdown while the menu is off.
\<close>

theorem motor_and_end_guarded:
  "(Move_motor b \<in> set (added_calls p (panel_step ev p)) \<longrightarrow>
      (\<exists>i now t d. ev = Wake i now t \<and> i < length (pn_tasks p) \<and> pn_tasks p ! i = (d, Before_move b))) \<and>
   (Before_move b \<in> snd ` set (pn_tasks (panel_step ev p)) \<longrightarrow> Before_move b \<in> snd ` set (pn_tasks p) \<or>
      (\<exists>i now t d tm. ev = Wake i now t \<and> i < length (pn_tasks p) \<and> pn_tasks p ! i = (d, After_long b tm) \<and> d \<le> now \<and>
        pressed b p \<and> bs_press (button_of b p) = Some tm)) \<and>
   (Shut_down_system \<in> set (added_calls p (panel_step ev p)) \<longrightarrow>
      (\<exists>i now t d n. ev = Wake i now t \<and> i < length (pn_tasks p) \<and> pn_tasks p ! i = (d, Countdown n) \<and> n \<le> 1 \<and> \<not> pn_menu p))"
  using step_calls[of ev p]
proof (elim disjE exE conjE)
  fix q
  assume "pn_calls (panel_step ev p) = pn_calls q" "pn_tasks (panel_step ev p) = pn_tasks q" and q: "mild p q"
  then show ?thesis using mild_added(1)[OF q, of "Move_motor b"] mild_added(1)[OF q, of Shut_down_system] mild_added(2)[OF q, of b]
    by (auto simp: added_calls_def)
next
  fix i now t d k
  assume w: "ev = Wake i now t" "i < length (pn_tasks p)" "pn_tasks p ! i = (d, k)" "d \<le> now"
    "panel_step ev p = in_thread (resume k now t) (woken i now p)"
  let ?w = "woken i now p" and ?r = "snd (resume k now t (woken i now p))"
  show ?thesis
  proof (cases "mild ?w ?r")
    case q: True
    show ?thesis
      using mild_added(1)[OF q, of "Move_motor b"] mild_added(1)[OF q, of Shut_down_system] mild_added(2)[OF q, of b]
        woken_tasks[of "Before_move b" i now p] w(5) by (auto simp: added_calls_def simp del: woken_simps(5))
  next
    case False
    show ?thesis using resume_risky[OF False]
    proof (elim disjE exE conjE)
      fix c
      assume k: "k = Before_move c"
      then show ?thesis using w resume_effects(1,2)[of c now ?w] woken_tasks[of "Before_move b" i now p]
        by (auto simp: added_calls_def simp del: woken_simps(5))
    next
      fix c tm
      assume k: "k = After_long c tm" "pressed c p" "bs_press (button_of c p) = Some tm"
      then show ?thesis using w resume_effects(3,4)[of c tm now ?w] woken_tasks[of "Before_move b" i now p]
        by (auto simp: added_calls_def simp del: woken_simps(5))
    next
      fix n
      assume k: "k = Countdown n" "n \<le> 1" "\<not> pn_menu p"
      obtain q where q: "mild (?w\<lparr>pn_calls := pn_calls p @ [Shut_down_system]\<rparr>) q" "?r = q"
        using count_effects[of n ?w now] k by auto
      obtain cs where cs: "pn_calls q = pn_calls p @ Shut_down_system # cs" "list_all (\<lambda>c. \<not> risky_call c) cs"
        using q(1) by (auto simp: mild_def)
      have "Move_motor b \<notin> set cs" using cs(2) by (auto simp: list_all_iff)
      then show ?thesis using w q k cs mild_added(2)[OF q(1), of b] woken_tasks[of "Before_move b" i now p]
        by (auto simp: added_calls_def simp del: woken_simps(5))
    qed
  qed
qed

section \<open>Runs\<close>

text \<open>Printing the menu changes the display and the copy of the state of the schedule.\<close>

lemma print_lines_frame: "\<exists>l. snd (print_lines first is p) = p\<lparr>pn_lcd := l\<rparr>"
proof (induction "is" arbitrary: p)
  case Nil
  show ?case by (intro exI[of _ "pn_lcd p"]) (simp add: ret_def)
next
  case (Cons i "is")
  have "\<exists>l. snd (print_lines first is (p\<lparr>pn_lcd := d\<rparr>)) = p\<lparr>pn_lcd := l\<rparr>" for d
    using Cons.IH[of "p\<lparr>pn_lcd := d\<rparr>"] by simp
  moreover have "\<exists>l. p = p\<lparr>pn_lcd := l\<rparr>" by (intro exI[of _ "pn_lcd p"]) simp
  ultimately show ?case using Cons.IH[of p]
    by (cases "menu_item i") (auto simp: of_res_def bnd_def modify_def Let_def)
qed

lemma print_menu_frame: "\<exists>l s. snd (print_menu now p) = p\<lparr>pn_lcd := l, pn_sched := s\<rparr>"
proof -
  obtain r p1 where r: "print_lines (pn_first p) [pn_first p .. pn_first p + lcd_lines (dp_kind (pn_lcd p)) - 2] p = (r, p1)"
    by (rule prod.exhaust)
  then obtain l where l: "p1 = p\<lparr>pn_lcd := l\<rparr>"
    using print_lines_frame[of "pn_first p" "[pn_first p .. pn_first p + lcd_lines (dp_kind (pn_lcd p)) - 2]" p] by auto
  have e: "\<exists>a s. p\<lparr>pn_lcd := x\<rparr> = p\<lparr>pn_lcd := a, pn_sched := s\<rparr>" for x
    by (intro exI[of _ x] exI[of _ "pn_sched p"]) simp
  have f: "\<exists>a s. p\<lparr>pn_sched := y, pn_lcd := x\<rparr> = p\<lparr>pn_lcd := a, pn_sched := s\<rparr>"
    "\<exists>a s. p\<lparr>pn_lcd := x, pn_sched := y\<rparr> = p\<lparr>pn_lcd := a, pn_sched := s\<rparr>" for x y
    by (intro exI[of _ x] exI[of _ y], simp)+
  show ?thesis using r l e f
    by (cases r) (auto simp: print_menu_def bnd_def peek_def sched_state_def Let_def fail_def write_text_def on_lcd_def modify_def
        split: option.split)
qed

lemma in_thread_frame:
  "\<exists>l s e. in_thread (print_menu now) p = p\<lparr>pn_lcd := l, pn_sched := s, pn_raised := e\<rparr>"
proof -
  obtain r p1 where r: "print_menu now p = (r, p1)" by (rule prod.exhaust)
  then obtain l s where p1: "p1 = p\<lparr>pn_lcd := l, pn_sched := s\<rparr>" using print_menu_frame[of now p] by auto
  have "\<exists>a b e. p1 = p\<lparr>pn_lcd := a, pn_sched := b, pn_raised := e\<rparr>"
    by (intro exI[of _ l] exI[of _ s] exI[of _ "pn_raised p"]) (simp add: p1)
  moreover have "\<exists>a b e. p1\<lparr>pn_raised := x\<rparr> = p\<lparr>pn_lcd := a, pn_sched := b, pn_raised := e\<rparr>" for x
    by (intro exI[of _ l] exI[of _ s] exI[of _ x]) (simp add: p1)
  ultimately show ?thesis using r by (cases r) (simp_all add: in_thread_def)
qed

lemmas run_defs = panel_step_def in_thread_def button_change_def button_callback_def press_start_def press_waited_def press_long_def
  button_release_def move_motor_def motor_stop_def sleep_until_def call_out_def bnd_def modify_def ret_def Let_def
  pressed_def set_button_def button_of_def

text \<open>
  A press that lasts a second, with the other button released and nothing else going on, starts the
  motor in its direction and its release stops it; the menu stays as it was.
\<close>

theorem long_press_moves:
  assumes calm: "pn_tasks p = []" "\<not> pn_double p" "\<not> pressed (other b) p" "bs_seen (button_of b p) = 1"
    and times: "pn_clock p \<le> t0" "t0 + double_delay \<le> t1" "t1 + (long_delay - double_delay) \<le> t2" "t2 \<le> t3" "t3 \<le> t4"
    and long: "released - start \<ge> long_delay"
  shows "let q = panel_run [Sample b start 0 t0 x, Wake 0 t1 x, Wake 0 t2 x, Wake 0 t3 x] p; r = panel_step (Sample b released 1 t4 x) q
    in pn_motor q = Some b \<and> pn_motor r = None \<and> map snd (pn_tasks r) = [Watching b] \<and> pn_menu r = pn_menu p \<and>
       pn_calls r = pn_calls p @ [Take ''mm3'', Move_motor b, Take ''mm3'', Stop_motor, Give ''mm3'']"
proof -
  have c: "t0 \<le> t1" "t1 \<le> t2" using times by (simp_all add: double_delay_def long_delay_def seconds_def)
  show ?thesis using assms c by (cases b) (simp_all add: panel_run_def run_defs)
qed

text \<open>
  A sonde swap ends with its time: the pass of the main thread after it makes the waiting thread go on, which
  resumes the sonde, ends the swap and turns the schedule on, also if it was paused when the swap began or
  has been paused since, but not if it is off.
\<close>

theorem swap_ends:
  assumes "pn_swapping p" "\<not> pn_welcome p" "i < length (pn_tasks p)" "pn_tasks p ! i = (d, In_swap)" "pn_clock p \<le> now"
    "pn_swap_time p + pn_swap_length p < now" "now \<le> later" "d \<le> later"
  shows "let q = panel_run [Pass now, Wake i later x] p
    in \<not> pn_swapping q \<and> pn_tasks q = take i (pn_tasks p) @ drop (Suc i) (pn_tasks p) \<and>
       pn_calls q = pn_calls p @ [Take ''sonde'', Resume_sonde, Give ''sonde''] \<and>
       pn_table q = (if pn_table p \<in> {''on'', ''paused''} then ''on'' else pn_table p)"
proof -
  define p1 where "p1 = p\<lparr>pn_clock := now, pn_menu := True\<rparr>"
  have 1: "panel_step (Pass now) p = p1"
    using assms by (simp add: panel_step_def in_thread_def main_pass_def bnd_def modify_def peek_def Let_def p1_def ret_def)
  define st where "st = get_state True (Inr (pn_table p, Some later)) (Inr (pn_cast p)) later (pn_sched p)"
  have st: "st_state st = (if pn_table p \<in> set valid_states then pn_table p else ''off'')"
    using get_state_valid[of True "Inr (pn_table p, Some later)" "Inr (pn_cast p)" later "pn_sched p"] by (simp add: st_def)
  define p2 where "p2 = p1\<lparr>pn_clock := later, pn_tasks := take i (pn_tasks p) @ drop (Suc i) (pn_tasks p), pn_swapping := False\<rparr>"
  define p3 where "p3 = snd (only_if (st_state st \<noteq> ''off'') (put_state ''on'' later) () (p2\<lparr>pn_sched := st\<rparr>))"
  define p4 where "p4 = p3\<lparr>pn_calls := pn_calls p3 @ [Take ''sonde'', Resume_sonde, Give ''sonde'']\<rparr>"
  have 3: "only_if (st_state st \<noteq> ''off'') (put_state ''on'' later) () (p2\<lparr>pn_sched := st\<rparr>) = (Inr (), p3)"
    by (cases "st_state st \<noteq> ''off''") (simp_all add: p3_def put_state_def modify_def ret_def)
  have "panel_step (Wake i later x) p1 = in_thread (print_menu later) p4"
    using assms 3 unfolding p4_def
    by (simp add: panel_step_def in_thread_def swap_pass_def bnd_def peek_def modify_def sched_state_def Let_def call_out_def
        p1_def p2_def st_def del: in_thread_simps)
  moreover obtain l y e where "in_thread (print_menu later) p4 = p4\<lparr>pn_lcd := l, pn_sched := y, pn_raised := e\<rparr>"
    using in_thread_frame[of later p4] by blast
  ultimately have q: "panel_run [Pass now, Wake i later x] p = p4\<lparr>pn_lcd := l, pn_sched := y, pn_raised := e\<rparr>"
    by (simp add: panel_run_def 1)
  have "pn_table p3 = (if pn_table p \<in> {''on'', ''paused''} then ''on'' else pn_table p) \<and> pn_tasks p3 = pn_tasks p2 \<and>
      pn_calls p3 = pn_calls p2 \<and> pn_swapping p3 = pn_swapping p2"
    by (auto simp: p3_def st put_state_def set_state_def valid_states_def modify_def ret_def only_if_def p2_def p1_def)
  then show ?thesis unfolding q by (simp add: p4_def p2_def p1_def)
qed

text \<open>The wakes of a countdown, a second apart.\<close>

definition seconds_from :: "instant \<Rightarrow> nat \<Rightarrow> panel_event list" where
  "seconds_from t n = map (\<lambda>k. Wake 0 (t + seconds (int k)) (Inr [])) [0 ..< n]"

lemma countdown_step:
  assumes "pn_tasks q = [(d, Countdown (Suc k))]" "pn_clock q \<le> d" "\<not> pn_menu q"
  shows "let r = panel_step (Wake 0 d x) q in pn_clock r = d \<and> \<not> pn_menu r \<and>
    pn_tasks r = (if k > 0 then [(d + seconds 1, Countdown k)] else []) \<and>
    pn_calls r = pn_calls q @ (if k > 0 then [] else [Shut_down_system])"
proof (cases "k > 0")
  case True
  then show ?thesis using assms
    by (simp add: panel_step_def in_thread_def count_wake_def count_pass_def bnd_def peek_def write_text_def on_lcd_def modify_def
        sleep_until_def)
next
  case False
  define p1 where "p1 = q\<lparr>pn_clock := d, pn_tasks := [], pn_lcd := write_line 2 (counting 0) (pn_lcd q),
    pn_calls := pn_calls q @ [Shut_down_system]\<rparr>"
  have "panel_step (Wake 0 d x) q = in_thread (print_menu d) p1"
    using assms False by (simp add: panel_step_def in_thread_def count_wake_def count_pass_def bnd_def peek_def write_text_def
        on_lcd_def modify_def call_out_def p1_def)
  moreover obtain l y e where "in_thread (print_menu d) p1 = p1\<lparr>pn_lcd := l, pn_sched := y, pn_raised := e\<rparr>"
    using in_thread_frame[of d p1] by blast
  ultimately show ?thesis using False assms by (simp add: p1_def)
qed

text \<open>
  The countdown asks for the end of the system exactly if no second finds the menu switched on: after n
  seconds with the menu off the command is given, with fewer the countdown stands at the rest.
\<close>

theorem countdown_ends:
  assumes "pn_tasks p = [(t, Countdown n)]" "pn_clock p \<le> t" "\<not> pn_menu p" "m \<le> n" "0 < n"
  shows "let q = panel_run (seconds_from t m) p
    in \<not> pn_menu q \<and> pn_calls q = pn_calls p @ (if m = n then [Shut_down_system] else []) \<and>
       pn_tasks q = (if m = n then [] else [(t + seconds (int m), Countdown (n - m))])"
proof -
  have run: "let q = panel_run (seconds_from t m) p
    in pn_clock q \<le> t + seconds (int m) \<and> \<not> pn_menu q \<and> pn_calls q = pn_calls p @ (if m = n then [Shut_down_system] else []) \<and>
       pn_tasks q = (if m = n then [] else [(t + seconds (int m), Countdown (n - m))])"
    if "m \<le> n" for m
    using that
  proof (induction m)
    case 0
    then show ?case using assms by (simp add: seconds_from_def panel_run_def seconds_def)
  next
    case (Suc m)
    define q where "q = panel_run (seconds_from t m) p"
    have q: "pn_clock q \<le> t + seconds (int m)" "\<not> pn_menu q" "pn_calls q = pn_calls p"
      "pn_tasks q = [(t + seconds (int m), Countdown (Suc (n - Suc m)))]"
      using Suc by (auto simp: Let_def q_def Suc_diff_Suc)
    have "panel_run (seconds_from t (Suc m)) p = panel_step (Wake 0 (t + seconds (int m)) (Inr [])) q"
      by (simp add: seconds_from_def panel_run_def q_def)
    then show ?case using countdown_step[OF q(4,1,2), of "Inr []"] q(3) Suc.prems
      by (auto simp: Let_def seconds_def algebra_simps)
  qed
  show ?thesis using run[OF assms(4)] by (simp add: Let_def)
qed

section \<open>Hazards\<close>

definition demo_panel :: panel where
  "demo_panel = new_panel (new_lcd Pertelian []) ''avp1'' (seconds 1800) (seconds 7200) (Some ''off'')
     \<lparr>st_state = ''on'', st_cast_status = ''idle'', st_change_time = None, st_resume = 0, st_pause = seconds 3600\<rparr>
     [''sonde'', ''wind''] 0"

lemma demo_fields [simp]:
  "pn_tasks demo_panel = []" "pn_clock demo_panel = 0" "\<not> pn_double demo_panel" "\<not> pn_menu demo_panel" "pn_motor demo_panel = None"
  "pn_calls demo_panel = []" "pn_up demo_panel = \<lparr>bs_value = 1, bs_press = None, bs_release = Some year_2000, bs_seen = 1\<rparr>"
  "pn_down demo_panel = \<lparr>bs_value = 1, bs_press = Some year_2000, bs_release = Some year_2000, bs_seen = 1\<rparr>"
  "pn_attrs demo_panel = [''aio'', ''mm3'']" "dp_kind (pn_lcd demo_panel) = Pertelian" "pn_wifi demo_panel = Some ''off''"
  "\<not> pn_swapping demo_panel" "pn_table demo_panel = ''on''" "pn_selected demo_panel = 0" "pn_first demo_panel = 0"
  using clear_new_lcd[of Pertelian "[]"]
  by (simp_all add: demo_panel_def new_panel_def welcome_screen_def bnd_def peek_def write_text_def on_lcd_def modify_def)

text \<open>What a thread leaves; after printing the menu only the display, the state of the schedule and exceptions differ.\<close>

definition thread_end :: "unit res \<times> panel \<Rightarrow> panel" where
  "thread_end r = (case r of (Inl e, p1) \<Rightarrow> p1\<lparr>pn_raised := pn_raised p1 @ [e]\<rparr> | (Inr u, p1) \<Rightarrow> p1)"

lemma in_thread_end: "in_thread m p = thread_end (m p)"
  by (simp add: in_thread_def thread_end_def)

lemma thread_end_simps [simp]: "thread_end (Inr u, p) = p" "thread_end (Inl e, p) = p\<lparr>pn_raised := pn_raised p @ [e]\<rparr>"
  by (simp_all add: thread_end_def)

lemma thread_end_print [simp]:
  "pn_up (thread_end (print_menu now p)) = pn_up p" "pn_down (thread_end (print_menu now p)) = pn_down p"
  "pn_double (thread_end (print_menu now p)) = pn_double p" "pn_menu (thread_end (print_menu now p)) = pn_menu p"
  "pn_selected (thread_end (print_menu now p)) = pn_selected p" "pn_attrs (thread_end (print_menu now p)) = pn_attrs p"
  "pn_motor (thread_end (print_menu now p)) = pn_motor p" "pn_clock (thread_end (print_menu now p)) = pn_clock p"
  "pn_tasks (thread_end (print_menu now p)) = pn_tasks p" "pn_calls (thread_end (print_menu now p)) = pn_calls p"
proof -
  obtain l s e where "thread_end (print_menu now p) = p\<lparr>pn_lcd := l, pn_sched := s, pn_raised := e\<rparr>"
    using in_thread_frame[of now p] unfolding in_thread_end by blast
  then show "pn_up (thread_end (print_menu now p)) = pn_up p" "pn_down (thread_end (print_menu now p)) = pn_down p"
    "pn_double (thread_end (print_menu now p)) = pn_double p" "pn_menu (thread_end (print_menu now p)) = pn_menu p"
    "pn_selected (thread_end (print_menu now p)) = pn_selected p" "pn_attrs (thread_end (print_menu now p)) = pn_attrs p"
    "pn_motor (thread_end (print_menu now p)) = pn_motor p" "pn_clock (thread_end (print_menu now p)) = pn_clock p"
    "pn_tasks (thread_end (print_menu now p)) = pn_tasks p" "pn_calls (thread_end (print_menu now p)) = pn_calls p"
    by simp_all
qed

lemmas press_defs = panel_step_def in_thread_end button_change_def button_callback_def press_start_def press_waited_def press_long_def
  button_release_def move_motor_def motor_stop_def sleep_until_def call_out_def bnd_def modify_def ret_def Let_def
  pressed_def set_button_def button_of_def double_press_def double_release_def

definition held_up :: "panel_event list" where
  "held_up = [Sample Up_button 0 0 0 (Inr []), Wake 0 100000 (Inr []), Wake 0 1000000 (Inr [])]"

definition up_running :: "panel \<Rightarrow> bool" where
  "up_running p \<longleftrightarrow> pn_motor p = Some Up_button \<and> \<not> pressed Up_button p \<and> \<not> pressed Down_button p \<and>
     map snd (pn_tasks p) = [Watching Up_button]"

text \<open>
  The motor can go on running with both buttons released and nothing left that would stop it but the watching
  of the move: when the other button is pressed during a long press and released last, when the release is
  handled between the test of the long press and the command to the motor, and when the time stamps of
  press and release are less than a second apart although the thread found the button pressed after a second.
\<close>

theorem motor_left_running:
  "up_running (panel_run (held_up @ [Wake 0 1000000 (Inr []), Sample Down_button 2000000 0 2000000 (Inr []),
      Sample Up_button 3000000 1 3000000 (Inr []), Sample Down_button 4000000 1 4000000 (Inr [])]) demo_panel) \<and>
   up_running (panel_run (held_up @ [Sample Up_button 1000000 1 1000000 (Inr []), Wake 0 1000000 (Inr [])]) demo_panel) \<and>
   up_running (panel_run (held_up @ [Wake 0 1000000 (Inr []), Sample Up_button 990000 1 1050000 (Inr [])]) demo_panel) \<and>
   panel_reached demo_panel"
proof (intro conjI)
  show "panel_reached demo_panel" unfolding demo_panel_def by (rule panel_reached.started)
qed (simp_all add: held_up_def panel_run_def press_defs up_running_def double_delay_def long_delay_def seconds_def)

text \<open>Both buttons pressed, the thread of the first one going on at the given place, and both released.\<close>

definition both :: "nat \<Rightarrow> instant \<Rightarrow> panel_event list" where
  "both i t = [Sample Up_button t 0 t (Inr []), Sample Down_button t 0 t (Inr []), Wake i (t + 100000) (Inr []),
     Sample Up_button (t + 150000) 1 (t + 150000) (Inr []), Sample Down_button (t + 150000) 1 (t + 150000) (Inr [])]"

definition counting_down :: "instant \<Rightarrow> nat \<Rightarrow> panel \<Rightarrow> bool" where
  "counting_down d n p \<longleftrightarrow> pn_tasks p = [(d, Countdown n)] \<and> \<not> pn_double p \<and> \<not> pressed Up_button p \<and> \<not> pressed Down_button p \<and>
     bs_seen (pn_up p) = 1 \<and> bs_seen (pn_down p) = 1 \<and> ''sonde'' \<in> set (pn_attrs p)"

lemma both_opens:
  assumes "counting_down d n p" "\<not> pn_menu p" "pn_clock p \<le> t"
  shows "let q = panel_run (both 1 t) p
    in counting_down d n q \<and> pn_menu q \<and> pn_selected q = 0 \<and> pn_calls q = pn_calls p \<and> pn_clock q = t + 150000"
  using assms by (simp add: both_def counting_down_def panel_run_def press_defs double_delay_def)

lemma pause_frame:
  "\<exists>s x y. sched_state now p = (Inr s, p\<lparr>pn_sched := x\<rparr>) \<and>
     only_if (s \<noteq> ''off'') (put_state v now) () (p\<lparr>pn_sched := x\<rparr>) = (Inr (), p\<lparr>pn_sched := fst y, pn_table := snd y\<rparr>)"
proof -
  define st where "st = get_state True (Inr (pn_table p, Some now)) (Inr (pn_cast p)) now (pn_sched p)"
  have "\<exists>y. only_if (st_state st \<noteq> ''off'') (put_state v now) () (p\<lparr>pn_sched := st\<rparr>) = (Inr (), p\<lparr>pn_sched := fst y, pn_table := snd y\<rparr>)"
  proof (cases "st_state st = ''off''")
    case True
    then show ?thesis by (intro exI[of _ "(st, pn_table p)"]) (simp add: ret_def)
  next
    case False
    then show ?thesis
      by (intro exI[of _ "(fst (set_state v now st), case snd (set_state v now st) of None \<Rightarrow> pn_table p | Some z \<Rightarrow> fst z)"])
        (simp add: put_state_def modify_def split: prod.split option.split)
  qed
  then show ?thesis by (auto simp: sched_state_def Let_def st_def)
qed

lemma sonde_swap_run:
  assumes "''sonde'' \<in> set (pn_attrs p)"
  shows "\<exists>y l. sonde_swap now p = (Inr (), p\<lparr>pn_swap_time := now, pn_swapping := True, pn_sched := fst y, pn_table := snd y,
    pn_calls := pn_calls p @ [Take ''sonde'', Suspend_sonde, Give ''sonde''], pn_menu := False, pn_lcd := l,
    pn_tasks := pn_tasks p @ [(now + seconds 1, In_swap)]\<rparr>)"
proof -
  let ?p = "p\<lparr>pn_swap_time := now, pn_swapping := True\<rparr>"
  obtain s x y where y: "sched_state now ?p = (Inr s, ?p\<lparr>pn_sched := x\<rparr>)"
    "only_if (s \<noteq> ''off'') (put_state ''paused'' now) () (?p\<lparr>pn_sched := x\<rparr>) = (Inr (), ?p\<lparr>pn_sched := fst y, pn_table := snd y\<rparr>)"
    using pause_frame[of now ?p "''paused''"] by blast
  have "need_client ''sonde'' p = (Inr (), p)" using assms by (simp add: need_client_def ret_def)
  then show ?thesis using y unfolding sonde_swap_def swap_pass_def
    by (simp add: bnd_run modify_def call_out_def clear_menu_def write_text_def on_lcd_def set_menu_def peek_def bnd_def sleep_until_def)
      blast
qed

text \<open>
  A double press cancels the countdown only if the menu is still on when the countdown looks again: if the first
  item, the sonde swap, is chosen within the same second, the countdown goes on.
\<close>

theorem cancel_needs_the_menu:
  assumes "counting_down d n p" "1 < n" "\<not> pn_menu p" "pn_clock p \<le> t" "t + 150000 \<le> u" "u + 150000 \<le> d"
  shows "let q = panel_run (both 1 t) p; stopped = panel_step (Wake 0 d x) q; r = panel_run (both 1 u) q; gone_on = panel_step (Wake 0 d x) r
    in pn_tasks stopped = [] \<and> Shut_down_system \<notin> set (added_calls p stopped) \<and>
       map snd (pn_tasks gone_on) = [In_swap, Countdown (n - 1)]"
proof -
  define q where "q = panel_run (both 1 t) p"
  have q: "counting_down d n q" "pn_menu q" "pn_selected q = 0" "pn_calls q = pn_calls p" "pn_clock q = t + 150000"
    using both_opens[OF assms(1,3,4)] by (simp_all add: q_def Let_def)
  have 1: "pn_tasks (panel_step (Wake 0 d x) q) = [] \<and> pn_calls (panel_step (Wake 0 d x) q) = pn_calls q"
    using q assms by (simp add: counting_down_def panel_step_def in_thread_end count_wake_def count_pass_def bnd_def peek_def
        write_text_def on_lcd_def modify_def ret_def)
  define q1 where "q1 = panel_step (Sample Up_button u 0 u (Inr [])) q"
  have q1: "q1 = q\<lparr>pn_clock := u, pn_up := \<lparr>bs_value = 0, bs_press = Some u, bs_release = bs_release (pn_up q), bs_seen = 0\<rparr>,
      pn_tasks := [(d, Countdown n), (u + double_delay, After_double Up_button u)]\<rparr>"
    using q assms by (simp add: q1_def counting_down_def press_defs)
  define q2 where "q2 = q1\<lparr>pn_clock := u, pn_down := (pn_down q)\<lparr>bs_seen := 0, bs_value := 0, bs_press := Some u\<rparr>, pn_double := True\<rparr>"
  have a: "''sonde'' \<in> set (pn_attrs q2)" using q by (simp add: q2_def q1 counting_down_def)
  obtain y l where y: "sonde_swap u q2 = (Inr (), q2\<lparr>pn_swap_time := u, pn_swapping := True, pn_sched := fst y, pn_table := snd y,
      pn_calls := pn_calls q2 @ [Take ''sonde'', Suspend_sonde, Give ''sonde''], pn_menu := False, pn_lcd := l,
      pn_tasks := pn_tasks q2 @ [(u + seconds 1, In_swap)]\<rparr>)" using sonde_swap_run[OF a, of u] by blast
  have "panel_step (Sample Down_button u 0 u (Inr [])) q1 = thread_end (menu_select u (Inr []) q2)"
  proof -
    have "pn_down q1 = pn_down q" "pressed Up_button q1" "pn_clock q1 = u" "\<not> pn_double q1" "pn_menu q1"
      using q by (simp_all add: q1 counting_down_def pressed_def button_of_def)
    then show ?thesis using q(1) by (simp add: q2_def counting_down_def press_defs)
  qed
  also have "\<dots> = thread_end (sonde_swap u q2)"
    using q by (simp add: q1 q2_def menu_select_def menu_methods_def peek_def bnd_def)
  finally have 2: "panel_step (Sample Down_button u 0 u (Inr [])) q1 = thread_end (sonde_swap u q2)" .
  have r: "panel_run (both 1 u) q = fold panel_step [Wake 1 (u + 100000) (Inr []), Sample Up_button (u + 150000) 1 (u + 150000) (Inr []),
      Sample Down_button (u + 150000) 1 (u + 150000) (Inr [])] (thread_end (sonde_swap u q2))"
    by (simp add: panel_run_def both_def q1_def[symmetric] 2)
  have 3: "pn_tasks (panel_run (both 1 u) q) = [(d, Countdown n), (u + seconds 1, In_swap)] \<and> \<not> pn_menu (panel_run (both 1 u) q) \<and>
      pn_clock (panel_run (both 1 u) q) = u + 150000"
    unfolding r y using q by (simp add: q1 q2_def counting_down_def press_defs double_delay_def)
  have "map snd (pn_tasks (panel_step (Wake 0 d x) (panel_run (both 1 u) q))) = [In_swap, Countdown (n - 1)]"
    using 3 assms by (simp add: panel_step_def in_thread_end count_wake_def count_pass_def bnd_def peek_def
        write_text_def on_lcd_def modify_def sleep_until_def)
  then show ?thesis using 1 q(4) unfolding Let_def q_def[symmetric] by (simp add: added_calls_def)
qed

section \<open>Witnesses\<close>

lemma demo_reached: "panel_reached demo_panel"
  unfolding demo_panel_def by (rule panel_reached.started)



definition swap_panel :: panel where
  "swap_panel = demo_panel\<lparr>pn_swapping := True, pn_welcome := False, pn_swap_time := 0, pn_swap_length := seconds 1800,
     pn_table := ''paused'', pn_tasks := [(0, In_swap)]\<rparr>"

theorem swap_ends_witness:
  "pn_table (panel_run [Pass (seconds 1801), Wake 0 (seconds 1802) (Inr [])] swap_panel) = ''on''"
proof -
  have "pn_swapping swap_panel" "\<not> pn_welcome swap_panel" "0 < length (pn_tasks swap_panel)" "pn_tasks swap_panel ! 0 = (0, In_swap)"
    "pn_clock swap_panel \<le> seconds 1801" "pn_swap_time swap_panel + pn_swap_length swap_panel < seconds 1801"
    "seconds 1801 \<le> seconds 1802" "0 \<le> seconds 1802"
    by (simp_all add: swap_panel_def seconds_def)
  from swap_ends[OF this, of "Inr []"] show ?thesis by (simp add: Let_def swap_panel_def)
qed

theorem long_press_moves_witness:
  "pn_motor (panel_run [Sample Up_button 0 0 0 (Inr []), Wake 0 100000 (Inr []), Wake 0 1000000 (Inr []), Wake 0 1000000 (Inr [])] demo_panel) =
     Some Up_button"
  using long_press_moves[of demo_panel Up_button 0 100000 1000000 1000000 1000000 1000000 0 "Inr []"]
  by (simp add: pressed_def button_of_def double_delay_def long_delay_def seconds_def Let_def)

definition count_panel :: "nat \<Rightarrow> panel" where
  "count_panel n = demo_panel\<lparr>pn_attrs := [''aio'', ''mm3'', ''sonde''], pn_tasks := [(seconds 10, Countdown n)]\<rparr>"

theorem countdown_ends_witness: "pn_calls (panel_run (seconds_from (seconds 10) 2) (count_panel 2)) = [Shut_down_system]"
  using countdown_ends[of "count_panel 2" "seconds 10" 2 2] by (simp add: count_panel_def seconds_def Let_def)

theorem motor_and_end_guarded_witness:
  "Shut_down_system \<in> set (added_calls (count_panel 1) (panel_step (Wake 0 (seconds 10) (Inr [])) (count_panel 1))) \<and>
   (\<exists>d n. pn_tasks (count_panel 1) ! 0 = (d, Countdown n) \<and> n \<le> 1)"
proof -
  have "Shut_down_system \<in> set (added_calls (count_panel 1) (panel_step (Wake 0 (seconds 10) (Inr [])) (count_panel 1)))"
    using countdown_step[of "count_panel 1" "seconds 10" 0 "Inr []"] by (simp add: count_panel_def added_calls_def Let_def seconds_def)
  then show ?thesis
    using motor_and_end_guarded[of Up_button "count_panel 1" "Wake 0 (seconds 10) (Inr [])"] by auto
qed

theorem cancel_needs_the_menu_witness:
  "map snd (pn_tasks (panel_step (Wake 0 (seconds 10) (Inr [])) (panel_run (both 1 1000000) (panel_run (both 1 0) (count_panel 5))))) =
     [In_swap, Countdown 4]"
proof -
  have "counting_down (seconds 10) 5 (count_panel 5)" "(1::nat) < 5" "\<not> pn_menu (count_panel 5)" "pn_clock (count_panel 5) \<le> 0"
    "0 + 150000 \<le> (1000000::int)" "1000000 + 150000 \<le> seconds 10"
    by (simp_all add: counting_down_def count_panel_def pressed_def button_of_def seconds_def)
  from cancel_needs_the_menu[OF this, of "Inr []"] show ?thesis by (simp add: Let_def)
qed

end
