(* ===== verification/Frame.thy ===== *)
theory Frame
  imports Trace
begin

text \<open>
  What reading, subscribing and asking leave alone. A field of a client that none of the elementary changes touches is
  the same after every operation made of them; the locale is the interface, interpreted for the fields whose frame
  the components need.
\<close>

locale steady =
  fixes f :: "broker \<Rightarrow> 'b"
  assumes st_id: "f (b\<lparr>bk_json_id := i\<rparr>) = f b"
    and st_items: "f (b\<lparr>bk_items := its\<rparr>) = f b"
    and st_subs: "f (b\<lparr>bk_subs := ss\<rparr>) = f b"
    and st_running: "f (b\<lparr>bk_sub_running := r\<rparr>) = f b"
    and st_callbacks: "f (b\<lparr>bk_callbacks := cs\<rparr>) = f b"
    and st_seen: "f (b\<lparr>bk_power_on := p, bk_db := d, bk_instr := ins, bk_suspended := su, bk_last_db := ld, bk_last_data := la,
        bk_start := sa\<rparr>) = f b"
begin

lemmas st_fields = st_id st_items st_subs st_running st_callbacks st_seen

lemma st_upd: "f (upd_item n g b) = f b"
  by (simp add: upd_item_def st_items split: option.split)

lemma st_checked: "f (fst (snd (checked_call rpc m t p bw))) = f (fst bw)"
  by (cases bw) (simp add: checked_call_def call_def Let_def st_id split: prod.split)

lemma st_names: "f (snd (snd (subscribe_names ns acc b))) = f b"
proof (induction ns acc b rule: subscribe_names.induct)
  case (2 n ns acc b)
  then show ?case by (auto simp: Let_def st_upd st_fields split: sum.split)
qed simp

lemma st_subscribe: "f (fst (snd (add_subscriptions rpc ns opts t bw))) = f (fst bw)"
proof (cases "bk_initialized (fst bw) \<and> ns \<noteq> []")
  case True
  obtain e c b1 where k: "subscribe_names (ns @ [''message_time'']) [] (fst bw) = (e, c, b1)" by (rule prod_cases3)
  then have "f b1 = f (fst bw)" using st_names[of "ns @ [''message_time'']" "[]" "fst bw"] by simp
  then show ?thesis using True k st_checked[of rpc "''subscribe''" t _ "(b1, snd bw)"]
    by (cases e) (auto simp: add_subscriptions_def Let_def split: prod.split, (metis fst_conv snd_conv)?)
qed (auto simp: add_subscriptions_def)

lemma st_status_item: "f (snd (status_item res mt n b)) = f b"
proof (cases "dget res n")
  case (Some p)
  obtain x y z where "mt = (x, y, z)" by (rule prod_cases3)
  then show ?thesis using Some
    by (cases p; cases "item_of b n") (simp_all add: status_item_def Let_def st_upd split: sum.split)
qed (simp add: status_item_def split: prod.split)

lemma st_status_items: "f (status_items res mt ns b) = f b"
proof (induction ns arbitrary: b)
  case (Cons n ns)
  obtain e b1 where i: "status_item res mt n b = (e, b1)" by (cases "status_item res mt n b")
  then have "f b1 = f b" using st_status_item[of res mt n b] by simp
  then show ?case using Cons i by (cases e) simp_all
qed simp

lemma st_status: "f (fst (snd (snd (status rpc ns v t bw)))) = f (fst bw)"
proof -
  obtain x b w where c: "call rpc ''status'' t (Some (PDict [(''data'', PList (map PStr (remove1 ''message_time'' ns))),
                (''style'', PStr (if v then ''verbose'' else ''terse''))])) bw = (x, b, w)" by (rule prod_cases3)
  then have b: "f b = f (fst bw)" by (auto simp: call_def st_id Let_def split: prod.splits)
  show ?thesis
  proof (cases x)
    case (PDict d)
    then show ?thesis using b c
      by (cases "dget_or d ''result'' PNone") (auto simp: status_def Let_def st_status_items split: pyval.split)
  qed (use b c in \<open>simp_all add: status_def Let_def\<close>)
qed

lemma st_value: "f (fst (snd (value_getter rpc now n bw))) = f (fst bw)"
proof -
  have "f (fst (snd (case status rpc ns False None bw of (r, ms, bw1) \<Rightarrow> (Inr (g bw1) :: pyval res, bw1)))) = f (fst bw)"
    for ns and g :: "_ \<Rightarrow> pyval"
    using st_status[of rpc ns False None bw] by (auto split: prod.split)
  then show ?thesis by (simp add: value_getter_def Let_def split: option.split)
qed

lemma st_get_value: "f (fst (snd (get_value rpc ns v t bw))) = f (fst bw)"
proof (cases "resolve_names (fst bw) ns")
  case (Inr r)
  show ?thesis
  proof (cases r)
    case (Some ms)
    then show ?thesis using Inr st_status[of rpc ms v t bw] by (auto simp: get_value_def split: prod.split pyval.split)
  qed (simp add: Inr get_value_def)
qed (simp add: get_value_def)

lemma st_broker_status: "f (fst (snd (broker_status rpc t bw))) = f (fst bw)"
proof -
  obtain r b w where c: "checked_call rpc ''broker_status'' t None bw = (r, b, w)" by (rule prod_cases3)
  then show ?thesis using st_checked[of rpc "''broker_status''" t None bw] by (simp add: broker_status_def st_seen)
qed

lemma st_unsubscribe_names: "f (snd (snd (unsubscribe_names ns acc b))) = f b"
  by (induction ns acc b rule: unsubscribe_names.induct) (auto simp: st_subs split: sum.split)

lemma st_unsub_fold: "f (fold unsub_local ns b) = f b"
  by (induction ns arbitrary: b) (simp_all add: unsub_local_def st_upd st_subs)

lemma st_unsubscribe_pass: "f (fst (snd (unsubscribe_pass rpc ns t bw))) = f (fst bw)"
proof -
  obtain e c b1 where k: "unsubscribe_names ns [] (fst bw) = (e, c, b1)" by (rule prod_cases3)
  have b1: "f b1 = f (fst bw)" using st_unsubscribe_names[of ns "[]" "fst bw"] k by simp
  have "f (fst (snd (case checked_call rpc ''unsubscribe'' t p (b2, snd bw) of (r, b3, w3) \<Rightarrow> (None :: pyexn option, fold unsub_local cs b3, w3)))) = f b2"
    for p b2 cs using st_checked[of rpc "''unsubscribe''" t p "(b2, snd bw)"] by (auto simp: st_unsub_fold split: prod.split)
  then show ?thesis using k b1 by (cases e) (simp_all add: unsubscribe_pass_def Let_def st_upd st_subs)
qed

lemma st_unsubscribe: "f (fst (snd (unsubscribe n rpc ns t bw))) = f (fst bw)"
proof (induction n arbitrary: ns t bw)
  case (Suc n)
  obtain e b1 w1 where k: "unsubscribe_pass rpc ns t bw = (e, b1, w1)" by (rule prod_cases3)
  then have "f b1 = f (fst bw)" using st_unsubscribe_pass[of rpc ns t bw] by simp
  then show ?case using Suc k by (cases e) (simp_all add: st_running)
qed simp

lemma st_unsubscribe_all: "f (fst (snd (unsubscribe_all n rpc bw))) = f (fst bw)"
proof -
  obtain e b1 w1 where k: "(if bk_subs (fst bw) \<noteq> [] then unsubscribe n rpc (dkeys (bk_subs (fst bw))) None bw else (None, bw)) = (e, b1, w1)"
    by (rule prod_cases3)
  then have "f b1 = f (fst bw)"
    using st_unsubscribe[of n rpc "dkeys (bk_subs (fst bw))" None bw] by (auto split: if_splits)
  moreover have "f (b1\<lparr>bk_callbacks := [], bk_subs := []\<rparr>) = f b1" by (simp add: st_callbacks st_subs)
  ultimately show ?thesis using k by (cases e) (simp_all add: unsubscribe_all_def)
qed

lemmas st_reads = st_checked st_subscribe st_status st_value st_get_value st_broker_status st_unsubscribe st_unsubscribe_all

end

interpretation initialized: steady bk_initialized
  by unfold_locales simp_all

interpretation token: steady bk_token
  by unfold_locales simp_all

end
