(* ===== verification/Transect.thy ===== *)
theory Transect
  imports Cast Database Frame
begin

text \<open>
  The other installation, a ferry that samples along its route: \<open>Transect\<close> and \<open>DataControl\<close> of
  src/python/FerryMon/avp_data_ctl.py and the client of the flow meter in src/python/FerryMon/avp_broker.py. The
  brokers are processes of their own: every client has a world of its own here.
\<close>

section \<open>The valve\<close>

definition water_command :: "string \<Rightarrow> pyval" where
  "water_command c = PDict [(''cmd'', PStr c), (''nLineReply'', PInt 3)]"

definition water_on :: "'w rpc_fun \<Rightarrow> (broker \<times> 'w, pyval) act" where
  "water_on rpc = if_ready (PDict []) (ask rpc ''send_command'' (Some 10) (Some (water_command ''water_on'')))"

definition water_off :: "'w rpc_fun \<Rightarrow> (broker \<times> 'w, pyval) act" where
  "water_off rpc = if_ready (PDict []) (ask rpc ''send_command'' (Some 10) (Some (water_command ''water_off'')))"

section \<open>A transect\<close>

text \<open>
  \<open>tr_base\<close> is the object for the table, None before there is one. The count of started transects is never
  changed.
\<close>

record 'w transect =
  tr_sonde :: "broker \<times> 'w"
  tr_gps :: "broker \<times> 'w"
  tr_flow :: "broker \<times> 'w"
  tr_base :: "avp_db option"
  tr_server :: 'w
  tr_number :: "int option"
  tr_wipe :: bool
  tr_abort :: "pyval dict"
  tr_started :: int
  tr_completed :: int

text \<open>
  What the operations meet: brokers, the database, whose object may not be constructed, the clock, the passes
  of the loop that waits for the wiper, and the limits of the flow rate, which may be missing.
\<close>

record 'w transect_io =
  ti_sonde :: "'w rpc_fun"
  ti_gps :: "'w rpc_fun"
  ti_flow :: "'w rpc_fun"
  ti_open :: "avp_db res"
  ti_conn :: "'w connector"
  ti_exec :: "'w server"
  ti_fetch :: "'w fetcher"
  ti_now :: instant
  ti_polls :: "instant list"
  ti_cfg :: sonde_cfg
  ti_program :: string
  ti_low :: "rat option"
  ti_high :: "rat option"

definition by_part :: "('s \<Rightarrow> 'p) \<Rightarrow> ('p \<Rightarrow> 's \<Rightarrow> 's) \<Rightarrow> ('p, 'a) act \<Rightarrow> ('s, 'a) act" where
  "by_part get put m s = (case m (get s) of (r, x) \<Rightarrow> (r, put x s))"

definition t_sonde :: "(broker \<times> 'w, 'a) act \<Rightarrow> ('w transect, 'a) act" where
  "t_sonde = by_part tr_sonde (\<lambda>x s. s\<lparr>tr_sonde := x\<rparr>)"

definition t_gps :: "(broker \<times> 'w, 'a) act \<Rightarrow> ('w transect, 'a) act" where
  "t_gps = by_part tr_gps (\<lambda>x s. s\<lparr>tr_gps := x\<rparr>)"

definition t_flow :: "(broker \<times> 'w, 'a) act \<Rightarrow> ('w transect, 'a) act" where
  "t_flow = by_part tr_flow (\<lambda>x s. s\<lparr>tr_flow := x\<rparr>)"

text \<open>An operation on the table: an attribute that does not exist yet cannot be used.\<close>

definition t_base :: "(avp_db \<times> 'w, 'a) act \<Rightarrow> ('w transect, 'a) act" where
  "t_base m s =
     (case tr_base s of None \<Rightarrow> (Inl AttributeError, s)
      | Some d \<Rightarrow> (case m (d, tr_server s) of (r, d1, w1) \<Rightarrow> (r, s\<lparr>tr_base := Some d1, tr_server := w1\<rparr>)))"

text \<open>An abort; the reason is the fixed part of the message, without numbers and exceptions.\<close>

definition aborted :: "string \<Rightarrow> bool \<Rightarrow> ('w transect, unit) act" where
  "aborted reason parked =
     modify (\<lambda>s. s\<lparr>tr_abort := (let a = dset (dset (tr_abort s) ''type'' (PStr ''soft'')) ''reason'' (PStr reason)
                                in if parked then dset a ''park'' (PBool True) else a)\<rparr>)"

definition not_aborted :: "('w transect, unit) act \<Rightarrow> ('w transect, unit) act" where
  "not_aborted m = bnd (peek tr_abort) (\<lambda>a. if a \<noteq> [] then ret () else m)"

definition s_value :: "'w transect_io \<Rightarrow> string \<Rightarrow> ('w transect, pyval) act" where
  "s_value io n = t_sonde (value_getter (ti_sonde io) (ti_now io) n)"

definition g_value :: "'w transect_io \<Rightarrow> string \<Rightarrow> ('w transect, pyval) act" where
  "g_value io n = t_gps (value_getter (ti_gps io) (ti_now io) n)"

definition f_value :: "'w transect_io \<Rightarrow> string \<Rightarrow> ('w transect, pyval) act" where
  "f_value io n = t_flow (value_getter (ti_flow io) (ti_now io) n)"

text \<open>\<open>pre_config\<close>: loading the configuration anew needs a context, which the object does not have.\<close>

definition transect_config :: "int option \<Rightarrow> bool \<Rightarrow> bool \<Rightarrow> (broker \<times> 'w) \<times> (broker \<times> 'w) \<times> (broker \<times> 'w) \<Rightarrow> ('w transect, unit) act" where
  "transect_config num wiping load clients =
     bnd (modify (\<lambda>s. s\<lparr>tr_number := num, tr_wipe := wiping\<rparr>)) (\<lambda>_.
     if load then fail AttributeError
     else modify (\<lambda>s. s\<lparr>tr_abort := [], tr_sonde := fst clients, tr_gps := fst (snd clients), tr_flow := snd (snd clients)\<rparr>))"

section \<open>The phases\<close>

text \<open>The token of the sonde is taken from another owner; without an answer there is nothing to look for the error in.\<close>

definition transect_tokens :: "'w transect_io \<Rightarrow> ('w transect, unit) act" where
  "transect_tokens io =
     not_aborted (bnd (token_failed (t_sonde (get_token (ti_sonde io) (ti_program io) ''Transect'' True))) (\<lambda>failed.
       if failed then aborted ''Unable to acquire sonde token'' False else ret ()))"

definition transect_status :: "'w transect_io \<Rightarrow> ('w transect, unit) act" where
  "transect_status io =
     not_aborted (steps [
       bnd (t_sonde (reconnect (ti_sonde io))) (\<lambda>off. if off then aborted ''Sonde broker unable to connect to instrument'' False else ret ()),
       ignoring (t_sonde (add_subscriptions (ti_sonde io) [''sampling'', ''logging''] on_change None)),
       ignoring (t_gps (add_subscriptions (ti_gps io) [''lat'', ''lon'', ''mode''] on_change None)),
       ignoring (t_flow (add_subscriptions (ti_flow io) [''flowrate'', ''flowrate_mean30''] on_change None))])"

definition transect_instruments :: "'w transect_io \<Rightarrow> ('w transect, unit) act" where
  "transect_instruments io =
     not_aborted (bnd (s_value io ''sampling'') (\<lambda>v.
       if eq_num v 1 then ret ()
       else bnd (t_sonde (start_sampling (ti_sonde io) (ti_cfg io))) (\<lambda>r.
            if py_in ''error'' r = Inr False then ret () else aborted ''Error starting sampling'' False)))"

text \<open>The position, 0 without a fix; an exception leaves what has been read so far.\<close>

definition transect_position :: "'w transect_io \<Rightarrow> ('w transect, pyval \<times> pyval) act" where
  "transect_position io =
     bnd (t_gps (peek (\<lambda>bw. bk_suspended (fst bw) = Some False))) (\<lambda>on.
     if \<not> on then ret (PInt 0, PInt 0)
     else catching (bnd (g_value io ''mode'') (\<lambda>m.
            if eq_num m 2 \<or> eq_num m 3
            then bnd (g_value io ''lat'') (\<lambda>la. catching (bnd (g_value io ''lon'') (\<lambda>lo. ret (la, lo))) (\<lambda>e. ret (la, PInt 0)))
            else bnd (steps [ignoring (g_value io ''mode''), ignoring (g_value io ''lat''), ignoring (g_value io ''lon'')])
                   (\<lambda>_. ret (PInt 0, PInt 0)))) (\<lambda>e. ret (PInt 0, PInt 0)))"

text \<open>The row of the transect and its number; the number of the database is the largest one, None for an empty table.\<close>

definition int_or_none :: "pyval \<Rightarrow> int option" where
  "int_or_none v = (case v of PInt i \<Rightarrow> Some i | _ \<Rightarrow> None)"

definition transect_row :: "'w transect_io \<Rightarrow> ('w transect, unit) act" where
  "transect_row io =
     bnd (transect_position io) (\<lambda>(la, lo).
     bnd (s_value io ''sonde_ID'') (\<lambda>i.
     bnd (s_value io ''sonde_SN'') (\<lambda>sn.
     bnd (f_value io ''flowrate_mean30'') (\<lambda>fr.
     t_base (\<lambda>dw. case insert_row (ti_conn io) (ti_exec io)
         [(''cast_time'', PInt (ti_now io)), (''lat'', la), (''lon'', lo), (''sonde_id'', i), (''sonde_sn'', sn), (''flow_rate'', fr)] dw of
       (Inl e, row, dw1) \<Rightarrow> (Inl e, dw1) | (Inr r, row, dw1) \<Rightarrow> (Inr (), dw1))))))"

definition transect_number :: "'w transect_io \<Rightarrow> ('w transect, unit) act" where
  "transect_number io =
     bnd (catching (bnd (t_base (cast_number (ti_conn io) (ti_fetch io))) (\<lambda>v. ret (Some v))) (\<lambda>e. ret None)) (\<lambda>v.
     case v of
       None \<Rightarrow> aborted ''Unable to get transect number'' False
     | Some k \<Rightarrow>
         bnd (peek tr_number) (\<lambda>n. bnd (of_res (choose_number n (int_or_none k))) (\<lambda>m. modify (\<lambda>s. s\<lparr>tr_number := m\<rparr>))))"

definition transect_db :: "'w transect_io \<Rightarrow> ('w transect, unit) act" where
  "transect_db io =
     not_aborted (case ti_open io of
        Inl e \<Rightarrow> aborted ''Error initializing Transect database'' False
      | Inr d \<Rightarrow> steps [modify (\<lambda>s. s\<lparr>tr_base := Some d\<rparr>), transect_row io, transect_number io])"

text \<open>
  Wiping: the loop reads how many wipes are left and gives up after 240 seconds; the value tells whether it gave
  up. Afterwards, and only then, sampling is started again.
\<close>

definition wipe_limit :: timespan where
  "wipe_limit = seconds 240"

fun wait_wipes :: "'w rpc_fun \<Rightarrow> instant \<Rightarrow> instant list \<Rightarrow> (broker \<times> 'w, bool) act" where
  "wait_wipes rpc start [] = fail endless"
| "wait_wipes rpc start (t # ts) =
     bnd (numeric (value_getter rpc t ''wipes_left'')) (\<lambda>n.
     if n > 0 then (if t - wipe_limit > start then ret True else wait_wipes rpc start ts) else ret False)"

definition wipe_sensor :: "'w transect_io \<Rightarrow> ('w transect, unit) act" where
  "wipe_sensor io =
     not_aborted (bnd (peek tr_wipe) (\<lambda>wiping.
       if \<not> wiping then ret ()
       else steps [
         bnd (s_value io ''sampling'') (\<lambda>v. if eq_num v 1 then ignoring (t_sonde (stop_sampling (ti_sonde io) (ti_now io) None)) else ret ()),
         ignoring (t_sonde (wipe (ti_sonde io) (ti_cfg io) (ti_now io))),
         ignoring (s_value io ''wipes_left''),
         bnd (t_sonde (wait_wipes (ti_sonde io) (ti_now io) (ti_polls io))) (\<lambda>gave_up.
           if gave_up then aborted ''Unknown Fault, still wiping'' True
           else bnd (s_value io ''sampling'') (\<lambda>v.
             if eq_num v 1 then ret () else ignoring (t_sonde (start_sampling (ti_sonde io) (ti_cfg io)))))]))"

definition gps_period :: "'w transect_io \<Rightarrow> rat \<Rightarrow> ('w transect, unit) act" where
  "gps_period io q =
     steps [ignoring (t_gps (get_token (ti_gps io) (ti_program io) ''Transect'' True)),
            ignoring (t_gps (set_params (ti_gps io) (ti_now io) [(''log_period'', PFloat q)] False None)),
            ignoring (t_gps (plain (token_release (ti_gps io))))]"

definition transect_logging :: "'w transect_io \<Rightarrow> ('w transect, unit) act" where
  "transect_logging io =
     not_aborted (steps [
       gps_period io (2 / 100),
       bnd (peek tr_number) (\<lambda>n.
         t_base (\<lambda>dw. (Inr (), mark_start (ti_conn io) (ti_exec io) (ti_now io) (number_value n) dw))),
       bnd (peek tr_number) (\<lambda>n.
         ignoring (t_sonde (start_logging (ti_sonde io) (ti_cfg io) (ti_now io) (number_value n) None)))])"

text \<open>The warnings of the flow rate only depend on comparisons that may raise.\<close>

definition check_flow_rate :: "'w transect_io \<Rightarrow> ('w transect, unit) act" where
  "check_flow_rate io =
     bnd (f_value io ''flowrate_mean30'') (\<lambda>v.
     case (ti_low io, ti_high io) of
       (Some l, Some h) \<Rightarrow> bnd (of_res (number v)) (\<lambda>_. ret ())
     | (Some l, None) \<Rightarrow> bnd (of_res (number v)) (\<lambda>_. fail AttributeError)
     | _ \<Rightarrow> fail AttributeError)"

section \<open>Starting and finishing\<close>

definition open_valve :: "'w transect_io \<Rightarrow> ('w transect, unit) act" where
  "open_valve io = ignoring (t_flow (water_on (ti_flow io)))"

definition first_try :: "'w transect_io \<Rightarrow> ('w transect, unit) act" where
  "first_try io =
     steps [transect_tokens io, transect_status io, open_valve io, wipe_sensor io, transect_instruments io, transect_db io, transect_logging io]"

definition second_try :: "'w transect_io \<Rightarrow> ('w transect, unit) act" where
  "second_try io =
     steps [transect_tokens io, transect_status io, open_valve io, transect_instruments io, transect_db io, wipe_sensor io, transect_logging io]"

text \<open>The number is raised before anything is tried; a second try, in surroundings of its own, follows an abort.\<close>

definition start_transect :: "'w transect_io \<Rightarrow> 'w transect_io \<Rightarrow> ('w transect, bool) act" where
  "start_transect io io2 =
     bnd (modify (\<lambda>s. s\<lparr>tr_abort := [],
       tr_number := (case tr_number s of Some n \<Rightarrow> if n \<noteq> 0 then Some (n + 1) else Some n | None \<Rightarrow> None)\<rparr>)) (\<lambda>_.
     bnd (first_try io) (\<lambda>_.
     bnd (peek tr_abort) (\<lambda>a.
     bnd (only_if (a \<noteq> []) (bnd (modify (\<lambda>s. s\<lparr>tr_abort := []\<rparr>)) (\<lambda>_. second_try io2)) ()) (\<lambda>_.
     bnd (peek tr_abort) (\<lambda>b.
     if b \<noteq> [] then ret False else bnd (check_flow_rate io2) (\<lambda>_. ret True))))))"

definition transect_stop :: "'w transect_io \<Rightarrow> ('w transect, unit) act" where
  "transect_stop io = steps [gps_period io 2, ignoring (t_sonde (stop_logging (ti_sonde io) None))]"

definition finish_transect :: "'w transect_io \<Rightarrow> ('w transect, unit) act" where
  "finish_transect io =
     steps [
       transect_stop io,
       bnd (s_value io ''sampling'') (\<lambda>v. if eq_num v 1 then ignoring (t_sonde (stop_sampling (ti_sonde io) (ti_now io) None)) else ret ()),
       ignoring (t_flow (water_off (ti_flow io))),
       t_gps (raising (unsubscribe_all 2 (ti_gps io))),
       t_sonde (raising (unsubscribe_all 2 (ti_sonde io))),
       ignoring (t_sonde (plain (token_release (ti_sonde io)))),
       t_base (\<lambda>dw. (Inr (), db_close (fst dw), snd dw)),
       modify (\<lambda>s. if tr_abort s = [] then s\<lparr>tr_completed := tr_completed s + 1\<rparr> else s)]"

definition transect_shutdown :: "'w transect_io \<Rightarrow> 'w transect \<Rightarrow> 'w transect" where
  "transect_shutdown io s =
     s\<lparr>tr_gps := disconnect (ti_gps io) (tr_gps s), tr_sonde := disconnect (ti_sonde io) (tr_sonde s),
       tr_flow := disconnect (ti_flow io) (tr_flow s)\<rparr>"

section \<open>The control of transects\<close>

text \<open>\<open>DataControl\<close> has a client of the GPS of its own; \<open>dc_on\<close> is \<open>transect_started\<close>.\<close>

record 'w control =
  dc_gps :: "broker \<times> 'w"
  dc_transect :: "'w transect"
  dc_on :: bool

text \<open>
  One pass of the main loop: whether the second is one at which the position is checked, whether the
  configuration has the keys of the ports, and what geometry says: whether a port is near and whether the
  position is within the strip along the route; both may raise.
\<close>

record 'w pass_input =
  pi_check :: bool
  pi_now :: instant
  pi_gps :: "'w rpc_fun"
  pi_keys :: bool
  pi_near :: "pyval \<Rightarrow> pyval \<Rightarrow> bool res"
  pi_inside :: "pyval \<Rightarrow> pyval \<Rightarrow> bool res"
  pi_first :: "'w transect_io"
  pi_second :: "'w transect_io"

definition c_gps :: "(broker \<times> 'w, 'a) act \<Rightarrow> ('w control, 'a) act" where
  "c_gps = by_part dc_gps (\<lambda>x s. s\<lparr>dc_gps := x\<rparr>)"

definition c_transect :: "('w transect, 'a) act \<Rightarrow> ('w control, 'a) act" where
  "c_transect = by_part dc_transect (\<lambda>x s. s\<lparr>dc_transect := x\<rparr>)"

text \<open>Mode, latitude and longitude, as far as they could be read.\<close>

definition read_fix :: "'w pass_input \<Rightarrow> (broker \<times> 'w, pyval \<times> pyval \<times> pyval) act" where
  "read_fix i =
     (let rd = value_getter (pi_gps i) (pi_now i)
      in catching (bnd (rd ''mode'') (\<lambda>m.
           if eq_num m 2 \<or> eq_num m 3
           then catching (bnd (rd ''lat'') (\<lambda>la. catching (bnd (rd ''lon'') (\<lambda>lo. ret (m, la, lo))) (\<lambda>e. ret (m, la, PNone))))
                  (\<lambda>e. ret (m, PNone, PNone))
           else ret (m, PNone, PNone))) (\<lambda>e. ret (PNone, PNone, PNone)))"

definition judge_fix :: "'w pass_input \<Rightarrow> pyval \<times> pyval \<times> pyval \<Rightarrow> bool" where
  "judge_fix i f =
     (case f of (m, la, lo) \<Rightarrow>
        (eq_num m 2 \<or> eq_num m 3) \<and> la \<noteq> PStr ''NaN'' \<and> lo \<noteq> PStr ''NaN'' \<and> pi_near i la lo = Inr False \<and> pi_inside i la lo = Inr True)"

text \<open>\<open>_gps_checks\<close>; None, like False, is not True for the caller.\<close>

definition gps_checks :: "'w pass_input \<Rightarrow> (broker \<times> 'w, bool option) act" where
  "gps_checks i =
     bnd (peek (\<lambda>bw. bk_linked (fst bw))) (\<lambda>linked.
     if \<not> linked \<or> \<not> pi_keys i then ret None else bnd (read_fix i) (\<lambda>f. ret (Some (judge_fix i f))))"

definition follow_position :: "'w pass_input \<Rightarrow> bool option \<Rightarrow> ('w control, unit) act" where
  "follow_position i r =
     bnd (peek dc_on) (\<lambda>on.
     if r = Some True
     then (if on then ret ()
           else bnd (c_transect (start_transect (pi_first i) (pi_second i))) (\<lambda>ok. modify (\<lambda>s. s\<lparr>dc_on := ok\<rparr>)))
     else (if on then bnd (c_transect (finish_transect (pi_first i))) (\<lambda>_. modify (\<lambda>s. s\<lparr>dc_on := False\<rparr>)) else ret ()))"

text \<open>Without a connection an attribute is used that does not exist.\<close>

definition link_test :: "('w control, unit) act" where
  "link_test = bnd (peek (\<lambda>s. bk_linked (fst (dc_gps s)))) (\<lambda>linked. if linked then ret () else fail AttributeError)"

definition control_pass :: "'w pass_input \<Rightarrow> ('w control, unit) act" where
  "control_pass i =
     (if \<not> pi_check i then ret ()
      else bnd (c_gps (gps_checks i)) (\<lambda>r. bnd (follow_position i r) (\<lambda>_. link_test)))"

fun control_passes :: "'w pass_input list \<Rightarrow> ('w control, unit) act" where
  "control_passes [] = ret ()"
| "control_passes (i # is) = bnd (control_pass i) (\<lambda>_. control_passes is)"

definition control_shutdown :: "'w pass_input \<Rightarrow> 'w control \<Rightarrow> 'w control" where
  "control_shutdown i s =
     (case unsubscribe_all 2 (pi_gps i) (dc_gps s) of
        (Some e, g) \<Rightarrow> s\<lparr>dc_gps := g\<rparr> | (None, g) \<Rightarrow> s\<lparr>dc_gps := disconnect (pi_gps i) g\<rparr>)"

text \<open>
  The program: passes until a signal ends the loop; an exception is reported and only the client of the control
  is shut down.
\<close>

definition control_program :: "'w pass_input list \<Rightarrow> 'w pass_input \<Rightarrow> 'w control \<Rightarrow> 'w control" where
  "control_program is fin s =
     (case bnd (control_passes is) (\<lambda>_. bnd (peek dc_on) (\<lambda>on.
        only_if on (c_transect (finish_transect (pi_first fin))) ())) s of
        (Inr u, s1) \<Rightarrow> control_shutdown fin (s1\<lparr>dc_transect := transect_shutdown (pi_first fin) (dc_transect s1)\<rparr>)
      | (Inl e, s1) \<Rightarrow> control_shutdown fin s1)"

section \<open>What the phases keep\<close>

text \<open>
  A relation between the states of a transect that is kept by every phase, if it is kept by operations on the sonde,
  the GPS and the table, by an abort, by the choice of a number, and by what is asked of the flow meter.
\<close>

locale transect_rel = kept R for R :: "'w transect \<Rightarrow> 'w transect \<Rightarrow> bool" +
  fixes io :: "'w transect_io"
  assumes r_sonde: "R s (s\<lparr>tr_sonde := x\<rparr>)" and r_gps: "R s (s\<lparr>tr_gps := x\<rparr>)"
    and r_table: "R s (s\<lparr>tr_base := d, tr_server := w\<rparr>)" and r_abort: "R s (s\<lparr>tr_abort := a\<rparr>)"
    and r_number: "choose_number (tr_number s) k = Inr m \<Longrightarrow> R s (s\<lparr>tr_number := m\<rparr>)"
    and f_subscribe: "keeps R (t_flow (add_subscriptions (ti_flow io) ns opts None))"
    and f_read: "keeps R (f_value io n)"
begin

lemma k_sonde: "keeps R (t_sonde m)"
  by (auto simp: keeps_def t_sonde_def by_part_def r_sonde split: prod.split)

lemma k_gps: "keeps R (t_gps m)"
  by (auto simp: keeps_def t_gps_def by_part_def r_gps split: prod.split)

lemma k_base: "keeps R (t_base m)"
  by (auto simp: keeps_def t_base_def r_table r_refl split: prod.split option.split)

lemma k_values: "keeps R (s_value io n)" "keeps R (g_value io n)"
  by (simp_all add: s_value_def g_value_def k_sonde k_gps)

lemma k_aborted: "keeps R (aborted reason parked)"
  by (simp add: keeps_def aborted_def modify_def r_abort)

lemma k_not_aborted: "keeps R m \<Longrightarrow> keeps R (not_aborted m)"
  by (auto simp: not_aborted_def intro!: k_bnd k_peek k_ret)

lemmas phase_rules = k_rules k_sonde k_gps k_base k_values k_aborted k_ignoring k_not_aborted f_subscribe f_read

lemma k_tokens: "keeps R (transect_tokens io)"
  unfolding transect_tokens_def token_failed_def by (auto intro!: phase_rules)

lemma k_status: "keeps R (transect_status io)"
  unfolding transect_status_def steps_simps by (auto intro!: phase_rules)

lemma k_instruments: "keeps R (transect_instruments io)"
  unfolding transect_instruments_def by (auto intro!: phase_rules)

lemma k_position: "keeps R (transect_position io)"
  unfolding transect_position_def steps_simps by (auto intro!: phase_rules)

lemma k_row: "keeps R (transect_row io)"
  unfolding transect_row_def by (auto intro!: phase_rules k_position split: prod.split)

lemma k_number: "keeps R (transect_number io)"
proof -
  have "keeps R (bnd (peek tr_number) (\<lambda>n. bnd (of_res (choose_number n k)) (\<lambda>m. modify (\<lambda>s. s\<lparr>tr_number := m\<rparr>))))" for k
    by (auto simp: keeps_def bnd_def peek_def of_res_def modify_def r_refl r_number split: sum.split)
  then show ?thesis unfolding transect_number_def
    by (intro k_bnd k_catching k_base k_ret) (simp add: k_aborted split: option.split)
qed

lemma k_db: "keeps R (transect_db io)"
proof -
  have "keeps R (modify (\<lambda>s. s\<lparr>tr_base := d\<rparr>))" for d
  proof (unfold keeps_def modify_def, simp, intro allI)
    fix s show "R s (s\<lparr>tr_base := d\<rparr>)" using r_table[where s = s and d = d and w = "tr_server s"] by simp
  qed
  then show ?thesis unfolding transect_db_def steps_simps by (auto intro!: phase_rules k_row k_number split: sum.split)
qed

lemma k_wipe: "keeps R (wipe_sensor io)"
  unfolding wipe_sensor_def steps_simps by (auto intro!: phase_rules)

lemma k_period: "keeps R (gps_period io q)"
  unfolding gps_period_def steps_simps by (auto intro!: phase_rules)

lemma k_logging: "keeps R (transect_logging io)"
  unfolding transect_logging_def steps_simps by (auto intro!: phase_rules k_period)

lemma k_flow_rate: "keeps R (check_flow_rate io)"
  unfolding check_flow_rate_def by (auto intro!: phase_rules split: option.split)

lemma k_clear: "keeps R (modify (\<lambda>s. s\<lparr>tr_abort := []\<rparr>))"
  by (simp add: keeps_def modify_def r_abort)

lemma k_stop: "keeps R (transect_stop io)"
  unfolding transect_stop_def steps_simps by (auto intro!: phase_rules k_period)

lemma k_tries: "keeps R (open_valve io) \<Longrightarrow> keeps R (first_try io) \<and> keeps R (second_try io)"
  unfolding first_try_def second_try_def steps_simps
  by (auto intro!: k_bnd k_ret k_tokens k_status k_wipe k_instruments k_db k_logging)

end

text \<open>What is traced: the calls of the flow meter; of them the commands to the valve.\<close>

definition wired :: "('w \<times> trace) transect_io \<Rightarrow> 'w rpc_fun \<Rightarrow> ('w \<times> trace) transect_io" where
  "wired io f = io\<lparr>ti_flow := traced f\<rparr>"

definition flow_trace :: "('w \<times> trace) transect \<Rightarrow> trace" where
  "flow_trace s = snd (snd (tr_flow s))"

definition valve_cmds :: "trace \<Rightarrow> pyval option list" where
  "valve_cmds l = map snd (filter (\<lambda>c. fst c = ''send_command'') l)"

definition open_cmd :: "pyval option" where
  "open_cmd = Some (water_command ''water_on'')"

definition close_cmd :: "pyval option" where
  "close_cmd = Some (water_command ''water_off'')"

text \<open>The calls added send no command but that of opening the valve, or none at all.\<close>

definition only_opens :: "('w \<times> trace) transect \<Rightarrow> ('w \<times> trace) transect \<Rightarrow> bool" where
  "only_opens s t \<longleftrightarrow> (\<exists>n. valve_cmds (flow_trace t) = valve_cmds (flow_trace s) @ replicate n open_cmd)"

definition no_command :: "('w \<times> trace) transect \<Rightarrow> ('w \<times> trace) transect \<Rightarrow> bool" where
  "no_command s t \<longleftrightarrow> valve_cmds (flow_trace t) = valve_cmds (flow_trace s)"

lemma flow_quiet:
  assumes "keeps (sent M) m" "''send_command'' \<notin> M"
  shows "keeps no_command (t_flow m)"
  unfolding keeps_def
proof
  fix s :: "('a \<times> trace) transect"
  obtain r x where m: "m (tr_flow s) = (r, x)" by (rule prod.exhaust)
  then have "sent M (tr_flow s) x" using assms(1) by (auto dest: keepsD)
  then obtain rest where rest: "snd (snd x) = snd (snd (tr_flow s)) @ rest" "fst ` set rest \<subseteq> M" by (auto simp: sent_def)
  have "filter (\<lambda>c. fst c = ''send_command'') rest = []" using rest(2) assms(2) by (force simp: filter_empty_conv)
  then show "no_command s (snd (t_flow m s))"
    using m rest(1) by (simp add: t_flow_def by_part_def no_command_def valve_cmds_def flow_trace_def)
qed

lemma flow_asks:
  "keeps no_command (t_flow (add_subscriptions (traced f) ns opts t))" "keeps no_command (t_flow (value_getter (traced f) now n))"
  by (rule flow_quiet[where M = "{''subscribe'', ''status''}"], auto intro: calls_intros)+

interpretation calm: transect_rel no_command "wired io f" for io :: "('w \<times> trace) transect_io" and f :: "'w rpc_fun"
proof (unfold_locales, goal_cases)
  case (8 ns opts)
  then show ?case by (simp add: wired_def flow_asks)
next
  case (9 n)
  then show ?case by (simp add: wired_def f_value_def flow_asks)
qed (simp_all add: no_command_def flow_trace_def)

lemma quiet_opens: "keeps no_command m \<Longrightarrow> keeps only_opens m"
  by (auto simp: keeps_def no_command_def only_opens_def intro: exI[of _ 0])

interpretation valve: transect_rel only_opens "wired io f" for io :: "('w \<times> trace) transect_io" and f :: "'w rpc_fun"
proof (unfold_locales, goal_cases)
  case (2 s t u)
  then obtain n m where "valve_cmds (flow_trace t) = valve_cmds (flow_trace s) @ replicate n open_cmd"
    "valve_cmds (flow_trace u) = valve_cmds (flow_trace t) @ replicate m open_cmd" by (auto simp: only_opens_def)
  then show ?case unfolding only_opens_def by (intro exI[of _ "n + m"]) (simp add: replicate_add)
next
  case (8 ns opts)
  then show ?case by (rule quiet_opens[OF calm.f_subscribe])
next
  case (9 n)
  then show ?case by (rule quiet_opens[OF calm.f_read])
qed (auto simp: only_opens_def flow_trace_def intro: exI[of _ 0])

text \<open>The command itself.\<close>

lemma valve_sent:
  assumes "bk_initialized (fst (tr_flow s))"
  shows "fst (t_flow (water_on (traced f)) s) = Inr r \<Longrightarrow>
      valve_cmds (flow_trace (snd (t_flow (water_on (traced f)) s))) = valve_cmds (flow_trace s) @ [open_cmd]"
    "fst (t_flow (water_off (traced f)) s) = Inr r \<Longrightarrow>
      valve_cmds (flow_trace (snd (t_flow (water_off (traced f)) s))) = valve_cmds (flow_trace s) @ [close_cmd]"
proof -
  obtain b w l where s: "tr_flow s = (b, w, l)" by (rule prod_cases3)
  show "fst (t_flow (water_on (traced f)) s) = Inr r \<Longrightarrow>
      valve_cmds (flow_trace (snd (t_flow (water_on (traced f)) s))) = valve_cmds (flow_trace s) @ [open_cmd]"
    "fst (t_flow (water_off (traced f)) s) = Inr r \<Longrightarrow>
      valve_cmds (flow_trace (snd (t_flow (water_off (traced f)) s))) = valve_cmds (flow_trace s) @ [close_cmd]"
    using assms s by (simp_all add: t_flow_def by_part_def water_on_def water_off_def if_ready_def ask_def plain_def
        checked_call_traced flow_trace_def valve_cmds_def open_cmd_def close_cmd_def)
qed

lemma open_valve_keeps: "keeps only_opens (open_valve (wired io f))"
proof -
  have "only_opens s (snd (t_flow (water_on (traced f)) s))" for s :: "('a \<times> trace) transect"
  proof (cases "bk_initialized (fst (tr_flow s))")
    case True
    obtain r x where m: "water_on (traced f) (tr_flow s) = (Inr r, x)"
      using True by (cases "tr_flow s") (simp add: water_on_def if_ready_def ask_def plain_def checked_call_traced)
    then have "fst (t_flow (water_on (traced f)) s) = Inr r" by (simp add: t_flow_def by_part_def)
    then show ?thesis using valve_sent(1)[OF True] by (auto simp: only_opens_def intro: exI[of _ 1])
  next
    case False
    then show ?thesis
      by (auto simp: t_flow_def by_part_def water_on_def if_ready_def only_opens_def flow_trace_def intro: exI[of _ 0] split: prod.split)
  qed
  then have "keeps only_opens (t_flow (water_on (traced f)))" by (simp add: keeps_def)
  then show ?thesis unfolding open_valve_def by (auto intro!: valve.k_ignoring simp: wired_def)
qed

lemma start_opens: "keeps only_opens (start_transect (wired io f) (wired io2 f))"
proof -
  have "keeps only_opens (modify (\<lambda>s. s\<lparr>tr_abort := a, tr_number := n s\<rparr>))" for a n
    by (auto simp: keeps_def modify_def only_opens_def flow_trace_def intro: exI[of _ 0])
  moreover have "keeps only_opens (modify (\<lambda>s. s\<lparr>tr_abort := []\<rparr>))"
    by (auto simp: keeps_def modify_def only_opens_def flow_trace_def intro: exI[of _ 0])
  ultimately show ?thesis unfolding start_transect_def
    by (intro valve.k_bnd valve.k_if valve.k_ret valve.k_peek valve.k_only_if valve.k_flow_rate)
      (simp_all add: valve.k_tries open_valve_keeps valve.k_bnd)
qed

definition flow_same :: "'w transect \<Rightarrow> 'w transect \<Rightarrow> bool" where
  "flow_same s t \<longleftrightarrow> bk_initialized (fst (tr_flow t)) = bk_initialized (fst (tr_flow s))"

lemma flow_same_part: "(\<And>bw. bk_initialized (fst (snd (m bw))) = bk_initialized (fst bw)) \<Longrightarrow> keeps flow_same (t_flow m)"
proof (unfold keeps_def, intro allI)
  fix s :: "'a transect"
  assume m: "\<And>bw. bk_initialized (fst (snd (m bw))) = bk_initialized (fst bw)"
  show "flow_same s (snd (t_flow m s))"
    using m[of "tr_flow s"] by (cases "m (tr_flow s)") (simp add: t_flow_def by_part_def flow_same_def)
qed

interpretation ready: transect_rel flow_same io for io :: "'w transect_io"
proof (unfold_locales, goal_cases)
  case (8 ns opts)
  show ?case by (rule flow_same_part) (rule initialized.st_subscribe)
next
  case (9 n)
  show ?case unfolding f_value_def by (rule flow_same_part) (rule initialized.st_value)
qed (simp_all add: flow_same_def)

text \<open>The counters, the number.\<close>

definition same_counts :: "'w transect \<Rightarrow> 'w transect \<Rightarrow> bool" where
  "same_counts s t \<longleftrightarrow> tr_started t = tr_started s \<and> tr_completed t = tr_completed s"

definition number_grows :: "'w transect \<Rightarrow> 'w transect \<Rightarrow> bool" where
  "number_grows s t \<longleftrightarrow> (\<forall>n. tr_number s = Some n \<longrightarrow> (\<exists>m \<ge> n. tr_number t = Some m))"

lemma other_fields: "tr_number (snd (t_flow m s)) = tr_number s" "tr_started (snd (t_flow m s)) = tr_started s"
    "tr_completed (snd (t_flow m s)) = tr_completed s" "tr_abort (snd (t_flow m s)) = tr_abort s"
  by (simp_all add: t_flow_def by_part_def split: prod.split)

interpretation counts: transect_rel same_counts io for io :: "'w transect_io"
  by unfold_locales (auto simp: same_counts_def keeps_def f_value_def other_fields)

interpretation grows: transect_rel number_grows io for io :: "'w transect_io"
proof (unfold_locales, goal_cases)
  case (2 s t u)
  then show ?case unfolding number_grows_def by (meson order_trans)
next
  case (7 s k m)
  then show ?case by (auto simp: number_grows_def choose_number_def split: option.splits if_splits)
qed (auto simp: number_grows_def keeps_def f_value_def other_fields)

lemma start_grows:
  assumes "tr_number s = Some n" "0 < n"
  shows "\<exists>m > n. tr_number (snd (start_transect io io2 s)) = Some m"
proof -
  let ?s = "s\<lparr>tr_abort := [], tr_number := Some (n + 1)\<rparr>"
  have o: "keeps number_grows (open_valve j)" for j :: "'a transect_io"
    unfolding open_valve_def by (intro grows.k_ignoring) (simp add: keeps_def number_grows_def other_fields)
  let ?rest = "bnd (first_try io) (\<lambda>_. bnd (peek tr_abort) (\<lambda>a.
     bnd (only_if (a \<noteq> []) (bnd (modify (\<lambda>s. s\<lparr>tr_abort := []\<rparr>)) (\<lambda>_. second_try io2)) ()) (\<lambda>_.
     bnd (peek tr_abort) (\<lambda>b. if b \<noteq> [] then ret False else bnd (check_flow_rate io2) (\<lambda>_. ret True)))))"
  have "keeps number_grows ?rest"
    by (intro grows.k_bnd grows.k_if grows.k_ret grows.k_peek grows.k_only_if grows.k_flow_rate grows.k_clear)
      (simp_all add: grows.k_tries o)
  then have "number_grows ?s (snd (?rest ?s))" by (simp add: keeps_def)
  then obtain m where "m \<ge> n + 1" "tr_number (snd (?rest ?s)) = Some m" by (auto simp: number_grows_def)
  moreover have "start_transect io io2 s = ?rest ?s" using assms by (simp add: start_transect_def bnd_def modify_def)
  ultimately show ?thesis by (intro exI[of _ m]) simp
qed

lemma bnd_Inr: "bnd m f s = (Inr y, t) \<Longrightarrow> \<exists>x u. m s = (Inr x, u) \<and> f x u = (Inr y, t)"
  by (auto simp: bnd_def split: prod.splits sum.splits)

text \<open>A start is its first two phases, the opening of the valve, and the rest.\<close>

definition start_rest :: "'w transect_io \<Rightarrow> 'w transect_io \<Rightarrow> ('w transect, bool) act" where
  "start_rest io io2 =
     bnd (steps [wipe_sensor io, transect_instruments io, transect_db io, transect_logging io]) (\<lambda>_.
     bnd (peek tr_abort) (\<lambda>a.
     bnd (only_if (a \<noteq> []) (bnd (modify (\<lambda>s. s\<lparr>tr_abort := []\<rparr>)) (\<lambda>_. second_try io2)) ()) (\<lambda>_.
     bnd (peek tr_abort) (\<lambda>b.
     if b \<noteq> [] then ret False else bnd (check_flow_rate io2) (\<lambda>_. ret True)))))"

lemma start_split:
  "start_transect io io2 =
     bnd (modify (\<lambda>s. s\<lparr>tr_abort := [],
       tr_number := (case tr_number s of Some n \<Rightarrow> if n \<noteq> 0 then Some (n + 1) else Some n | None \<Rightarrow> None)\<rparr>)) (\<lambda>_.
     bnd (transect_tokens io) (\<lambda>_. bnd (transect_status io) (\<lambda>_. bnd (open_valve io) (\<lambda>_. start_rest io io2))))"
  by (simp add: start_transect_def first_try_def start_rest_def bnd_assoc)

lemma rest_opens: "keeps only_opens (start_rest (wired io f) (wired io2 f))"
  unfolding start_rest_def
  by (intro valve.k_bnd valve.k_if valve.k_ret valve.k_peek valve.k_only_if valve.k_flow_rate valve.k_clear valve.k_steps)
    (auto simp: valve.k_tries open_valve_keeps valve.k_wipe valve.k_instruments valve.k_db valve.k_logging)

lemma start_commands:
  assumes "start_transect (wired io f) (wired io2 f) s = (Inr ok, t)" "bk_initialized (fst (tr_flow s))"
  shows "\<exists>n. valve_cmds (flow_trace t) = valve_cmds (flow_trace s) @ replicate (Suc n) open_cmd"
proof -
  define s1 where "s1 = s\<lparr>tr_abort := [],
    tr_number := (case tr_number s of Some n \<Rightarrow> if n \<noteq> 0 then Some (n + 1) else Some n | None \<Rightarrow> None)\<rparr>"
  have s1: "flow_trace s1 = flow_trace s" "bk_initialized (fst (tr_flow s1))" using assms(2) by (simp_all add: s1_def flow_trace_def)
  have "bnd (transect_tokens (wired io f)) (\<lambda>_. bnd (transect_status (wired io f)) (\<lambda>_. bnd (open_valve (wired io f)) (\<lambda>_.
      start_rest (wired io f) (wired io2 f)))) s1 = (Inr ok, t)"
    using assms(1) by (simp add: start_split bnd_def modify_def s1_def)
  then obtain a b c where a: "transect_tokens (wired io f) s1 = (Inr (), a)" and b: "transect_status (wired io f) a = (Inr (), b)"
    and c: "open_valve (wired io f) b = (Inr (), c)" and t: "start_rest (wired io f) (wired io2 f) c = (Inr ok, t)"
    by (auto dest!: bnd_Inr)
  have ab: "no_command s1 a" "no_command a b" "flow_same s1 a" "flow_same a b"
    using keepsD[OF calm.k_tokens a] keepsD[OF calm.k_status b] keepsD[OF ready.k_tokens a] keepsD[OF ready.k_status b] by simp_all
  then have i: "bk_initialized (fst (tr_flow b))" using s1(2) by (simp add: flow_same_def)
  have "t_flow (water_on (traced f)) b = (fst (t_flow (water_on (traced f)) b), c) \<and> (\<exists>r. fst (t_flow (water_on (traced f)) b) = Inr r)"
    using c by (cases "t_flow (water_on (traced f)) b"; cases "fst (t_flow (water_on (traced f)) b)")
      (auto simp: open_valve_def ignoring_def wired_def bnd_def ret_def)
  then have "valve_cmds (flow_trace c) = valve_cmds (flow_trace b) @ [open_cmd]" using valve_sent(1)[OF i] by (metis snd_conv)
  moreover have "only_opens c t" using keepsD[OF rest_opens t] .
  ultimately show ?thesis using ab s1(1) unfolding only_opens_def no_command_def by (auto simp: replicate_append_same[symmetric])
qed

text \<open>What operations on the parts leave of the rest.\<close>

definition same_rest :: "'w transect \<Rightarrow> 'w transect \<Rightarrow> bool" where
  "same_rest s t \<longleftrightarrow> tr_abort t = tr_abort s \<and> tr_completed t = tr_completed s \<and> tr_started t = tr_started s \<and> tr_number t = tr_number s"

interpretation still: kept same_rest
  by unfold_locales (simp_all add: same_rest_def)

lemma still_parts: "keeps same_rest (t_sonde m1)" "keeps same_rest (t_gps m2)" "keeps same_rest (t_flow m3)" "keeps same_rest (t_base m4)"
  by (auto simp: keeps_def t_sonde_def t_gps_def t_flow_def t_base_def by_part_def same_rest_def split: prod.split option.split)

lemma still_ignoring: "keeps same_rest m \<Longrightarrow> keeps same_rest (ignoring m)"
  by (auto simp: ignoring_def intro!: still.k_bnd still.k_ret)

lemma still_flow_rate: "keeps same_rest (check_flow_rate io)"
  unfolding check_flow_rate_def f_value_def by (auto intro!: still.k_rules still_parts split: option.split)

lemma start_ok:
  assumes "start_transect io io2 s = (Inr ok, t)"
  shows "ok \<longleftrightarrow> tr_abort t = []"
proof -
  obtain u where u: "bnd (peek tr_abort) (\<lambda>b. if b \<noteq> [] then ret False else bnd (check_flow_rate io2) (\<lambda>_. ret True)) u = (Inr ok, t)"
    using assms unfolding start_transect_def by (blast dest: bnd_Inr)
  show ?thesis
  proof (cases "tr_abort u = []")
    case True
    obtain r v where v: "check_flow_rate io2 u = (r, v)" by (rule prod.exhaust)
    then have "same_rest u v" using keepsD[OF still_flow_rate] by blast
    then show ?thesis using u v True by (cases r) (auto simp: bnd_def peek_def ret_def same_rest_def)
  next
    case False
    then show ?thesis using u by (auto simp: bnd_def peek_def ret_def)
  qed
qed

lemma start_counts: "keeps same_counts (start_transect io io2)"
proof -
  have o: "keeps same_counts (open_valve j)" for j :: "'a transect_io"
    unfolding open_valve_def by (intro counts.k_ignoring) (simp add: keeps_def same_counts_def other_fields)
  have "keeps same_counts (modify (\<lambda>s. s\<lparr>tr_abort := [], tr_number := n s\<rparr>))" for n :: "'a transect \<Rightarrow> int option"
    by (simp add: keeps_def modify_def same_counts_def)
  then show ?thesis unfolding start_transect_def
    by (intro counts.k_bnd counts.k_if counts.k_ret counts.k_peek counts.k_only_if counts.k_flow_rate counts.k_clear)
      (simp_all add: counts.k_tries o)
qed

text \<open>A finish is what comes before the valve, the valve, what comes after it, and the counter.\<close>

definition before_closing :: "'w transect_io \<Rightarrow> ('w transect, unit) act" where
  "before_closing io = steps [
     transect_stop io,
     bnd (s_value io ''sampling'') (\<lambda>v. if eq_num v 1 then ignoring (t_sonde (stop_sampling (ti_sonde io) (ti_now io) None)) else ret ())]"

definition after_closing :: "'w transect_io \<Rightarrow> ('w transect, unit) act" where
  "after_closing io = steps [
     t_gps (raising (unsubscribe_all 2 (ti_gps io))),
     t_sonde (raising (unsubscribe_all 2 (ti_sonde io))),
     ignoring (t_sonde (plain (token_release (ti_sonde io)))),
     t_base (\<lambda>dw. (Inr (), db_close (fst dw), snd dw))]"

definition count_transect :: "('w transect, unit) act" where
  "count_transect = modify (\<lambda>s. if tr_abort s = [] then s\<lparr>tr_completed := tr_completed s + 1\<rparr> else s)"

lemma finish_split:
  "finish_transect io = bnd (before_closing io) (\<lambda>_. bnd (ignoring (t_flow (water_off (ti_flow io)))) (\<lambda>_.
     bnd (after_closing io) (\<lambda>_. count_transect)))"
  by (simp add: finish_transect_def before_closing_def after_closing_def count_transect_def bnd_assoc bnd_ret)

lemma finish_still: "keeps same_rest (before_closing io)" "keeps same_rest (after_closing io)"
  unfolding before_closing_def after_closing_def transect_stop_def gps_period_def s_value_def steps_simps
  by (auto intro!: still.k_rules still_parts still_ignoring)

lemma finish_calm: "keeps no_command (before_closing (wired io f))" "keeps no_command (after_closing (wired io f))"
    "keeps flow_same (before_closing io2)"
proof -
  show "keeps flow_same (before_closing io2)"
    unfolding before_closing_def steps_simps by (auto intro!: ready.phase_rules ready.k_stop)
  show "keeps no_command (before_closing (wired io f))" "keeps no_command (after_closing (wired io f))"
    unfolding before_closing_def after_closing_def steps_simps by (auto intro!: calm.phase_rules calm.k_stop)
qed

lemma finish_effects:
  assumes "finish_transect (wired io f) s = (Inr (), t)"
  shows "bk_initialized (fst (tr_flow s)) \<Longrightarrow> valve_cmds (flow_trace t) = valve_cmds (flow_trace s) @ [close_cmd]"
proof -
  obtain a b c where a: "before_closing (wired io f) s = (Inr (), a)" and b: "ignoring (t_flow (water_off (traced f))) a = (Inr (), b)"
    and c: "after_closing (wired io f) b = (Inr (), c)" and t: "count_transect c = (Inr (), t)"
    using assms unfolding finish_split by (auto dest!: bnd_Inr simp: wired_def)
  assume i: "bk_initialized (fst (tr_flow s))"
  have "no_command s a" "flow_same s a" "no_command b c"
    using keepsD[OF finish_calm(1) a] keepsD[OF finish_calm(3) a] keepsD[OF finish_calm(2) c] by simp_all
  moreover have "valve_cmds (flow_trace b) = valve_cmds (flow_trace a) @ [close_cmd]"
  proof -
    have "bk_initialized (fst (tr_flow a))" using i \<open>flow_same s a\<close> by (simp add: flow_same_def)
    moreover have "t_flow (water_off (traced f)) a = (fst (t_flow (water_off (traced f)) a), b) \<and> (\<exists>r. fst (t_flow (water_off (traced f)) a) = Inr r)"
      using b by (cases "t_flow (water_off (traced f)) a"; cases "fst (t_flow (water_off (traced f)) a)")
        (auto simp: ignoring_def bnd_def ret_def)
    ultimately show ?thesis using valve_sent(2) by (metis snd_conv)
  qed
  moreover have "flow_trace t = flow_trace c" using t by (auto simp: count_transect_def modify_def flow_trace_def)
  ultimately show "valve_cmds (flow_trace t) = valve_cmds (flow_trace s) @ [close_cmd]" by (simp add: no_command_def)
qed

lemma finish_counts:
  assumes "finish_transect io s = (Inr (), t)"
  shows "tr_completed t = tr_completed s + (if tr_abort s = [] then 1 else 0) \<and> tr_started t = tr_started s \<and> tr_abort t = tr_abort s"
proof -
  obtain a b c where a: "before_closing io s = (Inr (), a)" and b: "ignoring (t_flow (water_off (ti_flow io))) a = (Inr (), b)"
    and c: "after_closing io b = (Inr (), c)" and t: "count_transect c = (Inr (), t)"
    using assms unfolding finish_split by (auto dest!: bnd_Inr)
  have "same_rest s a" "same_rest a b" "same_rest b c"
    using keepsD[OF finish_still(1) a] keepsD[OF still_ignoring[OF still_parts(3)] b] keepsD[OF finish_still(2) c] .
  then show ?thesis using t by (auto simp: count_transect_def modify_def same_rest_def)
qed

section \<open>Properties\<close>

text \<open>A position outside, or none.\<close>

definition in_range :: "'w pass_input \<Rightarrow> 'w control \<Rightarrow> bool" where
  "in_range i s \<longleftrightarrow> fst (gps_checks i (dc_gps s)) = Inr (Some True)"

lemma catching_ret: "\<exists>x t. catching m (\<lambda>e. ret y) s = (Inr x, t)"
  by (cases "m s"; cases "fst (m s)") (auto simp: catching_def ret_def)

lemma gps_checks_run: "\<exists>r g. gps_checks i g0 = (Inr r, g)"
proof -
  have "\<exists>x g. read_fix i g0 = (Inr x, g)" unfolding read_fix_def Let_def by (rule catching_ret)
  then show ?thesis by (auto simp: gps_checks_def bnd_def peek_def ret_def)
qed

lemma pass_run:
  assumes "pi_check i"
  shows "\<exists>r g. gps_checks i (dc_gps s) = (Inr r, g) \<and> (in_range i s \<longleftrightarrow> r = Some True) \<and>
    control_pass i s = bnd (follow_position i r) (\<lambda>_. link_test) (s\<lparr>dc_gps := g\<rparr>)"
proof -
  obtain r g where g: "gps_checks i (dc_gps s) = (Inr r, g)" using gps_checks_run by blast
  then have "c_gps (gps_checks i) s = (Inr r, s\<lparr>dc_gps := g\<rparr>)" by (simp add: c_gps_def by_part_def)
  then show ?thesis using assms g by (intro exI[of _ r] exI[of _ g]) (simp add: in_range_def control_pass_def bnd_def)
qed

text \<open>What following the position does.\<close>

lemma follow_run:
  "dc_on s \<Longrightarrow> follow_position i (Some True) s = (Inr (), s)"
  "\<not> dc_on s \<Longrightarrow> r \<noteq> Some True \<Longrightarrow> follow_position i r s = (Inr (), s)"
  "\<not> dc_on s \<Longrightarrow> start_transect (pi_first i) (pi_second i) (dc_transect s) = (x, t) \<Longrightarrow> follow_position i (Some True) s =
     (case x of Inl e \<Rightarrow> (Inl e, s\<lparr>dc_transect := t\<rparr>) | Inr ok \<Rightarrow> (Inr (), s\<lparr>dc_transect := t, dc_on := ok\<rparr>))"
  "dc_on s \<Longrightarrow> r \<noteq> Some True \<Longrightarrow> finish_transect (pi_first i) (dc_transect s) = (y, t) \<Longrightarrow> follow_position i r s =
     (case y of Inl e \<Rightarrow> (Inl e, s\<lparr>dc_transect := t\<rparr>) | Inr u \<Rightarrow> (Inr (), s\<lparr>dc_transect := t, dc_on := False\<rparr>))"
  by (simp_all add: follow_position_def bnd_def peek_def ret_def c_transect_def by_part_def modify_def split: sum.split)

lemma link_run: "link_test s = (if bk_linked (fst (dc_gps s)) then (Inr (), s) else (Inl AttributeError, s))"
  by (simp add: link_test_def bnd_def peek_def ret_def fail_def)

text \<open>
  C31. A transect goes on exactly as long as the position is found in range: a pass that finds it elsewhere, or finds no
  position because there is no fix, no connection or no configuration, finishes it. Every transect finished is
  counted; the count of those started never changes.
\<close>

theorem transect_follows_position:
  assumes "control_pass i s = (Inr (), s')" "pi_check i" "dc_on s \<longrightarrow> tr_abort (dc_transect s) = []"
  shows "(dc_on s' \<longrightarrow> in_range i s \<and> tr_abort (dc_transect s') = []) \<and> (in_range i s \<and> dc_on s \<longrightarrow> dc_on s') \<and>
    tr_completed (dc_transect s') = tr_completed (dc_transect s) + (if dc_on s \<and> \<not> in_range i s then 1 else 0) \<and>
    tr_started (dc_transect s') = tr_started (dc_transect s)"
proof -
  obtain r g where r: "in_range i s \<longleftrightarrow> r = Some True" and p: "control_pass i s = bnd (follow_position i r) (\<lambda>_. link_test) (s\<lparr>dc_gps := g\<rparr>)"
    using pass_run[OF assms(2), of s] by blast
  let ?s = "s\<lparr>dc_gps := g\<rparr>"
  obtain u where u: "follow_position i r ?s = (Inr (), u)" "link_test u = (Inr (), s')"
    using assms(1) unfolding p by (auto dest!: bnd_Inr)
  have s': "s' = u" using u(2) by (simp add: link_run split: if_splits)
  consider (on) "dc_on s" "in_range i s" | (finish) "dc_on s" "\<not> in_range i s" | (start) "\<not> dc_on s" "in_range i s" | (off) "\<not> dc_on s" "\<not> in_range i s"
    by blast
  then show ?thesis
  proof cases
    case on
    then show ?thesis using u(1) r s' assms(3) by (auto simp: follow_run(1))
  next
    case finish
    obtain y t where t: "finish_transect (pi_first i) (dc_transect s) = (y, t)" by (rule prod.exhaust)
    have "follow_position i r ?s = (case y of Inl e \<Rightarrow> (Inl e, ?s\<lparr>dc_transect := t\<rparr>) | Inr u \<Rightarrow> (Inr (), ?s\<lparr>dc_transect := t, dc_on := False\<rparr>))"
      by (rule follow_run(4)) (use finish r t in simp_all)
    then have "y = Inr ()" "u = ?s\<lparr>dc_transect := t, dc_on := False\<rparr>" using u(1) by (cases y; simp)+
    then show ?thesis using finish_counts[of "pi_first i" "dc_transect s" t] t assms(3) finish s' by simp
  next
    case start
    obtain x t where t: "start_transect (pi_first i) (pi_second i) (dc_transect s) = (x, t)" by (rule prod.exhaust)
    have "follow_position i (Some True) ?s =
        (case x of Inl e \<Rightarrow> (Inl e, ?s\<lparr>dc_transect := t\<rparr>) | Inr ok \<Rightarrow> (Inr (), ?s\<lparr>dc_transect := t, dc_on := ok\<rparr>))"
      by (rule follow_run(3)) (use start t in simp_all)
    then obtain ok where ok: "x = Inr ok" "u = ?s\<lparr>dc_transect := t, dc_on := ok\<rparr>" using u(1) r start by (cases x) auto
    have "same_counts (dc_transect s) t" using keepsD[OF start_counts t] .
    then show ?thesis using start_ok[of "pi_first i" "pi_second i" "dc_transect s" ok t] t ok start s' by (auto simp: same_counts_def)
  next
    case off
    then show ?thesis using u(1) r s' by (auto simp: follow_run(2))
  qed
qed

text \<open>
  C32. An attempt to start a transect that fails leaves the valve of the water open: its last command is to open it, and
  no later pass that does not find the position in range closes it, for there is no transect to finish.
\<close>

theorem failed_start_leaves_valve_open:
  assumes "start_transect (wired io f) (wired io2 f) t = (Inr False, dc_transect s)" "bk_initialized (fst (tr_flow t))" "\<not> dc_on s"
    "\<forall>i \<in> set is. \<forall>la lo. pi_inside i la lo \<noteq> Inr True"
  shows "last (valve_cmds (flow_trace (dc_transect (snd (control_passes is s))))) = Some (water_command ''water_on'')"
proof -
  have far: "\<not> in_range i s" if "i \<in> set is" for i and s :: "('a \<times> trace) control"
    using assms(4) that by (auto simp: in_range_def gps_checks_def bnd_def peek_def ret_def judge_fix_def split: prod.splits sum.splits)
  have "dc_transect (snd (control_passes is s)) = dc_transect s" using assms(3) far
  proof (induction "is" arbitrary: s)
    case (Cons i "is")
    have "\<exists>x g. control_pass i s = (x, s\<lparr>dc_gps := g\<rparr>)"
    proof (cases "pi_check i")
      case True
      then obtain r g where "\<not> in_range i s \<longrightarrow> r \<noteq> Some True" "control_pass i s = bnd (follow_position i r) (\<lambda>_. link_test) (s\<lparr>dc_gps := g\<rparr>)"
        using pass_run[of i s] by blast
      then have "control_pass i s = (if bk_linked (fst g) then Inr () else Inl AttributeError, s\<lparr>dc_gps := g\<rparr>)"
        using Cons.prems(1) Cons.prems(2)[of i s] follow_run(2)[of "s\<lparr>dc_gps := g\<rparr>" r i] by (simp add: bnd_def link_run)
      then show ?thesis by blast
    next
      case False
      then show ?thesis by (intro exI[of _ "Inr ()"] exI[of _ "dc_gps s"]) (simp add: control_pass_def ret_def)
    qed
    then obtain x g where x: "control_pass i s = (x, s\<lparr>dc_gps := g\<rparr>)" by blast
    show ?case using Cons.IH[of "s\<lparr>dc_gps := g\<rparr>"] Cons.prems x by (cases x) (simp_all add: bnd_def)
  qed (simp add: ret_def)
  moreover obtain n where "valve_cmds (flow_trace (dc_transect s)) = valve_cmds (flow_trace t) @ replicate (Suc n) open_cmd"
    using start_commands[OF assms(1,2)] by blast
  ultimately show ?thesis by (simp add: open_cmd_def)
qed

text \<open>A transect that is finished without an exception has given the command to close the valve as the last one.\<close>

theorem finish_closes_valve:
  assumes "finish_transect (wired io f) s = (Inr (), t)" "bk_initialized (fst (tr_flow s))"
  shows "valve_cmds (flow_trace t) = valve_cmds (flow_trace s) @ [Some (water_command ''water_off'')]"
  using finish_effects[OF assms] by (simp add: close_cmd_def)

text \<open>
  Every attempt uses up a number: a transect that has one has a larger one after an attempt to start, also if the
  attempt failed.
\<close>

theorem attempts_use_numbers:
  assumes "tr_number s = Some n" "0 < n"
  shows "\<exists>m > n. tr_number (snd (start_transect io io2 s)) = Some m"
  using assms by (rule start_grows)

text \<open>
  C33. A lost connection of the control's own client of the GPS ends the program at the next check, after a running transect
  has been finished: the exception is raised by the attempt to connect anew.
\<close>

theorem lost_gps_ends_program:
  assumes "pi_check i" "\<not> bk_linked (fst (dc_gps s))"
  shows "(\<exists>e. fst (control_pass i s) = Inl e) \<and>
    (\<not> dc_on s \<longrightarrow> control_pass i s = (Inl AttributeError, s)) \<and>
    (dc_on s \<longrightarrow> dc_transect (snd (control_pass i s)) = snd (finish_transect (pi_first i) (dc_transect s)))"
proof -
  have g: "gps_checks i (dc_gps s) = (Inr None, dc_gps s)" using assms(2) by (simp add: gps_checks_def bnd_def peek_def ret_def)
  obtain r h where r: "gps_checks i (dc_gps s) = (Inr r, h)"
    "control_pass i s = bnd (follow_position i r) (\<lambda>_. link_test) (s\<lparr>dc_gps := h\<rparr>)" using pass_run[OF assms(1), of s] by blast
  have h: "r = None" "h = dc_gps s" using g r(1) by simp_all
  have p: "control_pass i s = bnd (follow_position i None) (\<lambda>_. link_test) s" using r(2) unfolding h by simp
  obtain y t where t: "finish_transect (pi_first i) (dc_transect s) = (y, t)" by (rule prod.exhaust)
  show ?thesis using assms(2) p follow_run(2)[of s None i] follow_run(4)[OF _ _ t, of None] t
    by (cases "dc_on s"; cases y) (auto simp: bnd_def link_run)
qed

section \<open>Witnesses\<close>

text \<open>Instruments that do not answer, and a clock that stands still.\<close>

definition silent :: "'w rpc_fun" where
  "silent rq w = (timeout_error, w)"

definition demo_tio :: "(unit \<times> trace) transect_io" where
  "demo_tio = \<lparr>ti_sonde = silent, ti_gps = silent, ti_flow = silent, ti_open = Inr demo_db, ti_conn = (\<lambda>w. (True, w)),
     ti_exec = (\<lambda>q vs w. (Stored, w)), ti_fetch = (\<lambda>q vs one w. (Inr (PDict []), w)), ti_now = 0, ti_polls = [], ti_cfg = default_sonde,
     ti_program = ''avp_data_ctl'', ti_low = None, ti_high = None\<rparr>"

definition ferry_sonde :: broker where
  "ferry_sonde = demo_broker\<lparr>bk_attrs := [(''sampling'', AItem ''sampling'')],
     bk_items := [(''sampling'', demo_item ''sampling'' ''RO'' PNone)], bk_subs := [], bk_callbacks := []\<rparr>"

definition demo_transect :: "(unit \<times> trace) transect" where
  "demo_transect = \<lparr>tr_sonde = (ferry_sonde, (), []), tr_gps = (demo_broker, (), []), tr_flow = (demo_broker, (), []),
     tr_base = Some demo_db, tr_server = ((), []), tr_number = Some 7, tr_wipe = False, tr_abort = [], tr_started = 0, tr_completed = 0\<rparr>"
definition demo_wired :: "(unit \<times> trace) transect_io" where
  "demo_wired = wired demo_tio silent"

definition demo_pass :: "(unit \<times> trace) pass_input" where
  "demo_pass = \<lparr>pi_check = True, pi_now = 0, pi_gps = silent, pi_keys = False, pi_near = (\<lambda>la lo. Inr False),
     pi_inside = (\<lambda>la lo. Inr False), pi_first = demo_wired, pi_second = demo_wired\<rparr>"

definition demo_control :: "bool \<Rightarrow> bool \<Rightarrow> (unit \<times> trace) transect \<Rightarrow> (unit \<times> trace) control" where
  "demo_control linked on t = \<lparr>dc_gps = (demo_broker\<lparr>bk_linked := linked\<rparr>, (), []), dc_transect = t, dc_on = on\<rparr>"

lemma demo_finish: "fst (finish_transect (wired demo_tio silent) demo_transect) = Inr ()"
  by code_simp

lemma demo_start: "fst (start_transect (wired demo_tio silent) (wired demo_tio silent) demo_transect) = Inr False"
  by code_simp

text \<open>A transect that runs is finished where there is no configuration of the ports.\<close>

theorem transect_follows_position_witness:
  "tr_completed (dc_transect (snd (control_pass demo_pass (demo_control True True demo_transect)))) = 1"
proof -
  let ?s = "demo_control True True demo_transect"
  obtain s' where s': "control_pass demo_pass ?s = (Inr (), s')"
  proof (rule that, rule prod_eqI)
    show "fst (control_pass demo_pass ?s) = fst (Inr (), snd (control_pass demo_pass ?s))" by code_simp
  qed simp
  have 1: "pi_check demo_pass" "dc_on ?s \<longrightarrow> tr_abort (dc_transect ?s) = []" "dc_on ?s" "\<not> in_range demo_pass ?s"
    "tr_completed (dc_transect ?s) = 0" by code_simp+
  from transect_follows_position[OF s' 1(1,2)] show ?thesis using 1(3-5) s' by simp
qed

theorem failed_start_leaves_valve_open_witness:
  "last (valve_cmds (flow_trace (dc_transect (snd (control_passes [demo_pass] (demo_control True False
     (snd (start_transect (wired demo_tio silent) (wired demo_tio silent) demo_transect)))))))) = Some (water_command ''water_on'')"
proof -
  let ?t = "snd (start_transect (wired demo_tio silent) (wired demo_tio silent) demo_transect)"
  have 1: "start_transect (wired demo_tio silent) (wired demo_tio silent) demo_transect =
      (Inr False, dc_transect (demo_control True False ?t))"
    by (rule prod_eqI) (simp_all add: demo_start, simp add: demo_control_def)
  have 2: "bk_initialized (fst (tr_flow demo_transect))" by code_simp
  show ?thesis by (rule failed_start_leaves_valve_open[OF 1 2]) (simp_all add: demo_control_def demo_pass_def)
qed

theorem finish_closes_valve_witness:
  "valve_cmds (flow_trace (snd (finish_transect (wired demo_tio silent) demo_transect))) = [Some (water_command ''water_off'')]"
proof -
  have 1: "finish_transect (wired demo_tio silent) demo_transect = (Inr (), snd (finish_transect (wired demo_tio silent) demo_transect))"
    by (rule prod_eqI) (simp_all add: demo_finish)
  have 2: "bk_initialized (fst (tr_flow demo_transect))" "valve_cmds (flow_trace demo_transect) = []" by code_simp+
  from finish_closes_valve[OF 1 2(1)] show ?thesis unfolding 2(2) by simp
qed

theorem attempts_use_numbers_witness: "\<exists>m > 7. tr_number (snd (start_transect demo_tio demo_tio demo_transect)) = Some m"
  by (rule attempts_use_numbers) (simp_all add: demo_transect_def)

text \<open>No transect runs.\<close>

theorem lost_gps_ends_program_witness:
  "control_pass demo_pass (demo_control False False demo_transect) = (Inl AttributeError, demo_control False False demo_transect)"
proof -
  have 1: "pi_check demo_pass" "\<not> bk_linked (fst (dc_gps (demo_control False False demo_transect)))"
    "\<not> dc_on (demo_control False False demo_transect)" by code_simp+
  from lost_gps_ends_program[OF 1(1,2)] 1(3) show ?thesis by simp
qed

end
