(* ===== verification/Console.thy ===== *)
theory Console
  imports Client Samplers Cast Frame "HOL-Library.Char_ord" "HOL-Library.List_Lexorder"
begin

text \<open>
  The console of the operator, src/python/avp_console.py: reading a line as a command and the commands that all
  consoles of brokers share, classes \<open>_BaseConsole\<close> and \<open>_BrokerConsole\<close>. What is printed is left out, except for the
  status and the report, whose lines are the result; values read for a message are read, and a message that cannot be
  built raises. Help only prints.
\<close>

section \<open>Lines\<close>

text \<open>\<open>split()\<close>: the words between blanks.\<close>

fun py_words :: "string \<Rightarrow> string \<Rightarrow> string list" where
  "py_words w [] = (if w = [] then [] else [w])"
| "py_words w (c # cs) =
     (if is_blank c then (if w = [] then py_words [] cs else w # py_words [] cs) else py_words (w @ [c]) cs)"

definition py_split :: "string \<Rightarrow> string list" where
  "py_split s = py_words [] s"

definition ident_char :: "char \<Rightarrow> bool" where
  "ident_char c \<longleftrightarrow> is_upper c \<or> is_lower c \<or> is_digit c \<or> c = CHR ''_''"

text \<open>
  The standard library's \<open>parseline\<close>: no command for an empty line and for one with \<open>!\<close>, which no console
  supports; \<open>?\<close> stands for help.
\<close>

definition parse_line :: "string \<Rightarrow> (string \<times> string) option" where
  "parse_line line =
     (let l = strip line; m = (case l of c # cs \<Rightarrow> if c = CHR ''?'' then ''help '' @ cs else l | [] \<Rightarrow> [])
      in case m of [] \<Rightarrow> None
         | c # cs \<Rightarrow> if c = CHR ''!'' then None else Some (takeWhile ident_char m, strip (dropWhile ident_char m)))"

text \<open>
  \<open>onecmd\<close>: the method \<open>do_\<close> of the command's name gets the rest of the line; \<open>emptyline\<close> and \<open>default\<close> only print.
  The value that a method returns decides whether the loop stops.
\<close>

type_synonym 's commands = "(string \<times> (string \<Rightarrow> ('s, pyval) act)) list"

definition one_cmd :: "'s commands \<Rightarrow> string \<Rightarrow> ('s, pyval) act" where
  "one_cmd cmds line =
     (case parse_line line of
        None \<Rightarrow> ret PNone
      | Some (c, a) \<Rightarrow> (case dget cmds c of None \<Rightarrow> ret PNone | Some f \<Rightarrow> f a))"

text \<open>\<open>cmdloop\<close> over the lines that are entered; True: the loop has ended.\<close>

fun cmd_loop :: "'s commands \<Rightarrow> string list \<Rightarrow> ('s, bool) act" where
  "cmd_loop cmds [] = ret False"
| "cmd_loop cmds (l # ls) = bnd (one_cmd cmds l) (\<lambda>v. if truthy v then ret True else cmd_loop cmds ls)"

definition quietly :: "('s, 'a) act \<Rightarrow> ('s, pyval) act" where
  "quietly m = bnd m (\<lambda>_. ret PNone)"

section \<open>The shell around the commands\<close>

text \<open>Prompt, debug mode and history; there is no history before the first loop of a console has begun.\<close>

record shell =
  sh_prompt :: string
  sh_debug :: bool
  sh_hist :: "string list option"

definition new_shell :: "string \<Rightarrow> bool \<Rightarrow> shell" where
  "new_shell prompt debug = \<lparr>sh_prompt = (if debug then ''DB-'' @ prompt else prompt), sh_debug = debug, sh_hist = None\<rparr>"

definition preloop :: "shell \<Rightarrow> shell" where
  "preloop s = s\<lparr>sh_hist := Some []\<rparr>"

definition precmd :: "string \<Rightarrow> shell \<Rightarrow> shell" where
  "precmd line s = (if strip line = [] then s else s\<lparr>sh_hist := map_option (\<lambda>h. h @ [strip line]) (sh_hist s)\<rparr>)"

definition do_debug :: "shell \<Rightarrow> shell" where
  "do_debug s =
     (if sh_debug s then s\<lparr>sh_debug := False, sh_prompt := (if prefix ''DB-'' (sh_prompt s) then drop 3 (sh_prompt s) else sh_prompt s)\<rparr>
      else s\<lparr>sh_debug := True, sh_prompt := (if prefix ''DB-'' (sh_prompt s) then sh_prompt s else ''DB-'' @ sh_prompt s)\<rparr>)"

definition do_hist :: "shell \<Rightarrow> string list res" where
  "do_hist s = (case sh_hist s of None \<Rightarrow> Inl AttributeError | Some h \<Rightarrow> Inr h)"

definition do_exit :: "string \<Rightarrow> ('s, pyval) act" where
  "do_exit a = ret (PInt (- 1))"

section \<open>The token\<close>

text \<open>
  What the commands of a console meet: the broker, the clock, the names by which the token is taken, how values and
  times are shown, whether a connection can be made, and how a direct session with the instrument ends.
\<close>

record 'w console_io =
  con_rpc :: "'w rpc_fun"
  con_now :: instant
  con_program :: string
  con_class :: string
  con_show :: "pyval \<Rightarrow> string"
  con_clock :: "instant \<Rightarrow> string"
  con_links :: bool
  con_telnet :: "unit res"

definition take_token :: "'w console_io \<Rightarrow> bool \<Rightarrow> (broker \<times> 'w, pyval) act" where
  "take_token ci force = get_token (con_rpc ci) (con_program ci) (con_class ci) force"

text \<open>An argument that is no option, and more than one argument, give the value 1.\<close>

definition token_option :: "'w console_io \<Rightarrow> string \<Rightarrow> (broker \<times> 'w, pyval) act" where
  "token_option ci w =
     (if w = ''status'' then quietly (plain (token_owner (con_rpc ci)))
      else if w = ''acquire'' \<or> w = ''1'' then quietly (take_token ci False)
      else if w = ''force'' \<or> w = ''2'' then quietly (take_token ci True)
      else if w = ''release'' \<or> w = ''0'' then quietly (plain (token_release (con_rpc ci)))
      else ret (PInt 1))"

definition do_token :: "'w console_io \<Rightarrow> string \<Rightarrow> (broker \<times> 'w, pyval) act" where
  "do_token ci args =
     (let ws = py_split (if args = [] then ''status'' else args)
      in if length ws > 1 then ret (PInt 1) else if ws = [] then fail IndexError else token_option ci (hd ws))"

text \<open>
  The frame of most commands: the token is taken, without it the command gives up, and it is released behind the
  command. An exception of the command leaves out the release.
\<close>

definition with_token :: "'w console_io \<Rightarrow> 'a \<Rightarrow> (broker \<times> 'w, 'a) act \<Rightarrow> (broker \<times> 'w, 'a) act" where
  "with_token ci refused m =
     bnd (do_token ci ''acquire'') (\<lambda>_.
     bnd (peek (\<lambda>bw. bk_token (fst bw))) (\<lambda>t.
     if t then bnd m (\<lambda>r. bnd (do_token ci ''release'') (\<lambda>_. ret r)) else ret refused))"

definition set_value :: "'w console_io \<Rightarrow> string \<Rightarrow> string \<Rightarrow> bool \<Rightarrow> (broker \<times> 'w, pyval) act" where
  "set_value ci param v store =
     with_token ci (PStr ''Unable to get token, aborting.'') (set_params (con_rpc ci) (con_now ci) [(param, PStr v)] store None)"

text \<open>\<open>set\<close>: what is written is the text that was entered.\<close>

definition do_set :: "'w console_io \<Rightarrow> bool \<Rightarrow> string \<Rightarrow> (broker \<times> 'w, pyval) act" where
  "do_set ci store args = (case py_split args of [p, v] \<Rightarrow> quietly (set_value ci p v store) | _ \<Rightarrow> ret PNone)"

section \<open>Values\<close>

definition item_type :: "broker \<Rightarrow> string \<Rightarrow> string option" where
  "item_type b n = (case item_of b n of Inl e \<Rightarrow> None | Inr i \<Rightarrow> Some (di_type i))"

definition can_read :: "broker \<Rightarrow> string \<Rightarrow> bool" where
  "can_read b n = (case item_type b n of None \<Rightarrow> False | Some t \<Rightarrow> t \<in> set read_classes)"

text \<open>A value with a width in a format: None and the containers do not have one.\<close>

fun has_format :: "pyval \<Rightarrow> bool" where
  "has_format PNone = False"
| "has_format (PList xs) = False"
| "has_format (PDict d) = False"
| "has_format _ = True"

definition units_of :: "data_item \<Rightarrow> pyval" where
  "units_of i = (case di_units i of None \<Rightarrow> PNone | Some u \<Rightarrow> u)"

definition show_value :: "'w console_io \<Rightarrow> bool \<Rightarrow> string \<Rightarrow> (broker \<times> 'w, unit) act" where
  "show_value ci from_mem n =
     bnd (peek (\<lambda>bw. item_of (fst bw) n)) (\<lambda>it.
     bnd (of_res it) (\<lambda>i.
     bnd (if from_mem then ret (di_value i) else value_getter (con_rpc ci) (con_now ci) (di_name i)) (\<lambda>_.
     if has_format (units_of i) then ret () else fail TypeError)))"

text \<open>\<open>value_lookup\<close>: names that cannot be read are left out, the rest is read in the order of the alphabet.\<close>

definition value_lookup :: "'w console_io \<Rightarrow> bool \<Rightarrow> string \<Rightarrow> (broker \<times> 'w, pyval) act" where
  "value_lookup ci from_mem args =
     bnd (peek fst) (\<lambda>b.
     let names = (if args = ''all'' then dkeys (bk_points b) else py_split args)
     in if names = [] then ret (PInt 0)
        else quietly (steps (map (show_value ci from_mem) (sort (filter (can_read b) names)))))"

section \<open>The report\<close>

text \<open>Numbers stand at the right of their field.\<close>

definition field :: "'w console_io \<Rightarrow> nat \<Rightarrow> pyval \<Rightarrow> string" where
  "field ci n v = (case v of PStr s \<Rightarrow> ljust n s | _ \<Rightarrow> rjust n (con_show ci v))"

record layout =
  ly_name :: nat
  ly_value :: nat
  ly_time :: nat
  ly_zone :: nat

definition layout_of :: "bool \<Rightarrow> string list \<Rightarrow> layout" where
  "layout_of para names =
     \<lparr>ly_name = (case names of [] \<Rightarrow> 20 | n # ns \<Rightarrow> Suc (fold (\<lambda>n m. max (length n) m) ns (length n))),
      ly_value = (if para then 1 else 10), ly_time = (if para then 1 else 20), ly_zone = (if para then 1 else 5)\<rparr>"

text \<open>
  The row of a parameter; a message that cannot be built, or a sample time that is missing, leaves out the row. With
  \<open>para\<close> neither value, subscription nor time is shown.
\<close>

definition report_row :: "'w console_io \<Rightarrow> bool \<Rightarrow> layout \<Rightarrow> pyval dict \<Rightarrow> string \<Rightarrow> data_item \<Rightarrow> string option" where
  "report_row ci para ly values n i =
     (let v = (case dget values n of Some x \<Rightarrow> if para then '' '' else con_show ci x @ '' '' | None \<Rightarrow> '' '');
          readable = \<not> para \<and> di_type i \<in> set read_classes
      in if \<not> has_format (units_of i) \<or> \<not> has_format (di_tz i) \<or> (readable \<and> di_sample i = None) then None
         else Some (ljust (ly_name ly) n @ ljust (ly_value ly) v @ field ci 10 (units_of i) @ ljust 5 (di_type i) @
                ljust 4 (if readable \<and> di_subscribed i then ''T'' else '' '') @
                ljust (ly_time ly) (case di_sample i of Some t \<Rightarrow> if readable then con_clock ci t else '' '' | None \<Rightarrow> '' '') @
                field ci (ly_zone ly) (di_tz i)))"

fun report_rows :: "'w console_io \<Rightarrow> bool \<Rightarrow> layout \<Rightarrow> pyval dict \<Rightarrow> broker \<Rightarrow> string list \<Rightarrow> string list res" where
  "report_rows ci para ly values b [] = Inr []"
| "report_rows ci para ly values b (n # ns) =
     (if n = ''message_time'' then report_rows ci para ly values b ns
      else res_bind (item_of b n) (\<lambda>i. res_bind (report_rows ci para ly values b ns) (\<lambda>rs.
             Inr ((case report_row ci para ly values n i of None \<Rightarrow> [] | Some r \<Rightarrow> [r]) @ rs))))"

definition report_head :: "bool \<Rightarrow> layout \<Rightarrow> string" where
  "report_head para ly =
     ljust (ly_name ly) ''PARAMETER'' @ ljust (ly_value ly) (if para then '' '' else ''VALUE'') @ ljust 10 ''UNITS'' @ ljust 5 ''TYPE'' @
     ljust 4 ''SUB'' @ ljust (ly_time ly) (if para then '' '' else ''SAMPLE_TIME'') @ ljust (ly_zone ly) ''TZ''"

text \<open>The parameters that the report asks for; an entry that is no dictionary has no \<open>get\<close>.\<close>

fun para_list :: "pyval dict \<Rightarrow> string list res" where
  "para_list [] = Inr []"
| "para_list ((n, PDict i) # ps) =
     res_bind (para_list ps) (\<lambda>ns. Inr (if dget i ''type'' \<in> Some ` PStr ` set read_classes then n # ns else ns))"
| "para_list ((n, v) # ps) = Inl AttributeError"

definition report_values :: "'w console_io \<Rightarrow> bool \<Rightarrow> pyval dict \<Rightarrow> (broker \<times> 'w, pyval dict option) act" where
  "report_values ci para d =
     (if para then ret (Some [])
      else bnd (of_res (para_list d)) (\<lambda>ns.
           catching (bnd (get_value (con_rpc ci) ns True None) (\<lambda>r.
               case r of PDict v \<Rightarrow> ret (if dhas v ''error'' then None else Some v) | _ \<Rightarrow> ret None)) (\<lambda>e. ret None)))"

text \<open>The report, None when the broker does not tell its parameters or values.\<close>

definition report :: "'w console_io \<Rightarrow> bool \<Rightarrow> (broker \<times> 'w, string list option) act" where
  "report ci para =
     bnd (plain (list_data (con_rpc ci) [] None)) (\<lambda>r.
     case r of
       PDict d \<Rightarrow>
         (let e = dget_or d ''error'' (PBool False)
          in if truthy e then (if is_dict e then ret None else fail AttributeError)
              else bnd (report_values ci para d) (\<lambda>vs.
                   case vs of
                     None \<Rightarrow> ret None
                   | Some v \<Rightarrow>
                       (let ly = layout_of para (dkeys d)
                        in bnd (peek (\<lambda>bw. report_rows ci para ly v (fst bw) (dkeys d))) (\<lambda>rs.
                           bnd (of_res rs) (\<lambda>rows.
                           let text = report_head para ly # sort_key (map to_lower) rows
                           in if para then ret (Some text)
                              else bnd (peek (\<lambda>bw. item_of (fst bw) ''message_time'')) (\<lambda>m.
                                   bnd (of_res m) (\<lambda>mt. ret (Some (text @ [''message_time is '' @
                                     (case di_sample mt of None \<Rightarrow> ''None'' | Some t \<Rightarrow> con_clock ci t) @ '' '' @
                                     con_show ci (units_of mt)])))))))))
     | _ \<Rightarrow> fail AttributeError)"

section \<open>Subscriptions\<close>

text \<open>\<open>sub\<close>: without a name the subscriptions are listed, \<open>all\<close> stands for every point that can be read.\<close>

definition readable_points :: "broker \<Rightarrow> string list" where
  "readable_points b =
     concat (map (\<lambda>(n, k). case dget (bk_items b) k of
                    Some i \<Rightarrow> if di_type i \<in> set read_classes then [di_name i] else [] | None \<Rightarrow> []) (bk_points b))"

definition do_sub :: "'w console_io \<Rightarrow> string \<Rightarrow> (broker \<times> 'w, pyval) act" where
  "do_sub ci args =
     bnd (peek fst) (\<lambda>b.
     if py_split args = [] then ret PNone
     else quietly (add_subscriptions (con_rpc ci) (if args = ''all'' then readable_points b else py_split args) on_change None))"

text \<open>\<open>unsub\<close>: \<open>all\<close> also removes the callbacks.\<close>

definition do_unsub :: "'w console_io \<Rightarrow> string \<Rightarrow> (broker \<times> 'w, pyval) act" where
  "do_unsub ci args =
     (if py_split args = [] then ret PNone
      else if args = ''all'' then quietly (raising (unsubscribe_all 2 (con_rpc ci)))
      else quietly (raising (unsubscribe 2 (con_rpc ci) (py_split args) None)))"

section \<open>The status\<close>

text \<open>Names in lines of at most 74 characters; the comma behind the last one is taken off.\<close>

fun wrap_names :: "string \<Rightarrow> string list \<Rightarrow> string list" where
  "wrap_names line [] = [take (length line - 2) line]"
| "wrap_names line (p # ps) =
     (if length line + 2 + length p \<le> 74 then wrap_names (line @ p @ '', '') ps
      else line # wrap_names (''    '' @ p @ '', '') ps)"

definition name_lines :: "string \<Rightarrow> string \<Rightarrow> string list \<Rightarrow> string list" where
  "name_lines head none names = (if names = [] then [none] else head # wrap_names ''    '' (sort names))"

definition state_line :: "broker \<Rightarrow> string" where
  "state_line b =
     (if bk_instr b = Some True then ''Instrument connected,    '' else ''Instrument NOT connected,'') @
     (if bk_suspended b = Some True then '' SUSPENDED,    '' else '' not suspended,'') @
     (case bk_power_on b of Some True \<Rightarrow> '' and powered on.'' | Some False \<Rightarrow> '' and NOT powered on.''
      | None \<Rightarrow> '' and power status is unknown.'')"

definition time_lines :: "'w console_io \<Rightarrow> broker \<Rightarrow> string list" where
  "time_lines ci b =
     [(if bk_db b = Some True then ''Database Connected'' else ''Database NOT Connected'') @
      (if truthy (bk_last_db b) then '' at '' @ con_show ci (bk_last_db b) @ ''.'' else ''. No database connection time available.''),
      (if truthy (bk_start b) then ''Broker start time: '' @ con_show ci (bk_start b) else ''No start time available''),
      (if truthy (bk_last_data b) then ''Last broker data time: '' @ con_show ci (bk_last_data b) else ''No last data time available'')]"

text \<open>The length of an owner that is a number cannot be taken; the line then is that of the exception.\<close>

definition owner_line :: "'w console_io \<Rightarrow> pyval \<Rightarrow> string" where
  "owner_line ci owner =
     (case owner of
        PNone \<Rightarrow> ''Token owner is unknown.''
      | PStr s \<Rightarrow> if s = [] then ''Token has no owner.'' else ''Token owned by '' @ s @ ''.''
      | PList xs \<Rightarrow> if xs = [] then ''Token has no owner.'' else ''Token owned by '' @ con_show ci owner @ ''.''
      | PDict d \<Rightarrow> if d = [] then ''Token has no owner.'' else ''Token owned by '' @ con_show ci owner @ ''.''
      | _ \<Rightarrow> ''Error'')"

definition console_status :: "'w console_io \<Rightarrow> (broker \<times> 'w, string list) act" where
  "console_status ci =
     bnd (plain (broker_status (con_rpc ci) None)) (\<lambda>_.
     bnd (peek fst) (\<lambda>b.
     bnd (plain (token_owner (con_rpc ci))) (\<lambda>r.
     ret (state_line b # time_lines ci b @
          name_lines ''The subscribed parameters are:'' ''There are no subscribed parameters.'' (dkeys (bk_subs b)) @
          name_lines ''The callback parameters are:'' ''There are no callback parameters.'' (dkeys (bk_callbacks b)) @
          [owner_line ci (pget_or r ''result'' PNone)]))))"

section \<open>Brokers\<close>

definition do_connect :: "'w console_io \<Rightarrow> (broker \<times> 'w, pyval) act" where
  "do_connect ci = quietly (modify (\<lambda>(b, w). (b\<lparr>bk_linked := bk_linked b \<or> con_links ci\<rparr>, w)))"

definition do_suspend :: "'w console_io \<Rightarrow> (broker \<times> 'w, pyval) act" where
  "do_suspend ci =
     bnd (with_token ci False (bnd (plain (suspend_broker (con_rpc ci) None)) (\<lambda>_. ret True))) (\<lambda>done.
     only_if done (quietly (console_status ci)) PNone)"

definition do_resume :: "'w console_io \<Rightarrow> (broker \<times> 'w, pyval) act" where
  "do_resume ci = quietly (with_token ci PNone (resume_broker (con_rpc ci) None))"

text \<open>The broker is shut down without a token.\<close>

definition do_shutdown :: "'w console_io \<Rightarrow> (broker \<times> 'w, pyval) act" where
  "do_shutdown ci =
     quietly (bnd (plain (shutdown_broker (con_rpc ci) None)) (\<lambda>_. modify (disconnect (con_rpc ci))))"

text \<open>
  \<open>power\<close>: a text that has been entered is never the object \<open>'check'\<close> of the program, so that entering it takes
  the token; any other text stands for that object.
\<close>

definition do_power :: "'w console_io \<Rightarrow> string \<Rightarrow> (broker \<times> 'w, pyval) act" where
  "do_power ci arg =
     (let typed = arg \<in> {''on'', ''off'', ''check''}; cmd = (if typed then arg else ''check'')
      in bnd (only_if typed (do_token ci ''acquire'') PNone) (\<lambda>_.
         bnd (peek (\<lambda>bw. bk_token (fst bw))) (\<lambda>t.
         if typed \<and> \<not> t then ret PNone
         else bnd (power (con_rpc ci) cmd None) (\<lambda>_.
              bnd (peek (\<lambda>bw. bk_token (fst bw))) (\<lambda>t1. quietly (only_if t1 (do_token ci ''release'') PNone))))))"

text \<open>
  \<open>init\<close>: the context gives up the client and constructs another one; the console keeps the one that has been given
  up.
\<close>

definition do_init :: "'w console_io \<Rightarrow> (broker \<times> 'w, pyval) act" where
  "do_init ci = quietly (bnd (raising (unsubscribe_all 2 (con_rpc ci))) (\<lambda>_. modify (disconnect (con_rpc ci))))"

text \<open>\<open>console\<close> needs a suspended instrument; the session bypasses the client.\<close>

definition do_console :: "'w console_io \<Rightarrow> (broker \<times> 'w, pyval) act" where
  "do_console ci =
     bnd (peek (\<lambda>bw. bk_suspended (fst bw))) (\<lambda>s.
     if s = Some False then ret PNone else quietly (of_res (con_telnet ci)))"

text \<open>
  A line for the console of another broker, as \<open>aio\<close> or \<open>winch\<close> in front of it says: what it returns or raises is
  dropped, and nothing happens if that console has not been opened.
\<close>

definition other_console :: "('s, pyval) act option \<Rightarrow> ('s, pyval) act" where
  "other_console line =
     (case line of
        None \<Rightarrow> ret PNone
      | Some m \<Rightarrow> catching (quietly m) (\<lambda>e. if e = endless then fail e else ret PNone))"

text \<open>The commands every console of a broker has; those of a class stand before them and replace them.\<close>

definition broker_commands :: "'w console_io \<Rightarrow> (broker \<times> 'w) commands" where
  "broker_commands ci =
     [(''report'', \<lambda>a. quietly (report ci False)), (''para'', \<lambda>a. quietly (report ci True)),
      (''token'', do_token ci), (''value'', value_lookup ci False), (''vvalue'', value_lookup ci False),
      (''set'', do_set ci False), (''init'', \<lambda>a. do_init ci), (''sub'', do_sub ci), (''unsub'', do_unsub ci),
      (''mem'', value_lookup ci True), (''status'', \<lambda>a. quietly (console_status ci)), (''connect'', \<lambda>a. do_connect ci),
      (''suspend'', \<lambda>a. do_suspend ci), (''resume'', \<lambda>a. do_resume ci), (''shutdown'', \<lambda>a. do_shutdown ci),
      (''power'', do_power ci), (''exit'', do_exit), (''quit'', do_exit), (''x'', do_exit)]"

section \<open>A console without the token\<close>

text \<open>A broker that never gives the token away.\<close>

definition refuses :: "'w rpc_fun \<Rightarrow> bool" where
  "refuses rpc \<longleftrightarrow> (\<forall>rq w. rq_method rq = ''tokenAcquire'' \<or> rq_method rq = ''tokenForceAcquire'' \<longrightarrow> \<not> is_ok (result_checker (fst (rpc rq w))))"

definition asking :: "string set" where
  "asking = {''tokenOwner'', ''tokenAcquire'', ''tokenForceAcquire'', ''tokenRelease'', ''status'', ''list_data'', ''broker_status'',
     ''subscribe'', ''unsubscribe''}"

text \<open>A call that does not act on the instrument.\<close>

definition mere_call :: "string \<times> pyval option \<Rightarrow> bool" where
  "mere_call c \<longleftrightarrow> fst c \<in> asking \<or> c = (''power'', Some (PDict [(''status'', PStr ''check'')]))"

definition held_off :: "broker \<times> 'w \<times> trace \<Rightarrow> broker \<times> 'w \<times> trace \<Rightarrow> bool" where
  "held_off s t \<longleftrightarrow> (\<not> bk_token (fst s) \<longrightarrow> \<not> bk_token (fst t) \<and>
     (\<exists>rest. snd (snd t) = snd (snd s) @ rest \<and> (\<forall>c \<in> set rest. mere_call c)))"

interpretation off: kept held_off
proof
  show "held_off s s" for s :: "broker \<times> 'w \<times> trace" by (simp add: held_off_def)
  show "held_off s u" if h: "held_off s t" "held_off t u" for s t u :: "broker \<times> 'w \<times> trace"
    unfolding held_off_def
  proof
    assume n: "\<not> bk_token (fst s)"
    then obtain r1 where 1: "\<not> bk_token (fst t)" "snd (snd t) = snd (snd s) @ r1" "\<forall>c \<in> set r1. mere_call c"
      using h(1) by (auto simp: held_off_def)
    then obtain r2 where 2: "\<not> bk_token (fst u)" "snd (snd u) = snd (snd t) @ r2" "\<forall>c \<in> set r2. mere_call c"
      using h(2) by (auto simp: held_off_def)
    show "\<not> bk_token (fst u) \<and> (\<exists>rest. snd (snd u) = snd (snd s) @ rest \<and> (\<forall>c \<in> set rest. mere_call c))"
      using 1 2 by (intro conjI exI[of _ "r1 @ r2"]) auto
  qed
qed

named_theorems off_intros

lemmas [off_intros] = off.k_rules

lemma asking_calls [simp]:
  "''tokenOwner'' \<in> asking" "''tokenAcquire'' \<in> asking" "''tokenForceAcquire'' \<in> asking" "''tokenRelease'' \<in> asking"
  "''status'' \<in> asking" "''list_data'' \<in> asking" "''broker_status'' \<in> asking" "''subscribe'' \<in> asking" "''unsubscribe'' \<in> asking"
  by (simp_all add: asking_def)

text \<open>An operation that only asks and does not touch the client's own idea of the token.\<close>

lemma off_read: "keeps (sent asking) m \<Longrightarrow> (\<And>bw. bk_token (fst (snd (m bw))) = bk_token (fst bw)) \<Longrightarrow> keeps held_off m"
  by (fastforce simp: keeps_def held_off_def sent_def mere_call_def)

lemma off_plain: "(\<And>b w l. sent asking (b, w, l) (snd (f (b, w, l)))) \<Longrightarrow> (\<And>bw. bk_token (fst (snd (f bw))) = bk_token (fst bw)) \<Longrightarrow>
    keeps held_off (plain f)"
proof (rule off_read)
  assume f: "\<And>b w l. sent asking (b, w, l) (snd (f (b, w, l)))" "\<And>bw. bk_token (fst (snd (f bw))) = bk_token (fst bw)"
  have r: "snd (plain f s) = snd (f s)" for s by (auto simp: plain_def split: prod.split)
  show "keeps (sent asking) (plain f)" using f(1) by (auto simp: keeps_def r)
  show "bk_token (fst (snd (plain f bw))) = bk_token (fst bw)" for bw by (simp add: r f(2))
qed

lemma off_raising: "(\<And>b w l. sent asking (b, w, l) (snd (f (b, w, l)))) \<Longrightarrow> (\<And>bw. bk_token (fst (snd (f bw))) = bk_token (fst bw)) \<Longrightarrow>
    keeps held_off (raising f)"
proof (rule off_read)
  assume f: "\<And>b w l. sent asking (b, w, l) (snd (f (b, w, l)))" "\<And>bw. bk_token (fst (snd (f bw))) = bk_token (fst bw)"
  have r: "snd (raising f s) = snd (f s)" for s by (auto simp: raising_def split: prod.split option.split)
  show "keeps (sent asking) (raising f)" using f(1) by (auto simp: keeps_def r)
  show "bk_token (fst (snd (raising f bw))) = bk_token (fst bw)" for bw by (simp add: r f(2))
qed

lemma off_calls [off_intros]:
  "m \<in> asking \<Longrightarrow> keeps held_off (plain (checked_call (traced rpc) m t p))"
  "keeps held_off (value_getter (traced rpc) now n)" "keeps held_off (get_value (traced rpc) ns v t)"
  "keeps held_off (add_subscriptions (traced rpc) ns opts t)" "keeps held_off (plain (broker_status (traced rpc) t))"
  "keeps held_off (plain (token_owner (traced rpc)))" "keeps held_off (plain (list_data (traced rpc) ps t))"
  "keeps held_off (raising (unsubscribe k (traced rpc) ns t))" "keeps held_off (raising (unsubscribe_all k (traced rpc)))"
  unfolding token_owner_def list_data_def
  by (rule off_read off_plain off_raising, auto intro: calls_intros checked_call_sent broker_status_sends unsubscribe_sends unsubscribe_all_sends
      simp: token.st_reads)+

text \<open>Taking a token that is refused, giving one back.\<close>

lemma refused_call:
  assumes "refuses rpc" "m = ''tokenAcquire'' \<or> m = ''tokenForceAcquire''"
  shows "\<not> is_ok (fst (checked_call (traced rpc) m t p bw))"
  using assms by (cases bw) (auto simp: refuses_def checked_call_def call_def traced_def Let_def split: prod.splits)

lemma off_state: "held_off (b, w) (b1, w1) \<Longrightarrow> \<not> bk_token b2 \<Longrightarrow> held_off (b, w) (b2, w1)"
  by (simp add: held_off_def)

lemma off_ask:
  assumes "refuses rpc"
  shows "keeps held_off (ask_token (traced rpc) name f)"
proof -
  have "held_off s (snd (ask_token (traced rpc) name f s))" for s
  proof (cases f)
    case True
    obtain r b w where c: "checked_call (traced rpc) ''tokenForceAcquire'' None (Some (PDict [(''name'', PStr name)])) s = (r, b, w)"
      by (rule prod_cases3)
    have h: "held_off s (b, w)"
      using keepsD[OF off_calls(1)[of "''tokenForceAcquire''" rpc None "Some (PDict [(''name'', PStr name)])"], of s "Inr r"] c
      by (simp add: plain_def)
    have "\<not> is_ok r" using refused_call[OF assms, of "''tokenForceAcquire''" None _ s] c by (metis fst_conv)
    then show ?thesis using True c h by (cases s) (auto simp: ask_token_def token_force_acquire_def intro: off_state)
  next
    case False
    obtain r b w where c: "checked_call (traced rpc) ''tokenAcquire'' None (Some (PDict [(''name'', PStr name)])) s = (r, b, w)"
      by (rule prod_cases3)
    have h: "held_off s (b, w)"
      using keepsD[OF off_calls(1)[of "''tokenAcquire''" rpc None "Some (PDict [(''name'', PStr name)])"], of s "Inr r"] c
      by (simp add: plain_def)
    have "\<not> is_ok r" using refused_call[OF assms, of "''tokenAcquire''" None _ s] c by (metis fst_conv)
    then show ?thesis using False c h
      by (cases s) (auto simp: ask_token_def token_acquire_def intro: off_state split: option.split pyval.split)
  qed
  then show ?thesis by (simp add: keeps_def)
qed

lemma off_finish: "keeps held_off (finish_token (traced rpc) ans r)"
proof -
  have "finish_token (traced rpc) ans r =
      (if is_ok r then bnd (plain (token_owner (traced rpc))) (\<lambda>o2. ret (PDict (ans @ [(''tokenOwner 2'', o2)])))
       else (case pget r ''error'' of Some (PDict e) \<Rightarrow> ret (PDict ans) | Some e \<Rightarrow> fail AttributeError | None \<Rightarrow> fail TypeError))"
    by (auto simp: fun_eq_iff finish_token_def bnd_def plain_def ret_def fail_def split: prod.split option.split pyval.split)
  then show ?thesis by (auto intro!: off_intros split: option.split pyval.split)
qed

lemma off_take:
  assumes "refuses rpc"
  shows "keeps held_off (get_token (traced rpc) program caller override)"
  unfolding get_token_seq Let_def
  by (auto intro!: off_intros off_ask[OF assms] off_finish split: sum.split)

lemma off_release [off_intros]: "keeps held_off (plain (token_release (traced rpc)))"
proof -
  have "held_off s (snd (token_release (traced rpc) s))" for s
  proof -
    obtain r b w where c: "checked_call (traced rpc) ''tokenRelease'' None None s = (r, b, w)" by (rule prod_cases3)
    have "held_off s (b, w)"
      using keepsD[OF off_calls(1)[of "''tokenRelease''" rpc None None], of s "Inr r"] c by (simp add: plain_def)
    then show ?thesis using c by (cases s) (auto simp: token_release_def intro: off_state)
  qed
  then show ?thesis by (auto simp: keeps_def plain_def split: prod.split) (metis snd_conv)
qed

lemma off_quietly [off_intros]: "keeps held_off m \<Longrightarrow> keeps held_off (quietly m)"
  by (auto simp: quietly_def intro!: off_intros)

text \<open>The environment of a console whose calls are traced.\<close>

definition watched_io :: "('w \<times> trace) console_io \<Rightarrow> 'w rpc_fun \<Rightarrow> ('w \<times> trace) console_io" where
  "watched_io ci rpc = ci\<lparr>con_rpc := traced rpc\<rparr>"

lemma watched_simps [simp]: "con_rpc (watched_io ci rpc) = traced rpc" "con_now (watched_io ci rpc) = con_now ci"
  by (simp_all add: watched_io_def)

lemma off_token:
  assumes "refuses rpc"
  shows "keeps held_off (do_token (watched_io ci rpc) args)"
  unfolding do_token_def token_option_def take_token_def Let_def watched_simps
  by (intro off.k_if off_intros off_take[OF assms] asking_calls)

lemma off_only_with: "keeps held_off (bnd (peek (\<lambda>bw. bk_token (fst bw))) (\<lambda>t. if t then m else ret x))"
  by (auto simp: keeps_def bnd_def peek_def ret_def held_off_def)

lemma off_with:
  assumes "refuses rpc"
  shows "keeps held_off (with_token (watched_io ci rpc) x m)"
  unfolding with_token_def by (intro off.k_bnd off_token[OF assms] off_only_with)

lemmas [off_intros] = off.k_steps

lemma off_client [off_intros]: "(\<And>b. bk_token (f b) \<Longrightarrow> bk_token b) \<Longrightarrow> keeps held_off (modify (\<lambda>(b, w). (f b, w)))"
  by (auto simp: keeps_def modify_def held_off_def)

lemma off_disconnect [off_intros]: "keeps held_off (modify (disconnect (traced rpc)))"
proof -
  have "held_off (b, w) (snd (modify (disconnect (traced rpc)) (b, w)))" for b and w :: "'a \<times> trace"
    by (cases "bk_token b") (auto simp: modify_def disconnect_def held_off_def)
  then show ?thesis by (auto simp: keeps_def)
qed

lemma off_values: "keeps held_off (value_lookup (watched_io ci rpc) mem args)"
  unfolding value_lookup_def show_value_def Let_def watched_simps
  by (intro off_intros) (auto intro!: off_intros)

lemma off_report: "keeps held_off (report (watched_io ci rpc) para)"
  unfolding report_def report_values_def Let_def watched_simps
  by (auto intro!: off_intros split: pyval.split option.split)

lemma off_status: "keeps held_off (console_status (watched_io ci rpc))"
  unfolding console_status_def watched_simps by (intro off_intros)

lemma off_power:
  assumes "refuses rpc"
  shows "keeps held_off (do_power (watched_io ci rpc) arg)"
proof -
  have c: "keeps held_off (power (traced rpc) ''check'' None)" for rpc :: "'a rpc_fun"
    by (auto simp: keeps_def power_def checked_call_traced held_off_def mere_call_def)
  have off: "keeps held_off (bnd (peek (\<lambda>bw. bk_token (fst bw))) (\<lambda>t. if typed \<and> \<not> t then ret x else
      bnd (power (traced rpc) (if typed then a else ''check'') None) k))" if k: "\<And>r. keeps held_off (k r)"
    for typed a x and k :: "_ \<Rightarrow> (broker \<times> 'a \<times> trace, pyval) act"
  proof (cases typed)
    case False
    then show ?thesis using c k by (simp add: off.k_bnd off.k_peek)
  next
    case True
    then show ?thesis by (auto simp: keeps_def bnd_def peek_def ret_def held_off_def)
  qed
  show ?thesis unfolding do_power_def Let_def watched_simps
    by (intro off.k_bnd off.k_only_if off_token[OF assms] off off_quietly off.k_peek)
qed

text \<open>What every command of a table keeps, those of \<open>X\<close> left out, the loop keeps.\<close>

definition keeps_commands :: "('s \<Rightarrow> 's \<Rightarrow> bool) \<Rightarrow> string set \<Rightarrow> 's commands \<Rightarrow> bool" where
  "keeps_commands R X cmds \<longleftrightarrow> list_all (\<lambda>(n, f). n \<in> X \<or> (\<forall>a. keeps R (f a))) cmds"

definition avoids :: "string set \<Rightarrow> string \<Rightarrow> bool" where
  "avoids X line \<longleftrightarrow> (case parse_line line of None \<Rightarrow> True | Some (c, a) \<Rightarrow> c \<notin> X)"

context kept
begin

lemma k_one: "keeps_commands R X cmds \<Longrightarrow> avoids X line \<Longrightarrow> keeps R (one_cmd cmds line)"
  by (auto simp: one_cmd_def keeps_commands_def avoids_def list_all_iff dget_def intro: k_ret
      split: option.split dest!: map_of_SomeD)

lemma k_loop: "keeps_commands R X cmds \<Longrightarrow> list_all (avoids X) ls \<Longrightarrow> keeps R (cmd_loop cmds ls)"
  by (induction ls) (auto intro!: k_ret k_bnd k_one)

end

lemma keeps_commands_simps [simp]:
  "keeps_commands R X []"
  "keeps_commands R X ((n, f) # cs) \<longleftrightarrow> (n \<in> X \<or> (\<forall>a. keeps R (f a))) \<and> keeps_commands R X cs"
  "keeps_commands R X (cs @ ds) \<longleftrightarrow> keeps_commands R X cs \<and> keeps_commands R X ds"
  by (simp_all add: keeps_commands_def)

lemma off_broker:
  assumes "refuses rpc" "''shutdown'' \<in> X"
  shows "keeps_commands held_off X (broker_commands (watched_io ci rpc))"
proof -
  let ?ci = "watched_io ci rpc"
  have "keeps held_off (do_set ?ci st a)" for st a
    unfolding do_set_def set_value_def by (auto intro!: off_intros off_with[OF assms(1)] split: list.split)
  moreover have "keeps held_off (do_sub ?ci a)" "keeps held_off (do_unsub ?ci a)" "keeps held_off (do_init ?ci)" for a
    unfolding do_sub_def do_unsub_def do_init_def watched_simps by (auto intro!: off_intros)
  moreover have "keeps held_off (do_connect ?ci)" unfolding do_connect_def by (intro off_intros) simp
  moreover have "keeps held_off (do_suspend ?ci)" "keeps held_off (do_resume ?ci)"
    unfolding do_suspend_def do_resume_def by (auto intro!: off_intros off_with[OF assms(1)] off_status)
  moreover have "keeps held_off (do_exit a :: (broker \<times> 'a \<times> trace, pyval) act)" for a
    unfolding do_exit_def by (rule off.k_ret)
  ultimately show ?thesis
    using assms by (simp add: broker_commands_def off_quietly off_report off_values off_token off_status off_power)
qed

section \<open>The end of a loop\<close>

text \<open>A command whose value lets the loop go on.\<close>

definition idle :: "('s, pyval) act \<Rightarrow> bool" where
  "idle m \<longleftrightarrow> (\<forall>s v t. m s = (Inr v, t) \<longrightarrow> \<not> truthy v)"

lemma idle_quietly [simp]: "idle (quietly m)"
  by (auto simp: idle_def quietly_def bnd_def ret_def split: prod.splits sum.splits)

lemma idle_simps [simp]: "idle (ret x) \<longleftrightarrow> \<not> truthy x" "idle (fail e)"
  by (auto simp: idle_def ret_def fail_def)

lemma idle_bnd: "(\<And>x. idle (f x)) \<Longrightarrow> idle (bnd m f)"
  by (auto simp: idle_def bnd_def split: prod.splits sum.splits)

lemma idle_if [simp]: "idle (if c then m else n) \<longleftrightarrow> (if c then idle m else idle n)"
  by simp

definition idle_commands :: "string set \<Rightarrow> 's commands \<Rightarrow> bool" where
  "idle_commands X cmds \<longleftrightarrow> list_all (\<lambda>(n, f). n \<in> X \<or> (\<forall>a. idle (f a))) cmds"

lemma idle_commands_simps [simp]:
  "idle_commands X []"
  "idle_commands X ((n, f) # cs) \<longleftrightarrow> (n \<in> X \<or> (\<forall>a. idle (f a))) \<and> idle_commands X cs"
  "idle_commands X (cs @ ds) \<longleftrightarrow> idle_commands X cs \<and> idle_commands X ds"
  by (simp_all add: idle_commands_def)

definition leaving :: "string set" where
  "leaving = {''exit'', ''quit'', ''x''}"

lemma idle_one:
  assumes "idle_commands X cmds" "one_cmd cmds line s = (Inr v, t)" "truthy v"
  shows "\<not> avoids X line"
  using assms
  by (auto simp: one_cmd_def idle_commands_def avoids_def list_all_iff dget_def ret_def idle_def split: option.splits
      dest!: map_of_SomeD) blast

lemma idle_broker: "''token'' \<in> X \<Longrightarrow> leaving \<subseteq> X \<Longrightarrow> idle_commands X (broker_commands ci)"
  by (simp add: broker_commands_def leaving_def do_set_def do_sub_def do_unsub_def do_connect_def do_suspend_def do_resume_def
      do_shutdown_def do_power_def do_init_def value_lookup_def idle_bnd Let_def only_if_def split: list.split)

section \<open>Wrapped names\<close>

text \<open>What a line of the status says: its names, with a comma and a blank behind every one but the last of all.\<close>

definition listed :: "string list \<Rightarrow> string" where
  "listed ps = concat (map (\<lambda>p. p @ '', '') ps)"

lemma wrap_width:
  "length line \<le> 74 \<Longrightarrow> \<forall>p \<in> set ps. length p \<le> 68 \<Longrightarrow> \<forall>l \<in> set (wrap_names line ps). length l \<le> 74"
  by (induction line ps rule: wrap_names.induct) auto

lemma wrap_listed:
  "4 \<le> length line \<Longrightarrow> 6 \<le> length line \<or> ps \<noteq> [] \<Longrightarrow>
     concat (map (drop 4) (wrap_names line ps)) = butlast (butlast (drop 4 line @ listed ps))"
proof (induction line ps rule: wrap_names.induct)
  case (1 line)
  have "take (length line - 2) line = butlast (butlast line)" by (simp add: butlast_conv_take numeral_2_eq_2)
  then show ?case using 1 by (simp add: listed_def butlast_drop)
next
  case (2 line p ps)
  have "listed (p # ps) = p @ '', '' @ listed ps" by (simp add: listed_def)
  moreover have "butlast (butlast (xs @ p @ '', '' @ ys)) = xs @ butlast (butlast (p @ '', '' @ ys))" for xs ys
    by (simp add: butlast_append)
  ultimately show ?case using 2 by (cases "length line + 2 + length p \<le> 74") simp_all
qed

text \<open>
  The list of names in the status of a broker says every name once, in the order of the alphabet and separated by
  commas, and, unless a name is longer than 68 characters, in lines of at most 74.
\<close>

theorem status_names_listed:
  assumes "names \<noteq> []"
  shows "concat (map (drop 4) (tl (name_lines head none names))) = butlast (butlast (concat (map (\<lambda>n. n @ '', '') (sort names)))) \<and>
    ((\<forall>n \<in> set names. length n \<le> 68) \<longrightarrow> (\<forall>l \<in> set (tl (name_lines head none names)). length l \<le> 74))"
proof -
  have "sort names \<noteq> []" using assms by (metis length_0_conv length_sort)
  then show ?thesis
    using assms wrap_listed[of "''    ''" "sort names"] wrap_width[of "''    ''" "sort names"]
    by (simp add: name_lines_def listed_def)
qed

theorem status_names_listed_witness:
  "concat (map (drop 4) (tl (name_lines ''The callback parameters are:'' ''There are no callback parameters.'' [''pwm_out'', ''amps'']))) =
     ''amps, pwm_out''"
proof -
  have "butlast (butlast (concat (map (\<lambda>n. n @ '', '') (sort [''pwm_out'', ''amps''])))) = ''amps, pwm_out''" by code_simp
  then show ?thesis
    using status_names_listed[of "[''pwm_out'', ''amps'']" "''The callback parameters are:''" "''There are no callback parameters.''"] by simp
qed

end
