(* ===== verification/Instruments.thy ===== *)
theory Instruments
  imports Console Battery
begin

text \<open>
  The consoles of the single instruments in src/python/avp_console.py: sonde, sounder, GPS, particle sizer, water
  sampler, relays, wind and power monitor. Each adds commands to those of theory Console, or replaces them.
\<close>

section \<open>Reading for a message\<close>

definition attr_read :: "'w console_io \<Rightarrow> string \<Rightarrow> (broker \<times> 'w, pyval) act" where
  "attr_read ci n =
     bnd (peek (\<lambda>bw. item_of (fst bw) n)) (\<lambda>it. bnd (of_res it) (\<lambda>i. value_getter (con_rpc ci) (con_now ci) (di_name i)))"

text \<open>A value in a format with a width, with a fixed number of digits, and with a precision.\<close>

definition wide :: "pyval \<Rightarrow> unit res" where
  "wide v = (if has_format v then Inr () else Inl TypeError)"

fun fixed :: "pyval \<Rightarrow> unit res" where
  "fixed (PStr s) = Inl ValueError"
| "fixed v = wide v"

fun precise :: "pyval \<Rightarrow> unit res" where
  "precise (PInt i) = Inl ValueError"
| "precise (PBool b) = Inl ValueError"
| "precise v = wide v"

definition shown :: "(pyval \<Rightarrow> unit res) \<Rightarrow> 'w console_io \<Rightarrow> string \<Rightarrow> (broker \<times> 'w, unit) act" where
  "shown form ci n = bnd (attr_read ci n) (\<lambda>v. of_res (form v))"

definition plainly :: "pyval \<Rightarrow> unit res" where
  "plainly v = Inr ()"

text \<open>
  The status of a console: that of the broker, then lines of its own if the client is initialised and the instrument
  connected; some consoles take an unknown connection for none.
\<close>

definition status_and :: "'w console_io \<Rightarrow> bool \<Rightarrow> (broker \<times> 'w, unit) act \<Rightarrow> (broker \<times> 'w, pyval) act" where
  "status_and ci unknown m =
     bnd (console_status ci) (\<lambda>_.
     bnd (peek fst) (\<lambda>b.
     if \<not> bk_initialized b \<or> bk_instr b = Some False \<or> (bk_instr b = None \<and> \<not> unknown) then ret PNone else quietly m))"

text \<open>An operation of the client, in a state that also holds something else.\<close>

definition behind :: "('s, 'a) act \<Rightarrow> ('p \<times> 's, 'a) act" where
  "behind m s = (case m (snd s) of (r, t) \<Rightarrow> (r, fst s, t))"

section \<open>The sonde\<close>

text \<open>The configuration, the times of the calibration and the error of the pressure, which is kept with the client.\<close>

record 'w sonde_io =
  so_con :: "'w console_io"
  so_cfg :: sonde_cfg
  so_times :: cal_times

definition do_in_water :: "'w sonde_io \<Rightarrow> string \<Rightarrow> (rat \<times> broker \<times> 'w, pyval) act" where
  "do_in_water si args =
     bnd (behind (attr_read (so_con si) ''sampling'')) (\<lambda>_.
     bnd (peek fst) (\<lambda>err.
     quietly (behind (in_water (con_rpc (so_con si)) (so_cfg si) (con_now (so_con si)) err (if args = [] then ''any'' else args)))))"

text \<open>Half the number of wipes that are left: an answer without one raises TypeError.\<close>

definition do_wipestatus :: "'w console_io \<Rightarrow> (broker \<times> 'w, pyval) act" where
  "do_wipestatus ci =
     bnd (get_value (con_rpc ci) [''wipes_left''] False None) (\<lambda>r.
     if is_dict r then quietly (of_res (number (pget_or r ''wipes_left'' PNone))) else fail AttributeError)"

definition do_wipe :: "'w sonde_io \<Rightarrow> (broker \<times> 'w, pyval) act" where
  "do_wipe si =
     (let ci = so_con si
      in quietly (with_token ci PNone (bnd (wipe (con_rpc ci) (so_cfg si) (con_now ci)) (\<lambda>_. do_wipestatus ci))))"

definition do_calibrate :: "'w sonde_io \<Rightarrow> string \<Rightarrow> (rat \<times> broker \<times> 'w, pyval) act" where
  "do_calibrate si args =
     (let ci = so_con si
      in bnd (behind (do_token ci ''acquire'')) (\<lambda>_.
         bnd (peek (\<lambda>s. bk_token (fst (snd s)))) (\<lambda>t.
         if t then bnd (calibrate_pressure (con_rpc ci) (so_cfg si) (so_times si) (\<not> sublist ''force'' args) None) (\<lambda>_.
                   quietly (behind (do_token ci ''release'')))
         else ret PNone)))"

definition do_sample :: "'w sonde_io \<Rightarrow> string \<Rightarrow> (broker \<times> 'w, pyval) act" where
  "do_sample si args =
     (let ci = so_con si
      in if args = ''on'' then quietly (with_token ci PNone (start_sampling (con_rpc ci) (so_cfg si)))
         else if args = ''off'' then quietly (with_token ci PNone (stop_sampling (con_rpc ci) (con_now ci) None))
         else bnd (attr_read ci ''sampling'') (\<lambda>v. if eq_num v 1 then ret PNone else quietly (attr_read ci ''sampling'')))"

text \<open>Every exception of starting, a missing number among them, is caught.\<close>

definition do_logging :: "'w sonde_io \<Rightarrow> string \<Rightarrow> (broker \<times> 'w, pyval) act" where
  "do_logging si args =
     (let ci = so_con si; ws = py_split args
      in if args = [] then quietly (is_logging (con_rpc ci) (con_now ci) None)
         else quietly (with_token ci PNone (
           if ws = [] then fail IndexError
           else if hd ws = ''on''
           then catching (bnd (of_res (if length ws < 2 then Inl IndexError else int_of_string (ws ! 1))) (\<lambda>k.
                  start_logging (con_rpc ci) (so_cfg si) (con_now ci) (PInt k) None)) (\<lambda>e. ret PNone)
           else if hd ws = ''off'' then stop_logging (con_rpc ci) None
           else ret PNone)))"

text \<open>The depth is read although the console has found, and said, that there is none.\<close>

definition sonde_status :: "'w console_io \<Rightarrow> (broker \<times> 'w, pyval) act" where
  "sonde_status ci =
     bnd (get_value (con_rpc ci) [''sampling'', ''logging''] False None) (\<lambda>_.
     status_and ci False (
       bnd (peek (\<lambda>bw. item_of (fst bw) ''depth_m'')) (\<lambda>d.
       bnd (of_res (case d of Inl e \<Rightarrow> Inr () | Inr i \<Rightarrow> if di_sample i = None then Inl TypeError else Inr ())) (\<lambda>_.
       steps [shown plainly ci ''sampling'', shown plainly ci ''logging'', shown plainly ci ''depth_m'',
         bnd (has_item ''spcond_mScm'') (\<lambda>h. only_if h (shown plainly ci ''spcond_mScm'') ()),
         bnd (has_item ''spcond_uScm'') (\<lambda>h. only_if h (shown plainly ci ''spcond_uScm'') ())]))))"

definition sonde_commands :: "'w sonde_io \<Rightarrow> (rat \<times> broker \<times> 'w) commands" where
  "sonde_commands si =
     [(''in_water'', do_in_water si), (''wipe'', \<lambda>a. behind (do_wipe si)), (''wipestatus'', \<lambda>a. behind (do_wipestatus (so_con si))),
      (''ws'', \<lambda>a. behind (do_wipestatus (so_con si))), (''calibrate'', do_calibrate si), (''cal'', do_calibrate si),
      (''sample'', \<lambda>a. behind (do_sample si a)), (''logging'', \<lambda>a. behind (do_logging si a)),
      (''log'', \<lambda>a. behind (do_logging si a)), (''status'', \<lambda>a. behind (sonde_status (so_con si))),
      (''console'', \<lambda>a. behind (do_console (so_con si)))] @
     map (\<lambda>(n, f). (n, \<lambda>a. behind (f a))) (broker_commands (so_con si))"

section \<open>Sounder, GPS, wind, power\<close>

definition sounder_commands :: "'w console_io \<Rightarrow> (broker \<times> 'w) commands" where
  "sounder_commands ci =
     [(''status'', \<lambda>a. status_and ci True (steps [shown fixed ci ''water_depth'', shown fixed ci ''water_depth_working'',
         shown fixed ci ''water_temp_surface''])),
      (''console'', \<lambda>a. do_console ci)] @ broker_commands ci"

text \<open>
  The status of the GPS: the geometry is an input. The message for a failure names the position, which is not bound
  when reading it has failed.
\<close>

definition gps_caught :: "pyexn \<Rightarrow> bool" where
  "gps_caught e \<longleftrightarrow> e = TypeError \<or> e = AttributeError"

definition gps_lines :: "'w console_io \<Rightarrow> (pyval \<Rightarrow> pyval \<Rightarrow> unit res) \<Rightarrow> (broker \<times> 'w, unit) act" where
  "gps_lines ci geo =
     bnd (catching (bnd (attr_read ci ''lat'') (\<lambda>la. bnd (attr_read ci ''lon'') (\<lambda>lo. ret (la, lo))))
           (\<lambda>e. fail (if gps_caught e then UserException ''UnboundLocalError'' else e))) (\<lambda>(la, lo).
     catching (bnd (of_res (geo la lo)) (\<lambda>_. bnd (attr_read ci ''mode'') (\<lambda>m.
         of_res (if \<not> hashable m then Inl TypeError else res_bind (precise la) (\<lambda>_. precise lo)))))
       (\<lambda>e. if gps_caught e then ret () else fail e))"

definition gps_commands :: "'w console_io \<Rightarrow> (pyval \<Rightarrow> pyval \<Rightarrow> unit res) \<Rightarrow> (broker \<times> 'w) commands" where
  "gps_commands ci geo =
     [(''status'', \<lambda>a. status_and ci True (gps_lines ci geo)), (''console'', \<lambda>a. do_console ci)] @ broker_commands ci"

definition wind_commands :: "'w console_io \<Rightarrow> (broker \<times> 'w) commands" where
  "wind_commands ci =
     [(''status'', \<lambda>a. status_and ci True (bnd (attr_read ci ''wind_speed'') (\<lambda>v.
         if v = PNone then ret ()
         else bnd (attr_read ci ''wind_speed'') (\<lambda>speed. bnd (attr_read ci ''wind_speed'') (\<lambda>again.
              bnd (of_res (number again)) (\<lambda>_. bnd (attr_read ci ''wind_direction'') (\<lambda>_. of_res (fixed speed)))))))),
      (''console'', \<lambda>a. do_console ci)] @ broker_commands ci"

definition power_commands :: "'w console_io \<Rightarrow> (broker \<times> 'w) commands" where
  "power_commands ci = [(''status'', \<lambda>a. status_and ci True (ret ())), (''console'', \<lambda>a. do_console ci)] @ broker_commands ci"

section \<open>The particle sizer\<close>

text \<open>
  A flush that does not block runs as a thread, which is kept until it runs: it has been started before the console
  gives the token back.
\<close>

record 'w lisst_io =
  li_con :: "'w console_io"
  li_cfg :: lisst_cfg
  li_latency :: int

type_synonym 'w threads = "(broker \<times> 'w, pyval) act list"

definition collect :: "'w lisst_io \<Rightarrow> string \<Rightarrow> (broker \<times> 'w, pyval) act" where
  "collect li args =
     (let ci = li_con li; ws = py_split args
      in if args = [] then quietly (attr_read ci ''data_collection'')
         else quietly (with_token ci PNone (
           if args = ''off'' then stop_collection (con_rpc ci) None
           else if ws = [] then fail IndexError
           else if hd ws = ''on''
           then catching (bnd (of_res (if length ws < 2 then Inl IndexError else int_of_string (ws ! 1))) (\<lambda>k.
                  start_collection (con_rpc ci) (PInt k) (li_latency li) None)) (\<lambda>e. ret PNone)
           else ret PNone)))"

definition flush_line :: "'w lisst_io \<Rightarrow> string \<Rightarrow> ('w threads \<times> broker \<times> 'w, pyval) act" where
  "flush_line li args =
     (let ci = li_con li; ws = py_split args; blocking = (length ws \<ge> 2 \<and> hd (ws ! 1) = CHR ''b'')
      in if ws = [] then quietly (behind (is_flushing (con_rpc ci)))
         else case int_of_string (hd ws) of
                Inl e \<Rightarrow> ret PNone
              | Inr k \<Rightarrow>
                  bnd (behind (with_token ci None (bnd (flush_valve (con_rpc ci) (li_cfg li) (con_now ci) blocking (Some (of_int k))) (\<lambda>r.
                        ret (snd r))))) (\<lambda>job.
                  quietly (modify (\<lambda>(jobs, bw). (jobs @ (case job of None \<Rightarrow> [] | Some j \<Rightarrow> [j]), bw)))))"

text \<open>The oldest thread runs, as a whole; what it raises ends only the thread.\<close>

definition run_thread :: "('w threads \<times> broker \<times> 'w, unit) act" where
  "run_thread s = (case fst s of [] \<Rightarrow> (Inr (), s) | j # js \<Rightarrow> (Inr (), js, snd (j (snd s))))"

definition pump_line :: "'w console_io \<Rightarrow> string \<Rightarrow> (broker \<times> 'w, pyval) act" where
  "pump_line ci args =
     (if args = [] then quietly (is_pumping (con_rpc ci))
      else quietly (with_token ci PNone (
        if args = ''on'' then start_pump (con_rpc ci) (con_now ci) None
        else if args = ''off'' then stop_pump (con_rpc ci) (con_now ci) None
        else ret PNone)))"

definition do_get :: "'w lisst_io \<Rightarrow> string \<Rightarrow> (broker \<times> 'w, pyval) act" where
  "do_get li args =
     quietly (with_token (li_con li) PNone (get_file (con_rpc (li_con li)) (li_cfg li) (if args = [] then None else Some args)))"

definition do_del :: "'w console_io \<Rightarrow> string \<Rightarrow> (broker \<times> 'w, pyval) act" where
  "do_del ci args = quietly (with_token ci PNone (delete_file (con_rpc ci) args None))"

definition lisst_lines :: "'w console_io \<Rightarrow> (broker \<times> 'w, unit) act" where
  "lisst_lines ci =
     bnd (attr_read ci ''serial_number'') (\<lambda>sn. bnd (attr_read ci ''firmware_version'') (\<lambda>fw.
     bnd (of_res (res_bind (wide sn) (\<lambda>_. wide fw))) (\<lambda>_.
     bnd (attr_read ci ''seawater_pump'') (\<lambda>p. bnd (attr_read ci ''clean_water_flush'') (\<lambda>f.
     bnd (of_res (res_bind (wide p) (\<lambda>_. wide f))) (\<lambda>_. shown wide ci ''clean_water_level''))))))"

definition lisst_commands :: "'w lisst_io \<Rightarrow> ('w threads \<times> broker \<times> 'w) commands" where
  "lisst_commands li =
     [(''collect'', \<lambda>a. behind (collect li a)), (''flush'', flush_line li), (''pump'', \<lambda>a. behind (pump_line (li_con li) a)),
      (''get'', \<lambda>a. behind (do_get li a)), (''del'', \<lambda>a. behind (do_del (li_con li) a)),
      (''status'', \<lambda>a. behind (status_and (li_con li) False (lisst_lines (li_con li)))),
      (''console'', \<lambda>a. behind (do_console (li_con li)))] @
     map (\<lambda>(n, f). (n, \<lambda>a. behind (f a))) (broker_commands (li_con li))"

section \<open>The water sampler\<close>

text \<open>What is ordered: bottle, volume in ml, cast and depth in mm.\<close>

record order =
  or_bottle :: pyval
  or_volume :: int
  or_cast :: int
  or_depth :: int

text \<open>An argument is a letter and an integer. None: the console says why and gives up.\<close>

definition order_arg :: "int \<Rightarrow> int \<Rightarrow> string \<Rightarrow> order \<Rightarrow> order option" where
  "order_arg bottles most arg o1 =
     (case int_of_string (tl arg) of
        Inl e \<Rightarrow> None
      | Inr n \<Rightarrow>
          (if hd arg = CHR ''b'' then if 1 \<le> n \<and> n \<le> bottles then Some (o1\<lparr>or_bottle := PInt n\<rparr>) else None
           else if hd arg = CHR ''v'' then if 1 \<le> n \<and> n \<le> most then Some (o1\<lparr>or_volume := n\<rparr>) else None
           else if hd arg = CHR ''c'' then if n \<ge> 0 then Some (o1\<lparr>or_cast := n\<rparr>) else None
           else if hd arg = CHR ''d'' then Some (o1\<lparr>or_depth := n\<rparr>)
           else None))"

fun order_args :: "int \<Rightarrow> int \<Rightarrow> string list \<Rightarrow> order \<Rightarrow> order option" where
  "order_args bottles most [] o1 = Some o1"
| "order_args bottles most (a # as) o1 =
     (case order_arg bottles most a o1 of None \<Rightarrow> None | Some o2 \<Rightarrow> order_args bottles most as o2)"

record 'w isco_io =
  is_con :: "'w console_io"
  is_bottles :: int
  is_size :: int

definition sample_line :: "'w isco_io \<Rightarrow> string \<Rightarrow> (broker \<times> 'w, pyval) act" where
  "sample_line ii args =
     (let ci = is_con ii
      in bnd (get_value (con_rpc ci) [''bottle_num'', ''sample_volume''] False None) (\<lambda>_.
         bnd (attr_read ci ''bottle_num'') (\<lambda>bottle.
         case order_args (is_bottles ii) (is_size ii) (py_split args)
                \<lparr>or_bottle = bottle, or_volume = 1000, or_cast = 0, or_depth = 0\<rparr> of
           None \<Rightarrow> ret PNone
         | Some d \<Rightarrow> quietly (with_token ci PNone
             (take_sample (con_rpc ci) (or_bottle d) (or_volume d) (PInt (or_cast d)) (PInt (or_depth d)) None)))))"

definition isco_lines :: "'w console_io \<Rightarrow> (broker \<times> 'w, unit) act" where
  "isco_lines ci =
     bnd (get_value (con_rpc ci) [''hardware_revision'', ''software_revision'', ''model'', ''ID'', ''isco_time'', ''isco_status'',
       ''isco_sample_time'', ''bottle_num'', ''sample_volume'', ''sample_status''] False None) (\<lambda>_.
     catching (steps (map (shown plainly ci) [''hardware_revision'', ''software_revision'', ''model'', ''ID'', ''isco_time'',
           ''isco_sample_time'', ''bottle_num'', ''sample_volume''] @
         [bnd (attr_read ci ''isco_status'') (\<lambda>v. bnd (get_isco_status (con_rpc ci) (con_now ci) v) (\<lambda>_. shown plainly ci ''isco_status'')),
          bnd (attr_read ci ''sample_status'') (\<lambda>v. bnd (get_sample_status (con_rpc ci) (con_now ci) v) (\<lambda>_.
            shown plainly ci ''sample_status''))]))
       (\<lambda>e. ret ()))"

definition isco_commands :: "'w isco_io \<Rightarrow> (broker \<times> 'w) commands" where
  "isco_commands ii =
     [(''on'', \<lambda>a. quietly (with_token (is_con ii) PNone (sampler_on (con_rpc (is_con ii)) None))), (''sample'', sample_line ii),
      (''status'', \<lambda>a. status_and (is_con ii) False (isco_lines (is_con ii))), (''console'', \<lambda>a. do_console (is_con ii))] @
     broker_commands (is_con ii)"

section \<open>The relays\<close>

text \<open>
  Devices and their points; those of the second table are there if the client has the point. The addresses are the
  aliases of the configuration, None: it has no section of them.
\<close>

definition aio_devices :: "(string \<times> string) list" where
  "aio_devices = [(''modem'', ''relay_modem_reset''), (''sonde'', ''relay_sonde''), (''winch'', ''reset_MM3''), (''wind'', ''relay_wind''),
     (''sounder'', ''relay_sounder''), (''tension'', ''tension_switch_enable''), (''limit'', ''limit_switch_enable'')]"

definition aio_optional :: "(string \<times> string) list" where
  "aio_optional = [(''adcp'', ''relay_ADCP''), (''isco'', ''relay_ISCO''), (''lisst'', ''relay_LISST''), (''24v'', ''relay_24V''), (''5v'', ''relay_5V'')]"

record 'w aio_io =
  ao_con :: "'w console_io"
  ao_devices :: "(string \<times> string) list"
  ao_aliases :: "(string \<times> string) list option"
  ao_relay_on :: pyval
  ao_relay_off :: pyval

definition found_devices :: "(string \<Rightarrow> bool) \<Rightarrow> (string \<times> string) list" where
  "found_devices has = aio_devices @ filter (\<lambda>(d, p). has p) aio_optional"

definition pin_values :: "'w aio_io \<Rightarrow> string \<Rightarrow> pyval \<times> pyval" where
  "pin_values ai pin = (if prefix ''relay'' pin then (ao_relay_on ai, ao_relay_off ai) else (PInt 1, PInt 0))"

text \<open>A device without an address has the name None, which no attribute can have.\<close>

definition pin_read :: "'w aio_io \<Rightarrow> string option \<Rightarrow> (broker \<times> 'w, unit) act" where
  "pin_read ai address =
     (case address of
        None \<Rightarrow> fail TypeError
      | Some a \<Rightarrow> bnd (get_value (con_rpc (ao_con ai)) [a] False None) (\<lambda>r. if is_dict r then ret () else fail AttributeError))"

definition pin_set :: "'w aio_io \<Rightarrow> string option \<Rightarrow> pyval \<Rightarrow> (broker \<times> 'w, pyval) act" where
  "pin_set ai address v =
     (let ci = ao_con ai
      in with_token ci PNone (case address of
           None \<Rightarrow> fail TypeError
         | Some a \<Rightarrow> set_params (con_rpc ci) (con_now ci) [(a, v)] False None))"

definition aio_power :: "'w aio_io \<Rightarrow> string \<Rightarrow> (broker \<times> 'w, pyval) act" where
  "aio_power ai args =
     (case ao_aliases ai of
        None \<Rightarrow> fail (KeyError ''aliases'')
      | Some aliases \<Rightarrow>
          (case py_split args of
             [] \<Rightarrow> quietly (steps (map (\<lambda>(d, pin). pin_read ai (dget aliases pin)) (ao_devices ai)))
           | w # ws \<Rightarrow>
               (case dget (ao_devices ai) w of
                  None \<Rightarrow> ret PNone
                | Some pin \<Rightarrow>
                    (case ws of
                       [mode] \<Rightarrow>
                         (if mode = ''on'' then quietly (pin_set ai (dget aliases pin) (fst (pin_values ai pin)))
                          else if mode = ''off'' then quietly (pin_set ai (dget aliases pin) (snd (pin_values ai pin)))
                          else ret PNone)
                     | _ \<Rightarrow> quietly (pin_read ai (dget aliases pin))))))"

definition aio_lines :: "'w console_io \<Rightarrow> (broker \<times> 'w, unit) act" where
  "aio_lines ci =
     (let analog = (\<lambda>n. bnd (attr_read ci n) (\<lambda>v. bnd (of_res (py_float v)) (\<lambda>_. ret ())))
      in steps [analog ''load_current_ADC'', analog ''charge_current_ADC'',
           bnd (attr_read ci ''humidity_ADC'') (\<lambda>v. bnd (of_res (number v)) (\<lambda>_. ret ())), analog ''voltage_ADC''])"

definition aio_commands :: "'w aio_io \<Rightarrow> (broker \<times> 'w) commands" where
  "aio_commands ai =
     [(''power'', aio_power ai), (''status'', \<lambda>a. status_and (ao_con ai) False (aio_lines (ao_con ai))), (''console'', \<lambda>a. ret PNone)] @
     broker_commands (ao_con ai)"

section \<open>Consoles without the token\<close>

definition held_behind :: "'p \<times> broker \<times> 'w \<times> trace \<Rightarrow> 'p \<times> broker \<times> 'w \<times> trace \<Rightarrow> bool" where
  "held_behind s t \<longleftrightarrow> held_off (snd s) (snd t) \<and> (\<not> bk_token (fst (snd s)) \<longrightarrow> fst t = fst s)"

interpretation held: kept held_behind
proof
  show "held_behind s s" for s :: "'p \<times> broker \<times> 'w \<times> trace" by (simp add: held_behind_def off.r_refl)
  show "held_behind s u" if "held_behind s t" "held_behind t u" for s t u :: "'p \<times> broker \<times> 'w \<times> trace"
    using that by (auto simp: held_behind_def intro: off.r_trans) (auto simp: held_off_def)
qed

lemma held_lift: "keeps held_off m \<Longrightarrow> keeps held_behind (behind m)"
  by (auto simp: keeps_def behind_def held_behind_def split: prod.split) (metis snd_conv)

lemma off_attr [off_intros]: "keeps held_off (attr_read (watched_io ci rpc) n)"
  unfolding attr_read_def watched_simps by (intro off_intros)

lemma off_shown [off_intros]: "keeps held_off (shown form (watched_io ci rpc) n)"
  unfolding shown_def by (intro off_intros)

lemma off_status_and: "keeps held_off m \<Longrightarrow> keeps held_off (status_and (watched_io ci rpc) u m)"
  unfolding status_and_def by (intro off_intros off_status)

lemma off_console [off_intros]: "keeps held_off (do_console ci)"
  unfolding do_console_def by (intro off_intros)

lemma off_has [off_intros]: "keeps held_off (has_item n)"
  unfolding has_item_def by (intro off_intros)

lemma off_flag [off_intros]: "keeps held_off (read_flag (traced rpc) n)"
  unfolding read_flag_def by (intro off_intros)

lemma off_wipestatus [off_intros]: "keeps held_off (do_wipestatus (watched_io ci rpc))"
  unfolding do_wipestatus_def watched_simps by (intro off_intros)

lemma off_ready [off_intros]: "keeps held_off m \<Longrightarrow> keeps held_off (if_ready x m)"
  by (auto simp: if_ready_def keeps_def off.r_refl)

lemma off_get_sub [off_intros]: "keeps held_off (get_sub n)"
  by (auto simp: get_sub_def keeps_def off.r_refl split: sum.split)

lemma off_isco_status [off_intros]: "keeps held_off (get_status t (traced rpc) now v)"
  unfolding get_status_def by (intro off_intros)

lemma off_logging [off_intros]: "keeps held_off (is_logging (traced rpc) now t)"
  unfolding is_logging_def by (auto intro!: off_intros)

lemma keeps_commands_behind:
  "keeps_commands held_off X cmds \<Longrightarrow> keeps_commands held_behind X (map (\<lambda>(n, f). (n, \<lambda>a. behind (f a))) cmds)"
  by (auto simp: keeps_commands_def list_all_iff intro!: held_lift)

lemma given_up:
  assumes "refuses rpc" "\<not> bk_token (fst bw)" "with_token (watched_io ci rpc) x m bw = (r, t)"
  shows "r = Inr x \<or> \<not> (\<exists>y. r = Inr y)"
proof (rule bnd_cases[of "do_token (watched_io ci rpc) ''acquire''" bw
      "\<lambda>_. bnd (peek (\<lambda>bw. bk_token (fst bw))) (\<lambda>t. if t then bnd m (\<lambda>r. bnd (do_token (watched_io ci rpc) ''release'') (\<lambda>_. ret r)) else ret x)"])
  fix e s1
  assume "bnd (do_token (watched_io ci rpc) ''acquire'') (\<lambda>_. bnd (peek (\<lambda>bw. bk_token (fst bw)))
     (\<lambda>t. if t then bnd m (\<lambda>r. bnd (do_token (watched_io ci rpc) ''release'') (\<lambda>_. ret r)) else ret x)) bw = (Inl e, s1)"
  then show ?thesis using assms(3) by (auto simp: with_token_def)
next
  fix v s1
  assume v: "do_token (watched_io ci rpc) ''acquire'' bw = (Inr v, s1)"
  then have "\<not> bk_token (fst s1)" using keepsD[OF off_token[OF assms(1)] v] assms(2) by (simp add: held_off_def)
  then show ?thesis using assms(3) v by (simp add: with_token_def bnd_def peek_def ret_def)
qed

lemma held_sonde:
  assumes "refuses rpc" "so_con si = watched_io ci rpc" "{''shutdown'', ''in_water''} \<subseteq> X"
  shows "keeps_commands held_behind X (sonde_commands si)"
proof -
  let ?ci = "watched_io ci rpc"
  have cal: "keeps held_behind (do_calibrate si a)" for a
  proof -
    have "keeps held_behind (bnd (peek (\<lambda>s. bk_token (fst (snd s)))) (\<lambda>t. if t then m else ret PNone))"
      for m :: "(rat \<times> broker \<times> 'a \<times> trace, pyval) act"
      by (auto simp: keeps_def bnd_def peek_def ret_def held_behind_def held_off_def)
    note give_up = this
    show ?thesis unfolding do_calibrate_def Let_def assms(2)
      by (rule held.k_bnd[OF held_lift[OF off_token[OF assms(1)]]]) (rule give_up)
  qed
  have "keeps held_off (do_wipe si)" "keeps held_off (do_sample si a)" "keeps held_off (do_logging si a)"
    "keeps held_off (sonde_status ?ci)" for a
    using assms(1)
    by (auto simp: do_wipe_def do_sample_def do_logging_def sonde_status_def Let_def assms(2) intro!: off_intros off_with off_status_and)
  then show ?thesis using assms cal off_broker[OF assms(1), of X ci]
    by (auto simp: sonde_commands_def intro!: held_lift off_intros keeps_commands_behind)
qed

lemma held_lisst:
  assumes "refuses rpc" "li_con li = watched_io ci rpc" "''shutdown'' \<in> X"
  shows "keeps_commands held_behind X (lisst_commands li)"
proof -
  let ?ci = "watched_io ci rpc"
  have no_job: "keeps held_behind (bnd (behind (with_token ?ci None m)) (\<lambda>job.
      quietly (modify (\<lambda>(jobs, bw). (jobs @ (case job of None \<Rightarrow> [] | Some j \<Rightarrow> [j]), bw)))))"
      for m :: "(broker \<times> 'a \<times> trace, (broker \<times> 'a \<times> trace, pyval) act option) act"
    unfolding keeps_def
  proof
    fix s :: "('a \<times> trace) threads \<times> broker \<times> 'a \<times> trace"
    obtain jobs bw where s: "s = (jobs, bw)" by (cases s)
    obtain r t where w: "with_token ?ci None m bw = (r, t)" by (cases "with_token ?ci None m bw")
    then have h: "held_off bw t" using off_with[OF assms(1)] by (metis keepsD)
    show "held_behind s (snd (bnd (behind (with_token ?ci None m)) (\<lambda>job.
        quietly (modify (\<lambda>(jobs, bw). (jobs @ (case job of None \<Rightarrow> [] | Some j \<Rightarrow> [j]), bw)))) s))"
      using s w h given_up[OF assms(1) _ w]
      by (cases r) (auto simp: bnd_def behind_def quietly_def modify_def ret_def held_behind_def)
  qed
  have "keeps held_behind (flush_line li a)" for a
    unfolding flush_line_def Let_def assms(2) is_flushing_def
    by (cases "int_of_string (hd (py_split a))")
      (auto simp: quietly_def[of "behind _"] intro!: no_job held.k_ret held.k_bnd held_lift off_flag)
  moreover have "keeps held_off (collect li a)" "keeps held_off (pump_line ?ci a)" "keeps held_off (do_get li a)"
    "keeps held_off (do_del ?ci a)" "keeps held_off (lisst_lines ?ci)" for a
    using assms(1)
    by (auto simp: collect_def pump_line_def is_pumping_def do_get_def do_del_def lisst_lines_def Let_def assms(2)
        intro!: off_intros off_with)
  ultimately show ?thesis using assms off_broker[OF assms(1), of X ci]
    by (auto simp: lisst_commands_def intro!: held_lift off_intros off_status_and keeps_commands_behind)
qed

lemma off_isco:
  assumes "refuses rpc" "is_con ii = watched_io ci rpc" "''shutdown'' \<in> X"
  shows "keeps_commands held_off X (isco_commands ii)"
proof -
  have "keeps held_off (sample_line ii a)" for a
    using assms(1) by (auto simp: sample_line_def Let_def assms(2) intro!: off_intros off_with split: option.split)
  moreover have "keeps held_off (isco_lines (watched_io ci rpc))"
    unfolding isco_lines_def get_isco_status_def get_sample_status_def by (auto intro!: off_intros)
  ultimately show ?thesis using assms off_broker[OF assms(1), of X ci]
    by (auto simp: isco_commands_def intro!: off_intros off_with off_status_and)
qed

lemma off_aio:
  assumes "refuses rpc" "ao_con ai = watched_io ci rpc" "''shutdown'' \<in> X"
  shows "keeps_commands held_off X (aio_commands ai)"
proof -
  have r: "keeps held_off (pin_read ai a)" for a
    by (auto simp: pin_read_def assms(2) intro!: off_intros split: option.split)
  have s: "keeps held_off (pin_set ai a v)" for a v
    by (simp add: pin_set_def Let_def assms(2) off_with[OF assms(1)])
  have "keeps held_off (aio_power ai a)" for a
    by (auto simp: aio_power_def intro!: off_intros r s split: option.split list.split)
  moreover have "keeps held_off (aio_lines (watched_io ci rpc))"
    by (auto simp: aio_lines_def Let_def intro!: off_intros)
  ultimately show ?thesis using assms off_broker[OF assms(1), of X ci]
    by (auto simp: aio_commands_def intro!: off_intros off_status_and)
qed

lemma off_small:
  assumes "refuses rpc" "''shutdown'' \<in> X"
  shows "keeps_commands held_off X (sounder_commands (watched_io ci rpc))"
    "keeps_commands held_off X (gps_commands (watched_io ci rpc) geo)"
    "keeps_commands held_off X (wind_commands (watched_io ci rpc))"
    "keeps_commands held_off X (power_commands (watched_io ci rpc))"
  using assms off_broker[OF assms, of ci]
  by (auto simp: sounder_commands_def gps_commands_def gps_lines_def wind_commands_def power_commands_def
      intro!: off_intros off_status_and split: prod.split)

end
