(* ===== verification/Session.thy ===== *)
theory Session
  imports Instruments
begin

text \<open>
  What sessions at the consoles of the instruments send to the brokers: with and without the token, the limits of what
  is ordered, and which lines end a session.
\<close>

section \<open>What a command with the token sends\<close>

lemma do_token_words [simp]:
  "py_split ''acquire'' = [''acquire'']" "py_split ''release'' = [''release'']"
  by code_simp+

text \<open>Either the token is not given, or the command runs with it, behind calls for the token only.\<close>

lemma with_token_run:
  assumes "with_token (watched_io ci rpc) x m s = (r, t)"
  obtains (refused) "token_step s t" "r = Inr x \<or> \<not> (\<exists>y. r = Inr y)"
  | (ran) s1 r2 s2 where "token_step s s1" "bk_token (fst s1)" "m s1 = (r2, s2)" "sent {''tokenRelease''} s2 t" "\<And>y. r = Inr y \<Longrightarrow> r2 = Inr y"
proof -
  let ?ci = "watched_io ci rpc"
  obtain r1 s1 where a: "do_token ?ci ''acquire'' s = (r1, s1)" by (cases "do_token ?ci ''acquire'' s")
  have "keeps token_step (do_token ?ci ''acquire'')"
    unfolding do_token_def token_option_def take_token_def by (auto simp: quietly_def intro!: tok.k_rules get_token_step)
  then have step: "token_step s s1" using a by (rule keepsD)
  have rel: "keeps (sent {''tokenRelease''}) (do_token ?ci ''release'')"
    unfolding do_token_def token_option_def token_release_def
    by (auto simp: quietly_def intro!: calls_intros plain_sends split: prod.split)
      (auto simp: checked_call_traced sent_def)
  show ?thesis
  proof (cases r1)
    case (Inl e)
    then show ?thesis using assms a step by (intro refused) (auto simp: with_token_def bnd_def)
  next
    case (Inr v)
    show ?thesis
    proof (cases "bk_token (fst s1)")
      case False
      then show ?thesis using assms a Inr step by (intro refused) (auto simp: with_token_def bnd_def peek_def ret_def)
    next
      case True
      obtain r2 s2 where m: "m s1 = (r2, s2)" by (cases "m s1")
      have t: "bnd m (\<lambda>r. bnd (do_token ?ci ''release'') (\<lambda>_. ret r)) s1 = (r, t)"
        using assms a Inr True by (simp add: with_token_def bnd_def peek_def)
      show ?thesis
      proof (cases r2)
        case (Inl e)
        then show ?thesis using t m step True ran[of s1 r2 s2] by (auto simp: bnd_def sent_def)
      next
        case (Inr y)
        obtain r3 s3 where k: "do_token ?ci ''release'' s2 = (r3, s3)" by (cases "do_token ?ci ''release'' s2")
        then show ?thesis using t m Inr step True keepsD[OF rel k] ran[of s1 r2 s2]
          by (cases r3) (auto simp: bnd_def ret_def)
      qed
    qed
  qed
qed

text \<open>Every call that is sent has a property.\<close>

definition called :: "(string \<times> pyval option \<Rightarrow> bool) \<Rightarrow> broker \<times> 'w \<times> trace \<Rightarrow> broker \<times> 'w \<times> trace \<Rightarrow> bool" where
  "called P s t \<longleftrightarrow> (\<exists>rest. snd (snd t) = snd (snd s) @ rest \<and> (\<forall>c \<in> set rest. P c))"

interpretation called: kept "called P" for P
proof
  show "called P s s" for s :: "broker \<times> 'w \<times> trace" by (simp add: called_def)
  show "called P s u" if "called P s t" "called P t u" for s t u :: "broker \<times> 'w \<times> trace"
    using that by (auto simp: called_def)
qed

lemma called_sent: "sent M s t \<Longrightarrow> (\<And>m p. m \<in> M \<Longrightarrow> P (m, p)) \<Longrightarrow> called P s t"
  by (fastforce simp: called_def sent_def)

lemma called_keeps: "keeps (sent M) m \<Longrightarrow> (\<And>n p. n \<in> M \<Longrightarrow> P (n, p)) \<Longrightarrow> keeps (called P) m"
  unfolding keeps_def by (blast intro: called_sent)

lemma called_with:
  assumes "keeps (called P) m" "\<And>n p. n \<in> insert ''tokenRelease'' token_methods \<Longrightarrow> P (n, p)"
  shows "keeps (called P) (with_token (watched_io ci rpc) x m)"
  unfolding keeps_def
proof
  fix s
  obtain r t where w: "with_token (watched_io ci rpc) x m s = (r, t)" by (cases "with_token (watched_io ci rpc) x m s")
  show "called P s (snd (with_token (watched_io ci rpc) x m s))"
    using w
  proof (cases rule: with_token_run)
    case refused
    then show ?thesis using w assms(2) by (auto simp: token_step_def intro: called_sent)
  next
    case (ran s1 r2 s2)
    then have "called P s s1" "called P s1 s2" "called P s2 t"
      using assms by (auto simp: token_step_def intro: called_sent keepsD)
    then show ?thesis using w by (metis called.r_trans snd_conv)
  qed
qed

lemma called_reading [calls_intros]:
  "keeps (called (\<lambda>c. fst c \<noteq> ''set'')) (get_value (traced rpc) ns v t)"
  "keeps (called (\<lambda>c. fst c \<noteq> ''set'')) (value_getter (traced rpc) now n)"
  by (rule called_keeps[of "{''status''}"]; auto intro: calls_intros)+

text \<open>A single value is written under the real name of its point, or not at all.\<close>

lemma set_one:
  obtains (none) "snd (snd (snd (set_params (traced rpc) now [(a, v)] False t (b, w, l)))) = l"
  | (one) i where "item_of b a = Inr i" "snd (snd (snd (set_params (traced rpc) now [(a, v)] False t (b, w, l)))) = l @ [set_of [(di_name i, v)]]"
proof (cases "\<exists>i. has_attr b a \<and> item_of b a = Inr i \<and> CHR ''W'' \<in> set (di_type i)")
  case True
  then obtain i where i: "has_attr b a" "item_of b a = Inr i" "CHR ''W'' \<in> set (di_type i)" by blast
  then show ?thesis using one[of i] by (simp add: set_params_def checked_call_traced set_of_def dset_def Let_def)
next
  case False
  then show ?thesis using none by (cases "item_of b a") (auto simp: set_params_def)
qed

lemma no_writes: "(\<forall>c \<in> set l. fst c \<noteq> ''set'') \<Longrightarrow> writes l = []" "fst ` set l \<subseteq> {''tokenRelease''} \<Longrightarrow> writes l = []"
  by (auto simp: writes_def filter_empty_conv)

section \<open>Switching a relay\<close>

lemma called_pin: "keeps (called (\<lambda>c. fst c \<noteq> ''set'')) (pin_read (ai\<lparr>ao_con := watched_io ci rpc\<rparr>) a)"
  by (auto simp: pin_read_def intro!: called.k_rules calls_intros split: option.split)

lemma pin_set_writes:
  assumes "pin_set (ai\<lparr>ao_con := watched_io ci rpc\<rparr>) address v (b, w, l) = (r, b', w', l')"
  shows "\<exists>rest. l' = l @ rest \<and> (writes rest = [] \<or>
    (\<exists>a i. address = Some a \<and> item_of b a = Inr i \<and> writes rest = [set_of [(di_name i, v)]]))"
proof -
  let ?set = "case address of None \<Rightarrow> fail TypeError
      | Some a \<Rightarrow> set_params (traced rpc) (con_now ci) [(a, v)] False None"
  have "with_token (watched_io ci rpc) PNone ?set (b, w, l) = (r, b', w', l')"
    using assms by (simp add: pin_set_def Let_def cong: option.case_cong)
  then show ?thesis
  proof (cases rule: with_token_run)
    case refused
    then show ?thesis by (auto simp: token_step_def sent_def token_no_writes)
  next
    case (ran s1 r2 s2)
    obtain b1 w1 l1 where s1: "s1 = (b1, w1, l1)" by (rule prod_cases3)
    obtain k1 where k1: "l1 = l @ k1" "writes k1 = []"
      using ran(1) s1 by (auto simp: token_step_def sent_def token_no_writes)
    obtain k2 where k2: "l' = snd (snd s2) @ k2" "writes k2 = []"
      using ran(4) no_writes(2) by (fastforce simp: sent_def)
    have items: "item_of b1 a = item_of b a" for a using ran(1) s1
      unfolding item_of_def token_step_def by (auto split: option.split attr.split)
    show ?thesis
    proof (cases address)
      case None
      then show ?thesis using ran(3) s1 k1 k2 by (intro exI[of _ "k1 @ k2"]) (auto simp: fail_def)
    next
      case (Some a)
      then have s2: "snd (set_params (traced rpc) (con_now ci) [(a, v)] False None (b1, w1, l1)) = s2" using ran(3) s1 by simp
      show ?thesis
      proof (rule set_one[of rpc "con_now ci" a v None b1 w1 l1])
        assume "snd (snd (snd (set_params (traced rpc) (con_now ci) [(a, v)] False None (b1, w1, l1)))) = l1"
        then show ?thesis using s2 k1 k2 by (intro exI[of _ "k1 @ k2"]) simp
      next
        fix i
        assume "item_of b1 a = Inr i"
          and "snd (snd (snd (set_params (traced rpc) (con_now ci) [(a, v)] False None (b1, w1, l1)))) = l1 @ [set_of [(di_name i, v)]]"
        then show ?thesis using s2 k1 k2 items Some
          by (intro exI[of _ "k1 @ set_of [(di_name i, v)] # k2"]) (simp add: writes_def set_of_def)
      qed
    qed
  qed
qed

section \<open>Ordering a sample\<close>

definition in_order :: "int \<Rightarrow> int \<Rightarrow> order \<Rightarrow> bool" where
  "in_order bottles most d \<longleftrightarrow> (or_volume d = 1000 \<or> 1 \<le> or_volume d \<and> or_volume d \<le> most) \<and> 0 \<le> or_cast d"

lemma order_args_limits:
  "order_args bottles most as d = Some d' \<Longrightarrow> in_order bottles most d \<Longrightarrow>
     in_order bottles most d' \<and> (or_bottle d' = or_bottle d \<and> (\<forall>a \<in> set as. hd a \<noteq> CHR ''b'') \<or>
       (\<exists>k. or_bottle d' = PInt k \<and> 1 \<le> k \<and> k \<le> bottles))"
proof (induction as arbitrary: d)
  case (Cons a as)
  then obtain d1 where d1: "order_arg bottles most a d = Some d1" "order_args bottles most as d1 = Some d'"
    by (auto split: option.splits)
  then have "in_order bottles most d1" "or_bottle d1 = or_bottle d \<and> hd a \<noteq> CHR ''b'' \<or> (\<exists>k. or_bottle d1 = PInt k \<and> 1 \<le> k \<and> k \<le> bottles)"
    using Cons.prems(2) by (auto simp: order_arg_def in_order_def split: sum.splits if_splits)
  then show ?case using Cons.IH[OF d1(2)] by auto
qed simp

lemma called_take_sample:
  "P (''take_sample'', Some (PDict [(''bottle_num'', bo), (''sample_volume'', PInt vo), (''cast_number'', n), (''sample_depth'', d)])) \<Longrightarrow>
     keeps (called P) (take_sample (traced rpc) bo vo n d None)"
  by (auto simp: keeps_def take_sample_def if_ready_def ask_def plain_def called_def checked_call_traced split: prod.split)

text \<open>An order within the limits: the bottle is given by the line or none is.\<close>

definition fitting :: "int \<Rightarrow> int \<Rightarrow> string list \<Rightarrow> pyval option \<Rightarrow> bool" where
  "fitting bottles most words p \<longleftrightarrow>
     (\<exists>bottle volume cast depth. p = Some (PDict [(''bottle_num'', bottle), (''sample_volume'', PInt volume),
        (''cast_number'', PInt cast), (''sample_depth'', PInt depth)]) \<and>
      (volume = 1000 \<or> 1 \<le> volume \<and> volume \<le> most) \<and> 0 \<le> cast \<and>
      ((\<forall>word \<in> set words. hd word \<noteq> CHR ''b'') \<or> (\<exists>k. bottle = PInt k \<and> 1 \<le> k \<and> k \<le> bottles)))"

section \<open>The end of a session\<close>

text \<open>The lines that can end a loop.\<close>

definition may_leave :: "string set" where
  "may_leave = insert ''token'' leaving"

lemma idle_behind [simp]: "idle m \<Longrightarrow> idle (behind m)"
  unfolding idle_def behind_def by (auto split: prod.splits)

lemma idle_commands_behind: "idle_commands X cmds \<Longrightarrow> idle_commands X (map (\<lambda>(n, f). (n, \<lambda>a. behind (f a))) cmds)"
  by (auto simp: idle_commands_def list_all_iff)

lemma idle_loop: "idle_commands X cmds \<Longrightarrow> list_all (avoids X) ls \<Longrightarrow> cmd_loop cmds ls s \<noteq> (Inr True, t)"
proof (induction ls arbitrary: s)
  case (Cons l ls)
  obtain r s1 where o: "one_cmd cmds l s = (r, s1)" by (cases "one_cmd cmds l s")
  show ?case
  proof (cases r)
    case (Inr v)
    then have "\<not> truthy v" using idle_one[OF Cons.prems(1), of l s v s1] o Cons.prems(2) by auto
    then show ?thesis using o Inr Cons by (simp add: bnd_def)
  qed (use o in \<open>simp add: bnd_def\<close>)
qed (simp add: ret_def)

lemma idle_status_and [simp]: "idle (status_and ci u m)"
  by (auto simp: status_and_def intro!: idle_bnd)

lemma idle_console [simp]: "idle (do_console ci)"
  by (auto simp: do_console_def intro!: idle_bnd)

lemma idle_instruments:
  "idle_commands may_leave (sonde_commands si)" "idle_commands may_leave (lisst_commands li)" "idle_commands may_leave (isco_commands ii)"
  "idle_commands may_leave (aio_commands ai)" "idle_commands may_leave (sounder_commands ci)" "idle_commands may_leave (gps_commands ci geo)"
  "idle_commands may_leave (wind_commands ci)" "idle_commands may_leave (power_commands ci)"
proof -
  have b: "idle_commands may_leave (broker_commands ci)" for ci :: "'w console_io"
    by (rule idle_broker) (auto simp: may_leave_def)
  have w: "idle (do_wipestatus ci)" for ci :: "'w console_io" by (auto simp: do_wipestatus_def intro!: idle_bnd)
  have k: "idle (case v of None \<Rightarrow> ret PNone | Some y \<Rightarrow> quietly (m y))" for v and m :: "_ \<Rightarrow> ('s, _) act" by (cases v) simp_all
  show "idle_commands may_leave (sonde_commands si)" for si :: "'w sonde_io"
    by (auto simp: w sonde_commands_def idle_commands_behind b do_in_water_def do_wipe_def do_calibrate_def do_sample_def
        do_logging_def sonde_status_def Let_def intro!: idle_bnd idle_behind)
  show "idle_commands may_leave (lisst_commands li)" for li :: "'w lisst_io"
    by (auto simp: lisst_commands_def idle_commands_behind b collect_def flush_line_def pump_line_def do_get_def do_del_def Let_def
        intro!: idle_bnd idle_behind split: sum.split)
  show "idle_commands may_leave (isco_commands ii)" for ii :: "'w isco_io"
    by (auto simp: isco_commands_def b sample_line_def Let_def k intro!: idle_bnd)
  show "idle_commands may_leave (aio_commands ai)" for ai :: "'w aio_io"
    by (auto simp: aio_commands_def b aio_power_def split: option.split list.split)
  show "idle_commands may_leave (sounder_commands ci)" "idle_commands may_leave (gps_commands ci geo)"
    "idle_commands may_leave (wind_commands ci)" "idle_commands may_leave (power_commands ci)" for ci :: "'w console_io" and geo
    by (auto simp: sounder_commands_def gps_commands_def wind_commands_def power_commands_def b)
qed

text \<open>A line with \<open>token\<close> and two words ends the loop without a word to the broker, as \<open>exit\<close> does.\<close>

lemma token_words_leave:
  assumes "length (py_split a) > 1"
  shows "do_token ci a s = (Inr (PInt 1), s)" "truthy (PInt 1)"
  using assms by (cases "a = []"; simp add: py_split_def do_token_def Let_def ret_def)+

section \<open>Sessions without the token\<close>

definition mere_since :: "trace \<Rightarrow> trace \<Rightarrow> bool" where
  "mere_since l l' \<longleftrightarrow> (\<exists>rest. l' = l @ rest \<and> (\<forall>c \<in> set rest. mere_call c))"

lemma held_off_mere: "keeps held_off m \<Longrightarrow> \<not> bk_token b \<Longrightarrow> mere_since l (snd (snd (snd (m (b, w, l)))))"
  by (auto simp: keeps_def held_off_def mere_since_def)

section \<open>Properties\<close>

text \<open>Concrete consoles for the witnesses.\<close>

definition demo_con :: "(pyval list \<times> trace) console_io" where
  "demo_con = \<lparr>con_rpc = traced script_rpc, con_now = 0, con_program = ''console'', con_class = ''AIOConsole'', con_show = (\<lambda>v. []),
     con_clock = (\<lambda>t. []), con_links = True, con_telnet = Inl TypeError\<rparr>"

definition demo_aio :: "(pyval list \<times> trace) aio_io" where
  "demo_aio = \<lparr>ao_con = demo_con, ao_devices = found_devices (\<lambda>n. n = ''relay_ISCO''),
     ao_aliases = Some [(''reset_MM3'', ''pin_4''), (''relay_ISCO'', ''pin_5'')], ao_relay_on = PInt 0, ao_relay_off = PInt 1\<rparr>"

definition demo_isco :: "(pyval list \<times> trace) isco_io" where
  "demo_isco = \<lparr>is_con = demo_con, is_bottles = 24, is_size = 1000\<rparr>"

definition demo_pins :: broker where
  "demo_pins = demo_broker\<lparr>bk_name := ''aio'', bk_attrs := [(''pin_4'', AItem ''pin_4''), (''pin_5'', AItem ''pin_5'')],
     bk_items := [(''pin_4'', demo_item ''pin_4'' ''RW'' PNone), (''pin_5'', demo_item ''pin_5'' ''RW'' PNone)]\<rparr>"

definition demo_sampler :: broker where
  "demo_sampler = demo_broker\<lparr>bk_name := ''isco'', bk_attrs := [(''bottle_num'', AItem ''bottle_num'')],
     bk_items := [(''bottle_num'', demo_item ''bottle_num'' ''RO'' PNone)]\<rparr>"

definition said :: "string \<Rightarrow> pyval" where
  "said s = PDict [(''result'', PStr s)]"

definition granted :: "pyval list" where
  "granted = [said [], said ''ok'', said ''console.AIOConsole'', said ''ok'', said ''ok'']"

text \<open>
  A line with \<open>power\<close> in the console of the relays writes at most one point, that of the named device, and the
  value that switches it as the line says.
\<close>

theorem power_line_writes_one:
  assumes "aio_power (ai\<lparr>ao_con := watched_io ci rpc\<rparr>) line (b, w, l) = (r, b', w', l')"
  shows "\<exists>rest. l' = l @ rest \<and> (writes rest = [] \<or>
    (\<exists>device mode pin aliases a i. py_split line = [device, mode] \<and> mode \<in> {''on'', ''off''} \<and>
       dget (ao_devices ai) device = Some pin \<and> ao_aliases ai = Some aliases \<and> dget aliases pin = Some a \<and> item_of b a = Inr i \<and>
       writes rest = [set_of [(di_name i, if prefix ''relay'' pin then if mode = ''on'' then ao_relay_on ai else ao_relay_off ai
                                          else PInt (if mode = ''on'' then 1 else 0))]]))"
proof -
  let ?ai = "ai\<lparr>ao_con := watched_io ci rpc\<rparr>"
  have none: ?thesis if "keeps (called (\<lambda>c. fst c \<noteq> ''set'')) m" "m (b, w, l) = (r, b', w', l')" for m :: "(broker \<times> 'a \<times> trace, pyval) act"
    using keepsD[OF that] no_writes(1) by (fastforce simp: called_def)
  show ?thesis
  proof (cases "\<exists>aliases device mode pin. ao_aliases ai = Some aliases \<and> py_split line = [device, mode] \<and>
      dget (ao_devices ai) device = Some pin \<and> mode \<in> {''on'', ''off''}")
    case True
    then obtain as d mode pin where t: "ao_aliases ai = Some as" "py_split line = [d, mode]" "dget (ao_devices ai) d = Some pin"
      "mode \<in> {''on'', ''off''}" by blast
    let ?v = "(if mode = ''on'' then fst else snd) (pin_values ?ai pin)"
    have "quietly (pin_set ?ai (dget as pin) ?v) (b, w, l) = (r, b', w', l')" using assms t by (auto simp: aio_power_def)
    then obtain r1 where "pin_set ?ai (dget as pin) ?v (b, w, l) = (r1, b', w', l')"
      by (auto simp: quietly_def bnd_def ret_def split: prod.splits sum.splits)
    from pin_set_writes[OF this] show ?thesis using t by (auto simp: pin_values_def split: if_splits)
  next
    case False
    have "keeps (called (\<lambda>c. fst c \<noteq> ''set'')) (aio_power ?ai line)"
      using False
      by (auto simp: aio_power_def quietly_def intro!: called.k_rules called.k_steps called_pin split: option.split list.split)
    then show ?thesis using assms by (rule none)
  qed
qed

theorem power_line_writes_one_witness:
  "\<exists>n v. writes (snd (snd (snd (aio_power (demo_aio\<lparr>ao_con := watched_io demo_con script_rpc\<rparr>) ''isco on'' (demo_pins, granted, []))))) =
     [set_of [(n, v)]]"
proof -
  obtain r b w l where a: "aio_power (demo_aio\<lparr>ao_con := watched_io demo_con script_rpc\<rparr>) ''isco on'' (demo_pins, granted, []) = (r, b, w, l)"
    by (metis prod.collapse)
  moreover have "writes (snd (snd (snd (aio_power (demo_aio\<lparr>ao_con := watched_io demo_con script_rpc\<rparr>) ''isco on'' (demo_pins, granted, []))))) \<noteq> []"
    by code_simp
  ultimately show ?thesis using power_line_writes_one[OF a] by auto
qed


lemma demo_order:
  "snd (snd (snd (sample_line (demo_isco\<lparr>is_con := watched_io demo_con script_rpc\<rparr>) ''b5 v500 c1 d2'' (demo_sampler, said [] # granted, [])))) =
     [(''status'', Some (PDict [(''data'', PList [PStr ''bottle_num'']), (''style'', PStr ''terse'')])), (''tokenOwner'', None),
      (''tokenAcquire'', Some (PDict [(''name'', PStr ''console.AIOConsole'')])), (''tokenOwner'', None),
      (''take_sample'', Some (PDict [(''bottle_num'', PInt 5), (''sample_volume'', PInt 500), (''cast_number'', PInt 1), (''sample_depth'', PInt 2)])),
      (''tokenRelease'', None)]"
  by code_simp


text \<open>
  In the consoles of the instruments only \<open>exit\<close>, \<open>quit\<close>, \<open>x\<close> and \<open>token\<close> can end the loop: after lines with
  other commands, known or not, whatever the broker answers, it waits for the next line or an exception has come out.
\<close>

theorem lines_that_leave:
  assumes "list_all (avoids may_leave) ls"
  shows "(\<forall>s t. cmd_loop (sonde_commands si) ls s \<noteq> (Inr True, t)) \<and> (\<forall>s t. cmd_loop (lisst_commands li) ls s \<noteq> (Inr True, t)) \<and>
    (\<forall>s t. cmd_loop (isco_commands ii) ls s \<noteq> (Inr True, t)) \<and> (\<forall>s t. cmd_loop (aio_commands ai) ls s \<noteq> (Inr True, t)) \<and>
    (\<forall>s t. cmd_loop (sounder_commands ci) ls s \<noteq> (Inr True, t)) \<and> (\<forall>s t. cmd_loop (gps_commands ci geo) ls s \<noteq> (Inr True, t)) \<and>
    (\<forall>s t. cmd_loop (wind_commands ci) ls s \<noteq> (Inr True, t)) \<and> (\<forall>s t. cmd_loop (power_commands ci) ls s \<noteq> (Inr True, t))"
  by (intro conjI allI idle_loop[OF _ assms] idle_instruments)

theorem lines_that_leave_witness:
  "cmd_loop (aio_commands demo_aio) [''power isco on'', ''status'', ''anything''] (demo_pins, granted, []) \<noteq> (Inr True, demo_pins, [], [])"
proof -
  have "list_all (avoids may_leave) [''power isco on'', ''status'', ''anything'']" by code_simp
  from lines_that_leave[OF this, where ai = demo_aio] show ?thesis by blast
qed


definition deny_rpc :: "unit rpc_fun" where
  "deny_rpc rq w = (timeout_error, w)"

definition open_con :: "(unit \<times> trace) console_io" where
  "open_con = \<lparr>con_rpc = traced deny_rpc, con_now = 0, con_program = ''console'', con_class = ''ISCOConsole'', con_show = (\<lambda>v. []),
     con_clock = (\<lambda>t. []), con_links = True, con_telnet = Inl TypeError\<rparr>"

lemma deny_refuses: "refuses deny_rpc"
proof -
  have "\<not> is_ok (result_checker timeout_error)" by code_simp
  then show ?thesis by (simp add: refuses_def deny_rpc_def)
qed


end
