(* ===== verification/WinchConsole.thy ===== *)
theory WinchConsole
  imports Session
begin

text \<open>
  The console of the winch, class \<open>WinchConsole\<close> of src/python/avp_console.py: a line is read as a plan, and the plan
  is carried out by the winch of theory Winch.
\<close>

section \<open>State and surroundings\<close>

text \<open>\<open>wk_pick\<close> stands for the name that \<open>pop\<close> takes out of a set.\<close>

record 'w winch_console =
  wk_con :: "'w console_io"
  wk_winch :: "'w winch_io"
  wk_cfg :: winch_cfg
  wk_cal :: cal_times
  wk_pick :: "string list \<Rightarrow> string"

definition stopped_limit :: timespan where
  "stopped_limit = seconds 10"

definition mm3_with_token :: "'w winch_console \<Rightarrow> 'a \<Rightarrow> ('w boat, 'a) act \<Rightarrow> ('w boat, 'a) act" where
  "mm3_with_token wk refused m =
     bnd (on_mm3 (do_token (wk_con wk) ''acquire'')) (\<lambda>_.
     bnd (peek (\<lambda>s. bk_token (wn_mm3 s))) (\<lambda>t.
     if t then bnd m (\<lambda>r. bnd (on_mm3 (do_token (wk_con wk) ''release'')) (\<lambda>_. ret r)) else ret refused))"

section \<open>Lines that move\<close>

text \<open>The stop functions that a line names.\<close>

definition stop_names :: "string list" where
  "stop_names = [''PWL'', ''CWL'', ''WL'']"

definition stop_of :: "(string list \<Rightarrow> string) \<Rightarrow> string list \<Rightarrow> string" where
  "stop_of pick words =
     (let found = filter (\<lambda>n. n \<in> set words) stop_names
      in if found = [] then ''null'' else case pick found of n \<Rightarrow>
           if n = ''PWL'' then ''press_wl'' else if n = ''CWL'' then ''cond_wl'' else ''any_wl'')"

text \<open>
  What a line for \<open>up\<close> or \<open>down\<close> asks for: nothing, a move at a speed, a move by a distance, or an exception. A distance
  in metres that is no finite number is only found out by the winch.
\<close>

datatype plan = No_move | At_speed string | By distance pyval | Lost pyexn | Fails pyexn

definition first_at :: "string list \<Rightarrow> nat" where
  "first_at words = length (takeWhile (\<lambda>w. w \<noteq> ''at'') words)"

definition line_speed :: "int \<Rightarrow> string list \<Rightarrow> pyval res" where
  "line_speed speed words =
     (if ''at'' \<notin> set words then Inr (PInt speed)
      else if first_at words + 1 < length words then Inr (PStr (words ! (first_at words + 1))) else Inl IndexError)"

definition line_distance :: "bool \<Rightarrow> string \<Rightarrow> pyval \<Rightarrow> plan" where
  "line_distance up word speed =
     (if word \<noteq> [] \<and> last word = CHR ''m''
      then (case float_of_string (butlast word) of
              Inl e \<Rightarrow> No_move
            | Inr NonFin \<Rightarrow> Lost (UserException ''OverflowError'')
            | Inr (Fin q) \<Rightarrow> By (Meters (if up then - \<bar>q\<bar> else \<bar>q\<bar>)) speed)
      else (case int_of_string word of Inl e \<Rightarrow> No_move | Inr n \<Rightarrow> By (Clicks (if up then - \<bar>n\<bar> else \<bar>n\<bar>)) speed))"

definition move_plan :: "int \<Rightarrow> bool \<Rightarrow> string \<Rightarrow> plan" where
  "move_plan speed up line =
     (case py_split line of
        [] \<Rightarrow> No_move
      | w # ws \<Rightarrow>
          (case line_speed speed (w # ws) of
             Inl e \<Rightarrow> Fails e
           | Inr v \<Rightarrow> if w = ''at'' then At_speed (hd ws) else line_distance up w v))"

definition line_opts :: "string \<Rightarrow> mon_opts" where
  "line_opts stop = (rel_opts False stop True stopped_limit)\<lparr>mo_neg_max := stopped_limit, mo_pos_max := stopped_limit\<rparr>"

definition run_plan :: "'w winch_console \<Rightarrow> bool \<Rightarrow> string \<Rightarrow> plan \<Rightarrow> ('w boat, pyval) act" where
  "run_plan wk up stop plan =
     (case plan of
        No_move \<Rightarrow> ret PNone
      | Fails e \<Rightarrow> fail e
      | Lost e \<Rightarrow> mm3_with_token wk PNone (fail e)
      | At_speed v \<Rightarrow> mm3_with_token wk PNone (winch_at_speed (wk_winch wk) (wk_cfg wk) (PStr v) (if up then ''up'' else ''down'') None None
            (speed_opts False stop True stopped_limit))
      | By d v \<Rightarrow> mm3_with_token wk PNone (winch_to_relative (wk_winch wk) (wk_cfg wk) d (Some v) None None (line_opts stop)))"

definition winch_line :: "'w winch_console \<Rightarrow> bool \<Rightarrow> string \<Rightarrow> ('w boat, pyval) act" where
  "winch_line wk up line =
     run_plan wk up (stop_of (wk_pick wk) (py_split line)) (move_plan (wc_slow (wk_cfg wk)) up line)"

text \<open>\<open>to\<close>: the speed is the third word, if there is an \<open>at\<close> anywhere.\<close>

definition do_to :: "'w winch_console \<Rightarrow> string \<Rightarrow> ('w boat, pyval) act" where
  "do_to wk line =
     (let ws = py_split line; io = wk_winch wk; cfg = wk_cfg wk
      in if ws = [] then ret PNone
         else case int_of_string (hd ws) of
                Inl e \<Rightarrow> ret PNone
              | Inr location \<Rightarrow>
                  bnd (num_mm3 io ''position'') (\<lambda>_.
                  case (if ''at'' \<in> set ws \<and> length ws \<ge> 3 then int_of_string (ws ! 2) else Inr (wc_slow cfg)) of
                    Inl e \<Rightarrow> ret PNone
                  | Inr speed \<Rightarrow> quietly (mm3_with_token wk PNone
                      (winch_to_absolute io cfg location (Some (PInt speed)) None None False (stop_of (wk_pick wk) ws)))))"

text \<open>
  \<open>depth\<close>: the sonde is told to sample if it does not, without a token; the distance becomes a line for \<open>up\<close> or
  \<open>down\<close>. Without a sonde there is no attribute to read.
\<close>

definition depth_sampling :: "'w winch_console \<Rightarrow> ('w boat, bool) act" where
  "depth_sampling wk =
     bnd (rd_sonde (wk_winch wk) ''sampling'') (\<lambda>v.
     if \<not> eq_num v 0 then ret True
     else bnd (on_sonde (start_sampling (wi_sonde (wk_winch wk)) (wc_sonde (wk_cfg wk)))) (\<lambda>r.
          if is_dict r then ret (pget r ''result'' = Some (PStr ''ok'')) else fail AttributeError))"

definition move_line :: "int \<Rightarrow> int \<Rightarrow> string" where
  "move_line clicks speed = int_to_string clicks @ '' at '' @ int_to_string speed"

definition depth_move :: "'w winch_console \<Rightarrow> rat \<Rightarrow> ('w boat, pyval) act" where
  "depth_move wk desired =
     (let io = wk_winch wk; cfg = wk_cfg wk;
          go = (\<lambda>up. bnd (num_sonde io ''depth_m'') (\<lambda>d.
             winch_line wk up (move_line (meters_to_clicks cfg \<bar>desired - d\<bar>) (wc_slow cfg))))
      in bnd (num_sonde io ''depth_m'') (\<lambda>d1.
         if d1 < desired then go False
         else bnd (num_sonde io ''depth_m'') (\<lambda>d2. if d2 > desired then go True else rd_sonde io ''depth_m'')))"

definition do_depth :: "'w winch_console \<Rightarrow> string \<Rightarrow> ('w boat, pyval) act" where
  "do_depth wk line =
     bnd (peek wn_sonde) (\<lambda>b.
     case b of
       None \<Rightarrow> fail AttributeError
     | Some sonde \<Rightarrow>
         if \<not> bk_initialized sonde then ret PNone
         else case float_of_string line of
                Inr (Fin q) \<Rightarrow>
                  if q < 0 \<or> q > 100 then ret PNone
                  else bnd (depth_sampling wk) (\<lambda>ok. only_if ok (quietly (depth_move wk q)) PNone)
              | _ \<Rightarrow> ret PNone)"

text \<open>\<open>stop\<close> takes the token by force; if that raises, the motor is not told to stop.\<close>

definition do_stop :: "'w winch_console \<Rightarrow> ('w boat, pyval) act" where
  "do_stop wk =
     (let io = wk_winch wk
      in bnd (on_mm3 (catching (bnd (do_token (wk_con wk) ''force'') (\<lambda>_. quietly (stop_motor (wi_mm3 io) (wc_mm3 (wk_cfg wk)) (wi_now io) False)))
             (\<lambda>e. ret PNone))) (\<lambda>_.
         on_mm3 (bnd (do_token (wk_con wk) ''release'') (\<lambda>_.
           quietly (value_lookup (wk_con wk) False
             ''PWM_limit PWM_limited disable_pid velocity amps position desired_position in_position''))))) "

definition watch_opts :: mon_opts where
  "watch_opts = \<lparr>mo_max_stopped = seconds 30, mo_stop_name = ''null'', mo_max_zero_v = seconds 86400, mo_limit_stop = True,
     mo_neg_max = seconds 1, mo_pos_max = seconds 1, mo_in_pos = False, mo_in_pos_max = 1500000, mo_ipc_poll = False\<rparr>"

definition do_monitor :: "'w winch_console \<Rightarrow> ('w boat, pyval) act" where
  "do_monitor wk = quietly (monitor_move (wk_winch wk) (wk_cfg wk) watch_opts)"

section \<open>Positions and the memory of the controller\<close>

definition set_position :: "'w winch_console \<Rightarrow> string \<Rightarrow> (broker \<times> 'w, pyval) act" where
  "set_position wk line =
     (case py_split line of
        [] \<Rightarrow> fail IndexError
      | w # ws \<Rightarrow>
          (case int_of_string w of
             Inl e \<Rightarrow> ret PNone
           | Inr p \<Rightarrow> quietly (with_token (wk_con wk) PNone
               (set_params (con_rpc (wk_con wk)) (con_now (wk_con wk)) [(''position'', PInt p)] False None))))"

definition store_here :: "'w winch_console \<Rightarrow> (broker \<times> 'w, pyval) act" where
  "store_here wk =
     quietly (with_token (wk_con wk) PNone (store_position (wi_mm3 (wk_winch wk)) (wi_now (wk_winch wk)) None))"

text \<open>\<open>do_set\<close> takes and returns the token by itself, within the command.\<close>

definition store_value :: "'w winch_console \<Rightarrow> string \<Rightarrow> (broker \<times> 'w, pyval) act" where
  "store_value wk line = quietly (with_token (wk_con wk) PNone (do_set (wk_con wk) True line))"

text \<open>\<open>zero\<close> leaves it to \<open>setpos\<close> to return the token.\<close>

definition do_zero :: "'w winch_console \<Rightarrow> (broker \<times> 'w, pyval) act" where
  "do_zero wk =
     bnd (do_token (wk_con wk) ''acquire'') (\<lambda>_.
     bnd (peek (\<lambda>bw. bk_token (fst bw))) (\<lambda>t. if t then quietly (set_position wk ''0'') else ret PNone))"

definition reset_line :: "'w winch_console \<Rightarrow> (broker \<times> 'w, pyval) act" where
  "reset_line wk = quietly (with_token (wk_con wk) PNone (plain (reset_mm3 (wi_mm3 (wk_winch wk)))))"

definition restore_line :: "'w winch_console \<Rightarrow> (broker \<times> 'w, pyval) act" where
  "restore_line wk = quietly (plain (restore_mm3 (wi_mm3 (wk_winch wk))))"

text \<open>
  \<open>calibration\<close> takes both tokens and gives back that of the motor, unless it does not get that of the sonde.
\<close>

definition do_calibration :: "'w winch_console \<Rightarrow> ('w boat, pyval) act" where
  "do_calibration wk =
     (let ci = wk_con wk; io = wk_winch wk
      in bnd (on_mm3 (do_token ci ''acquire'')) (\<lambda>_.
         bnd (peek (\<lambda>s. bk_token (wn_mm3 s))) (\<lambda>t.
         if \<not> t then ret PNone
         else bnd (on_sonde (get_token (wi_sonde io) (con_program ci) (con_class ci) True)) (\<lambda>_.
              bnd (peek (\<lambda>s. case wn_sonde s of None \<Rightarrow> False | Some b \<Rightarrow> bk_token b)) (\<lambda>u.
              if \<not> u then ret PNone
              else bnd (calibration io (wk_cfg wk) (wk_cal wk) True 0) (\<lambda>_. quietly (on_mm3 (do_token ci ''release'')))))))) "

section \<open>The status\<close>

text \<open>A value of a missing temperature is passed over; one that is a text has no product with a number either.\<close>

definition winch_lines :: "'w console_io \<Rightarrow> (broker \<times> 'w, unit) act" where
  "winch_lines ci =
     bnd (get_value (con_rpc ci) [''position'', ''neg_limit_switch'', ''pos_limit_switch'', ''desired_position'', ''amps_limit'',
       ''temperature'', ''in_position'', ''deadband'', ''enable_db''] False None) (\<lambda>_.
     steps [shown plainly ci ''neg_limit_switch'', shown plainly ci ''pos_limit_switch'', shown plainly ci ''position'',
       shown plainly ci ''desired_position'', shown plainly ci ''amps_limit'',
       catching (bnd (attr_read ci ''temperature'') (\<lambda>v. bnd (of_res (number v)) (\<lambda>_. ret ()))) (\<lambda>e. if e = TypeError then ret () else fail e),
       bnd (attr_read ci ''enable_db'') (\<lambda>v. only_if (\<not> eq_num v 0) (shown plainly ci ''enable_db'') ()),
       shown plainly ci ''in_position'', shown plainly ci ''deadband''])"

section \<open>The commands\<close>

definition winch_commands :: "'w winch_console \<Rightarrow> ('w boat) commands" where
  "winch_commands wk =
     [(''to'', do_to wk), (''down'', \<lambda>a. quietly (winch_line wk False a)), (''dn'', \<lambda>a. quietly (winch_line wk False a)),
      (''up'', \<lambda>a. quietly (winch_line wk True a)), (''depth'', do_depth wk), (''stop'', \<lambda>a. do_stop wk),
      (''monitor'', \<lambda>a. do_monitor wk), (''mon'', \<lambda>a. do_monitor wk), (''setpos'', \<lambda>a. on_mm3 (set_position wk a)),
      (''storepos'', \<lambda>a. on_mm3 (store_here wk)), (''store'', \<lambda>a. on_mm3 (store_value wk a)), (''zero'', \<lambda>a. on_mm3 (do_zero wk)),
      (''reset'', \<lambda>a. on_mm3 (reset_line wk)), (''restore'', \<lambda>a. on_mm3 (restore_line wk)), (''calibration'', \<lambda>a. do_calibration wk),
      (''get_amps'', \<lambda>a. ret PNone), (''status'', \<lambda>a. on_mm3 (status_and (wk_con wk) False (winch_lines (wk_con wk)))),
      (''console'', \<lambda>a. on_mm3 (do_console (wk_con wk)))] @
     map (\<lambda>(n, f). (n, \<lambda>a. on_mm3 (f a))) (broker_commands (wk_con wk))"

section \<open>Lines made by the console\<close>

lemma py_words_plain: "\<forall>c \<in> set xs. \<not> is_blank c \<Longrightarrow> py_words w (xs @ ys) = py_words (w @ xs) ys"
  by (induction xs arbitrary: w) simp_all

lemma int_text: "int_to_string i \<noteq> [] \<and> (\<forall>c \<in> set (int_to_string i). \<not> is_blank c \<and> c \<noteq> CHR ''m'' \<and> c \<noteq> CHR ''a'')"
proof -
  have d: "\<forall>c \<in> set (pos_digits \<bar>i\<bar>). plain_digit c" "pos_digits \<bar>i\<bar> \<noteq> []" using pos_digits_ok[of "\<bar>i\<bar>"] by auto
  have p: "\<not> is_blank c \<and> c \<noteq> CHR ''m'' \<and> c \<noteq> CHR ''a''" if "plain_digit c" for c
    using that by (auto simp: plain_digit_def is_digit_def)
  have m: "\<not> is_blank (CHR ''-'')" by code_simp
  show ?thesis
  proof (cases "i < 0")
    case True
    then have "int_to_string i = CHR ''-'' # pos_digits \<bar>i\<bar>" by (simp add: int_to_string_def)
    then show ?thesis using d(1) p m by auto
  next
    case False
    then have "int_to_string i = pos_digits \<bar>i\<bar>" by (simp add: int_to_string_def)
    then show ?thesis using d p by auto
  qed
qed

lemma split_move_line:
  "py_split (move_line n v) = [int_to_string n, ''at'', int_to_string v]"
proof -
  have b: "is_blank (CHR '' '')" "\<not> is_blank (CHR ''a'')" "\<not> is_blank (CHR ''t'')" by code_simp+
  show ?thesis
    using int_text[of n] int_text[of v] py_words_plain[of "int_to_string n" "[]" "'' at '' @ int_to_string v"]
      py_words_plain[of "int_to_string v" "[]" "[]"] b
    by (simp add: py_split_def move_line_def)
qed

lemma plan_of_depth:
  assumes "0 \<le> n"
  shows "move_plan speed up (move_line n v) = By (Clicks (if up then - n else n)) (PStr (int_to_string v))"
proof -
  have "int_to_string n \<noteq> ''at''" using int_text[of n] by (metis list.set_intros(1))
  moreover have "last (int_to_string n) \<noteq> CHR ''m''" using int_text[of n] last_in_set by blast
  ultimately show ?thesis
    using assms int_roundtrip[of n] int_text[of n]
    by (simp add: move_plan_def split_move_line line_speed_def first_at_def line_distance_def)
qed

lemma no_stop_named:
  "stop_of pick [int_to_string n, ''at'', int_to_string v] = ''null''"
proof -
  have l: "\<forall>x \<in> set stop_names. CHR ''L'' \<in> set x" by (simp add: stop_names_def)
  have "CHR ''L'' \<notin> set (int_to_string k)" for k
  proof -
    have "\<not> plain_digit (CHR ''L'')" by code_simp
    then show ?thesis using pos_digits_ok[of "\<bar>k\<bar>"] by (auto simp: int_to_string_def)
  qed
  then have "x \<notin> set [int_to_string n, ''at'', int_to_string v]" if "x \<in> set stop_names" for x using l that by auto
  then have "filter (\<lambda>x. x \<in> set [int_to_string n, ''at'', int_to_string v]) stop_names = []" by (simp add: filter_empty_conv)
  then show ?thesis by (simp only: stop_of_def Let_def simp_thms if_True)
qed

section \<open>Without the token\<close>

definition held_boat :: "('w \<times> trace) boat \<Rightarrow> ('w \<times> trace) boat \<Rightarrow> bool" where
  "held_boat s t \<longleftrightarrow> held_off (wn_mm3 s, wn_world s) (wn_mm3 t, wn_world t)"

interpretation boat: kept held_boat
  by unfold_locales (auto simp: held_boat_def intro: off.r_refl off.r_trans)

lemma boat_mm3:
  assumes "keeps held_off m"
  shows "keeps held_boat (on_mm3 m)"
  unfolding keeps_def
proof
  fix s :: "('a \<times> trace) boat"
  obtain r b w where m: "m (wn_mm3 s, wn_world s) = (r, b, w)" by (rule prod_cases3)
  then show "held_boat s (snd (on_mm3 m s))" using keepsD[OF assms m] by (simp add: on_mm3_def held_boat_def)
qed

lemma boat_sonde:
  assumes "keeps (sent asking) m"
  shows "keeps held_boat (on_sonde m)"
  unfolding keeps_def
proof
  fix s :: "('a \<times> trace) boat"
  show "held_boat s (snd (on_sonde m s))"
  proof (cases "wn_sonde s")
    case None
    then show ?thesis by (simp add: on_sonde_def boat.r_refl)
  next
    case (Some b0)
    obtain r b w where m: "m (b0, wn_world s) = (r, b, w)" by (rule prod_cases3)
    then show ?thesis using Some keepsD[OF assms m]
      by (fastforce simp: on_sonde_def held_boat_def held_off_def sent_def mere_call_def)
  qed
qed

text \<open>The console over surroundings that keep what is sent.\<close>

definition watched_winch :: "('w \<times> trace) winch_console \<Rightarrow> 'w mm3_io \<Rightarrow> 'w rpc_fun \<Rightarrow> ('w \<times> trace) winch_console" where
  "watched_winch wk io rpc =
     wk\<lparr>wk_con := watched_io (wk_con wk) (io_rpc io), wk_winch := (wk_winch wk)\<lparr>wi_mm3 := traced_io io, wi_sonde := traced rpc\<rparr>\<rparr>"

lemma watched_winch_simps [simp]:
  "wk_con (watched_winch wk io rpc) = watched_io (wk_con wk) (io_rpc io)" "wi_mm3 (wk_winch (watched_winch wk io rpc)) = traced_io io"
  "wi_sonde (wk_winch (watched_winch wk io rpc)) = traced rpc" "io_rpc (traced_io io) = traced (io_rpc io)"
  by (simp_all add: watched_winch_def traced_io_def)

lemma boat_peek: "keeps held_boat (bnd (peek (\<lambda>s. bk_token (wn_mm3 s))) (\<lambda>t. if t then m else ret x))"
  by (auto simp: keeps_def bnd_def peek_def ret_def held_boat_def held_off_def)

lemma boat_with:
  assumes "refuses (io_rpc io)"
  shows "keeps held_boat (mm3_with_token (watched_winch wk io rpc) x m)"
  unfolding mm3_with_token_def watched_winch_simps by (intro boat.k_bnd boat_mm3 off_token[OF assms] boat_peek)

lemma boat_read: "keeps held_boat (num_mm3 (wk_winch (watched_winch wk io rpc)) n)"
  unfolding num_mm3_def rd_mm3_def watched_winch_simps by (intro boat.k_bnd boat_mm3 off_intros boat.k_of_res)

lemma boat_quietly: "keeps held_boat m \<Longrightarrow> keeps held_boat (quietly m)"
  by (auto simp: quietly_def intro!: boat.k_rules)

lemma keeps_commands_mm3:
  "keeps_commands held_off X cmds \<Longrightarrow> keeps_commands held_boat X (map (\<lambda>(n, f). (n, \<lambda>a. on_mm3 (f a))) cmds)"
  by (auto simp: keeps_commands_def list_all_iff intro!: boat_mm3)

text \<open>The commands that act without the token.\<close>

definition unguarded :: "string set" where
  "unguarded = {''shutdown'', ''stop'', ''restore'', ''depth'', ''monitor'', ''mon''}"

lemma boat_winch:
  assumes "refuses (io_rpc io)"
  shows "keeps_commands held_boat unguarded (winch_commands (watched_winch wk io rpc))"
proof -
  let ?wk = "watched_winch wk io rpc"
  have to: "keeps held_boat (do_to ?wk a)" for a
    unfolding do_to_def Let_def
    by (auto intro!: boat.k_if boat.k_ret boat.k_bnd boat_read boat_quietly boat_with[OF assms] split: sum.split)
  have line: "keeps held_boat (quietly (winch_line ?wk up a))" for up a
    unfolding winch_line_def run_plan_def by (auto intro!: boat_quietly boat.k_ret boat.k_fail boat_with[OF assms] split: plan.split)
  have set: "keeps held_off (set_position ?wk a)" "keeps held_off (store_here ?wk)" "keeps held_off (store_value ?wk a)"
    "keeps held_off (reset_line ?wk)" for a
    unfolding set_position_def store_here_def store_value_def reset_line_def watched_winch_simps
    by (auto intro!: off_intros off_with[OF assms] split: list.split sum.split)
  have zero: "keeps held_off (do_zero ?wk)"
    unfolding do_zero_def watched_winch_simps by (intro off.k_bnd off_token[OF assms] off_only_with)
  have cal: "keeps held_boat (do_calibration ?wk)"
    unfolding do_calibration_def Let_def watched_winch_simps
    by (rule boat.k_bnd[OF boat_mm3[OF off_token[OF assms]]])
      (auto simp: keeps_def bnd_def peek_def ret_def held_boat_def held_off_def)
  have status: "keeps held_off (status_and (watched_io (wk_con wk) (io_rpc io)) False (winch_lines (watched_io (wk_con wk) (io_rpc io))))"
    by (rule off_status_and) (auto simp: winch_lines_def intro!: off_intros)
  have broker: "keeps_commands held_boat unguarded (map (\<lambda>(n, f). (n, \<lambda>a. on_mm3 (f a))) (broker_commands (watched_io (wk_con wk) (io_rpc io))))"
    by (rule keeps_commands_mm3, rule off_broker[OF assms]) (simp add: unguarded_def)
  have u: "''stop'' \<in> unguarded" "''restore'' \<in> unguarded" "''depth'' \<in> unguarded" "''monitor'' \<in> unguarded" "''mon'' \<in> unguarded"
    by (simp_all add: unguarded_def)
  show ?thesis
    unfolding winch_commands_def keeps_commands_simps
    by (simp only: to line cal u boat_mm3[OF set(1)] boat_mm3[OF set(2)] boat_mm3[OF set(3)] boat_mm3[OF set(4)] boat_mm3[OF zero]
        boat_mm3[OF status] boat_mm3[OF off_console] boat.k_ret broker keeps_commands_simps(1) watched_winch_simps simp_thms)
qed

section \<open>Properties\<close>



lemma called_lookup: "keeps (called (\<lambda>c. fst c \<noteq> ''set'')) (value_lookup (watched_io ci rpc) False names)"
  unfolding value_lookup_def show_value_def Let_def watched_simps
  by (auto simp: quietly_def intro!: called.k_rules called.k_steps calls_intros)

lemma called_release: "keeps (called (\<lambda>c. fst c \<noteq> ''set'')) (do_token (watched_io ci rpc) ''release'')"
proof -
  have "keeps (called (\<lambda>c. fst c \<noteq> ''set'')) (plain (token_release (traced rpc)))"
    by (auto simp: keeps_def plain_def token_release_def checked_call_traced called_def split: prod.split)
  then show ?thesis by (auto simp: do_token_def token_option_def quietly_def intro!: called.k_rules)
qed

lemma force_step: "keeps token_step (do_token (watched_io ci rpc) ''force'')"
proof -
  have "py_split ''force'' = [''force'']" by code_simp
  then show ?thesis by (auto simp: do_token_def token_option_def take_token_def quietly_def intro!: tok.k_rules get_token_step)
qed

text \<open>
  C35. If the token can be taken by force, \<open>stop\<close> writes exactly the values that stop the motor, once, whatever the
  controller answers.
\<close>

theorem stop_line_stops:
  assumes "do_token (watched_io (wk_con wk) (io_rpc io)) ''force'' (wn_mm3 s, wn_world s) = (Inr v, b1, w1)" "bk_token b1"
    and "\<forall>k \<in> fst ` set stop_params. writable (wn_mm3 s) k"
  shows "\<exists>rest. snd (wn_world (snd (do_stop (watched_winch wk io rpc) s))) = snd (wn_world s) @ rest \<and> writes rest = [set_of stop_params]"
proof -
  let ?ci = "watched_io (wk_con wk) (io_rpc io)" and ?P = "\<lambda>c :: string \<times> pyval option. fst c \<noteq> ''set''"
  obtain w l where w: "wn_world s = (w, l)" by (cases "wn_world s")
  from keepsD[OF force_step assms(1)] have t: "token_step (wn_mm3 s, w, l) (b1, w1)" using w by simp
  then obtain v1 k1 where k1: "w1 = (v1, l @ k1)" "writes k1 = []"
    by (cases w1) (auto simp: token_step_def sent_def token_no_writes)
  have "\<forall>k \<in> fst ` set stop_params. writable b1 k" using t assms(3) by (simp add: token_step_def writable_def)
  from set_now_traced[OF this stop_params_ok(2,3), of io "wi_now (wk_winch wk)" v1 "l @ k1"]
  obtain r b2 v2 where "set_now (traced_io io) (wi_now (wk_winch wk)) stop_params (b1, v1, l @ k1) =
      (Inr r, b2, v2, (l @ k1) @ [set_of stop_params])" by blast
  then have stop: "stop_motor (traced_io io) (wc_mm3 (wk_cfg wk)) (wi_now (wk_winch wk)) False (b1, v1, l @ k1) =
      (Inr (PDict [(''set'', r)]), b2, v2, l @ k1 @ [set_of stop_params])"
    using assms(2) by (simp add: stop_motor_def)
  let ?after = "bnd (do_token ?ci ''release'') (\<lambda>_. quietly (value_lookup ?ci False
      ''PWM_limit PWM_limited disable_pid velocity amps position desired_position in_position''))"
  have "keeps (called ?P) ?after" by (auto simp: quietly_def intro!: called.k_rules called_release called_lookup)
  then have "called ?P (b2, v2, l @ k1 @ [set_of stop_params]) (snd (?after (b2, v2, l @ k1 @ [set_of stop_params])))"
    by (simp add: keeps_def)
  then obtain k2 where k2: "snd (snd (snd (?after (b2, v2, l @ k1 @ [set_of stop_params])))) = l @ (k1 @ set_of stop_params # k2)" "writes k2 = []"
    by (auto simp: called_def no_writes)
  have "snd (wn_world (snd (do_stop (watched_winch wk io rpc) s))) = snd (snd (snd (?after (b2, v2, l @ k1 @ [set_of stop_params]))))"
    using assms(1) k1 stop
    by (simp add: do_stop_def watched_winch_def on_mm3_def bnd_def catching_def quietly_def ret_def split: prod.split)
  then show ?thesis using k1(2) k2 w by (intro exI[of _ "k1 @ set_of stop_params # k2"]) (simp add: writes_def set_of_def)
qed

section \<open>Witnesses\<close>

definition demo_at :: "'w rpc_fun \<Rightarrow> 'w winch_console" where
  "demo_at rpc =
     \<lparr>wk_con = \<lparr>con_rpc = rpc, con_now = 0, con_program = ''console'', con_class = ''WinchConsole'', con_show = (\<lambda>v. []),
        con_clock = (\<lambda>t. []), con_links = True, con_telnet = Inl TypeError\<rparr>,
      wk_winch = \<lparr>wi_mm3 = \<lparr>io_rpc = rpc, io_ipc = (\<lambda>br p v w. (None, w))\<rparr>, wi_sonde = rpc, wi_aio = rpc,
        wi_watch = (\<lambda>opts s. ([], s)), wi_now = 0, wi_past = -1\<rparr>,
      wk_cfg = demo_winch, wk_cal = \<lparr>ct_start = 0, ct_polls = [], ct_end = 0\<rparr>, wk_pick = hd\<rparr>"

definition boat_in :: "bool \<Rightarrow> 'w \<Rightarrow> 'w boat" where
  "boat_in token w =
     \<lparr>wn_mm3 = (demo_client [''position''])\<lparr>bk_token := token\<rparr>, wn_sonde = Some (demo_sonde ''spcond_mScm'' 0), wn_err = 0,
      wn_aio = demo_client [], wn_conf = [], wn_wl_cond = 35000, wn_wl_press = 48000, wn_wl = 49000, wn_world = w\<rparr>"

definition open_io :: "'w rpc_fun \<Rightarrow> 'w mm3_io" where
  "open_io rpc = \<lparr>io_rpc = rpc, io_ipc = (\<lambda>br p v w. (None, w))\<rparr>"



lemma demo_forced:
  "(case do_token (watched_io (wk_con (demo_at (traced script_rpc))) (io_rpc (open_io script_rpc))) ''force''
      (wn_mm3 (boat_in False (granted, [])), wn_world (boat_in False (granted, [] :: trace))) of
     (Inr v, b, w) \<Rightarrow> bk_token b | (Inl e, b, w) \<Rightarrow> False)"
  "list_all (writable (wn_mm3 (boat_in False (granted, [] :: trace)))) (map fst stop_params)"
  by code_simp+

theorem stop_line_stops_witness:
  "writes (snd (wn_world (snd (do_stop (watched_winch (demo_at (traced script_rpc)) (open_io script_rpc) script_rpc)
     (boat_in False (granted, [])))))) = [set_of stop_params]"
proof -
  let ?s = "boat_in False (granted, [] :: trace)"
  obtain v b w where f: "do_token (watched_io (wk_con (demo_at (traced script_rpc))) (io_rpc (open_io script_rpc))) ''force''
      (wn_mm3 ?s, wn_world ?s) = (Inr v, b, w)" "bk_token b"
    using demo_forced(1) by (auto split: prod.splits sum.splits)
  have "\<forall>k \<in> fst ` set stop_params. writable (wn_mm3 ?s) k" using demo_forced(2) by (simp add: list_all_iff)
  from stop_line_stops[OF f this, of script_rpc] show ?thesis by (simp add: boat_in_def)
qed

end
