(* ===== verification/MainConsole.thy ===== *)
theory MainConsole
  imports WinchConsole Procedure
begin

text \<open>
  The main menu of the console, class \<open>MainConsole\<close> of src/python/avp_console.py: the table of the consoles, which are
  opened when they are first entered and share the clients of one context; lines that one console passes to another;
  the schedule and the casts that are started by hand. What is entered is the list of lines that are still to be read.
\<close>

section \<open>State and surroundings\<close>

text \<open>
  The clients of the context with the world they live in, the names of those that have been started, and the consoles that
  have been opened (\<open>initialized\<close>, which is set together with the attribute of the console). \<open>dk_rows\<close> are the values
  of the schedule written to the database. \<open>dk_cast\<close> is None as long as no cast has been constructed.
\<close>

record 'w desk =
  dk_fleet :: "'w fleet"
  dk_power :: broker
  dk_wind :: broker
  dk_cfg :: winch_cfg
  dk_threads :: "'w threads"
  dk_devices :: "(string \<times> string) list"
  dk_brokers :: "string list"
  dk_open :: "string list"
  dk_lines :: "string list"
  dk_status :: sched_status
  dk_rows :: "(string \<times> instant) list"
  dk_cast :: "'w cast option"

text \<open>
  \<open>di_startup\<close>: what \<open>context.startup\<close> makes of the clients and of the list of those that have been started;
  \<open>di_poll\<close>, \<open>di_select\<close> and \<open>di_select_cast\<close>: what the database answers when the schedule is looked up.
\<close>

type_synonym 'w bench = "'w fleet \<times> broker \<times> broker \<times> string list"

record 'w desk_io =
  di_con :: "string \<Rightarrow> 'w console_io"
  di_sonde :: "'w sonde_io"
  di_geo :: "pyval \<Rightarrow> pyval \<Rightarrow> unit res"
  di_lisst :: "'w lisst_io"
  di_isco :: "'w isco_io"
  di_aio :: "'w aio_io"
  di_winch :: "'w winch_console"
  di_startup :: "string \<Rightarrow> 'w bench \<Rightarrow> pyexn option \<times> 'w bench"
  di_now :: instant
  di_poll :: bool
  di_select :: "(string \<times> instant option) res"
  di_select_cast :: "string res"
  di_cast :: "'w cast_io"
  di_kc :: cast_cfg
  di_debug :: bool

section \<open>The clients behind the consoles\<close>

definition desk_boat :: "'w desk \<Rightarrow> 'w boat" where
  "desk_boat s = fl_boat (dk_fleet s)"

definition put_boat :: "'w boat \<Rightarrow> 'w desk \<Rightarrow> 'w desk" where
  "put_boat b s = s\<lparr>dk_fleet := (dk_fleet s)\<lparr>fl_boat := b\<rparr>\<rparr>"

definition client_of :: "string \<Rightarrow> 'w desk \<Rightarrow> broker option" where
  "client_of b s =
     (if b = ''aio'' then Some (wn_aio (desk_boat s))
      else if b = ''mm3'' then Some (wn_mm3 (desk_boat s))
      else if b = ''sonde'' then wn_sonde (desk_boat s)
      else if b = ''gps'' then fl_gps (dk_fleet s)
      else if b = ''isco'' then Some (fl_isco (dk_fleet s))
      else if b = ''lisst'' then Some (fl_lisst (dk_fleet s))
      else if b = ''sounder'' then Some (fl_sounder (dk_fleet s))
      else if b = ''powermon'' then Some (dk_power s)
      else if b = ''wind'' then Some (dk_wind s)
      else None)"

definition put_client :: "string \<Rightarrow> broker \<Rightarrow> 'w desk \<Rightarrow> 'w desk" where
  "put_client b c s =
     (if b = ''aio'' then put_boat ((desk_boat s)\<lparr>wn_aio := c\<rparr>) s
      else if b = ''mm3'' then put_boat ((desk_boat s)\<lparr>wn_mm3 := c\<rparr>) s
      else if b = ''sonde'' then put_boat ((desk_boat s)\<lparr>wn_sonde := Some c\<rparr>) s
      else if b = ''gps'' then s\<lparr>dk_fleet := (dk_fleet s)\<lparr>fl_gps := Some c\<rparr>\<rparr>
      else if b = ''isco'' then s\<lparr>dk_fleet := (dk_fleet s)\<lparr>fl_isco := c\<rparr>\<rparr>
      else if b = ''lisst'' then s\<lparr>dk_fleet := (dk_fleet s)\<lparr>fl_lisst := c\<rparr>\<rparr>
      else if b = ''sounder'' then s\<lparr>dk_fleet := (dk_fleet s)\<lparr>fl_sounder := c\<rparr>\<rparr>
      else if b = ''powermon'' then s\<lparr>dk_power := c\<rparr>
      else s\<lparr>dk_wind := c\<rparr>)"

definition put_world :: "'w \<Rightarrow> 'w desk \<Rightarrow> 'w desk" where
  "put_world w s = put_boat ((desk_boat s)\<lparr>wn_world := w\<rparr>) s"

definition at_boat :: "('w boat, 'a) act \<Rightarrow> ('w desk, 'a) act" where
  "at_boat m s = (case m (desk_boat s) of (r, b) \<Rightarrow> (r, put_boat b s))"

definition at_client :: "string \<Rightarrow> (broker \<times> 'w, 'a) act \<Rightarrow> ('w desk, 'a) act" where
  "at_client b m s =
     (case client_of b s of
        None \<Rightarrow> (Inl AttributeError, s)
      | Some c \<Rightarrow> (case m (c, wn_world (desk_boat s)) of (r, c1, w) \<Rightarrow> (r, put_world w (put_client b c1 s))))"

text \<open>The sonde with the error of its pressure, the particle sizer with the threads that have been started.\<close>

definition at_sonde :: "(rat \<times> broker \<times> 'w, 'a) act \<Rightarrow> ('w desk, 'a) act" where
  "at_sonde m s =
     (case client_of ''sonde'' s of
        None \<Rightarrow> (Inl AttributeError, s)
      | Some c \<Rightarrow>
          (case m (wn_err (desk_boat s), c, wn_world (desk_boat s)) of (r, e, c1, w) \<Rightarrow>
             (r, put_boat ((desk_boat s)\<lparr>wn_err := e, wn_sonde := Some c1, wn_world := w\<rparr>) s)))"

definition at_lisst :: "('w threads \<times> broker \<times> 'w, 'a) act \<Rightarrow> ('w desk, 'a) act" where
  "at_lisst m s =
     (case m (dk_threads s, fl_lisst (dk_fleet s), wn_world (desk_boat s)) of (r, ts, c, w) \<Rightarrow>
        (r, put_world w (put_client ''lisst'' c s)\<lparr>dk_threads := ts\<rparr>))"

text \<open>The commands of the class of a console; constants that a cast changes are those of the context.\<close>

definition lifted :: "(('s, pyval) act \<Rightarrow> ('t, pyval) act) \<Rightarrow> 's commands \<Rightarrow> 't commands" where
  "lifted f cmds = map (\<lambda>(n, m). (n, \<lambda>a. f (m a))) cmds"

definition own_commands :: "'w desk_io \<Rightarrow> string \<Rightarrow> 'w desk \<Rightarrow> 'w desk commands" where
  "own_commands io b s =
     (if b = ''aio'' then lifted (at_client b) (aio_commands ((di_aio io)\<lparr>ao_devices := dk_devices s\<rparr>))
      else if b = ''mm3'' then lifted at_boat (winch_commands ((di_winch io)\<lparr>wk_cfg := dk_cfg s\<rparr>))
      else if b = ''sonde'' then lifted at_sonde (sonde_commands ((di_sonde io)\<lparr>so_cfg := wc_sonde (dk_cfg s)\<rparr>))
      else if b = ''gps'' then lifted (at_client b) (gps_commands (di_con io b) (di_geo io))
      else if b = ''isco'' then lifted (at_client b) (isco_commands (di_isco io))
      else if b = ''lisst'' then lifted at_lisst (lisst_commands (di_lisst io))
      else if b = ''sounder'' then lifted (at_client b) (sounder_commands (di_con io b))
      else if b = ''powermon'' then lifted (at_client b) (power_commands (di_con io b))
      else lifted (at_client b) (wind_commands (di_con io b)))"

section \<open>Reading lines\<close>

definition next_line :: "('w desk, string option) act" where
  "next_line s = (case dk_lines s of [] \<Rightarrow> (Inr None, s) | l # ls \<Rightarrow> (Inr (Some l), s\<lparr>dk_lines := ls\<rparr>))"

text \<open>The loop of a console, True: it has been left. It reads at most as many lines as there are.\<close>

fun line_loop :: "nat \<Rightarrow> (string \<Rightarrow> ('w desk, pyval) act) \<Rightarrow> ('w desk, bool) act" where
  "line_loop 0 f = ret False"
| "line_loop (Suc n) f =
     bnd next_line (\<lambda>l. case l of
       None \<Rightarrow> ret False
     | Some x \<Rightarrow> bnd (f x) (\<lambda>v. if truthy v then ret True else line_loop n f))"

text \<open>
  In the console of a broker the names of the others are commands, which pass the rest of the line on. The rest may name
  another console again.
\<close>

definition other_words :: "(string \<times> string) list" where
  "other_words = [(''aio'', ''aio''), (''powermon'', ''powermon''), (''sonde'', ''sonde''), (''sounder'', ''sounder''), (''winch'', ''mm3''),
     (''wind'', ''wind''), (''isco'', ''isco''), (''lisst'', ''lisst'')]"

lemma length_strip: "length (strip s) \<le> length s"
  unfolding strip_def by (metis length_rev length_dropWhile_le order_trans)

lemma rest_shorter:
  assumes "parse_line line = Some (c, a)" "dget other_words c = Some d"
  shows "length a < length line"
proof -
  have c: "c \<noteq> []" "c \<noteq> ''help''" using assms(2) by (auto simp: other_words_def dget_def split: if_splits)
  have h: "takeWhile ident_char (''help '' @ cs) = ''help''" for cs by (simp add: ident_char_def is_upper_def is_lower_def is_digit_def)
  obtain x xs where l: "strip line = x # xs" using assms(1) by (cases "strip line") (simp_all add: parse_line_def)
  have "x \<noteq> CHR ''?''" using assms(1) c(2) h[of xs] l by (auto simp: parse_line_def Let_def split: if_splits)
  then have "c = takeWhile ident_char (strip line)" "a = strip (dropWhile ident_char (strip line))"
    using assms(1) l by (auto simp: parse_line_def Let_def split: if_splits)
  moreover have "length (takeWhile ident_char (strip line)) + length (dropWhile ident_char (strip line)) = length (strip line)"
    by (metis length_append takeWhile_dropWhile_id)
  moreover from calculation(1) c(1) have "0 < length (takeWhile ident_char (strip line))" by simp
  moreover from calculation(2) have "length a \<le> length (dropWhile ident_char (strip line))" by (simp add: length_strip)
  ultimately show ?thesis using length_strip[of line] by linarith
qed

function sub_line :: "'w desk_io \<Rightarrow> string \<Rightarrow> string \<Rightarrow> ('w desk, pyval) act" where
  "sub_line io b line =
     (\<lambda>s. case parse_line line of
        None \<Rightarrow> (Inr PNone, s)
      | Some (c, a) \<Rightarrow>
          (case dget other_words c of
             None \<Rightarrow> one_cmd (own_commands io b s) line s
           | Some d \<Rightarrow> other_console (if d \<in> set (dk_open s) then Some (sub_line io d a) else None) s))"
  by pat_completeness auto
termination by (relation "measure (\<lambda>(io, b, line). length line)") (auto intro: rest_shorter)

declare sub_line.simps [simp del]

definition sub_loop :: "'w desk_io \<Rightarrow> string \<Rightarrow> ('w desk, bool) act" where
  "sub_loop io b s = line_loop (length (dk_lines s)) (sub_line io b) s"

section \<open>Opening a console\<close>

definition start_client :: "'w desk_io \<Rightarrow> string \<Rightarrow> ('w desk, unit) act" where
  "start_client io b s =
     (case di_startup io b (dk_fleet s, dk_power s, dk_wind s, dk_brokers s) of
        (x, f, p, w, bs) \<Rightarrow>
          (case x of None \<Rightarrow> Inr () | Some e \<Rightarrow> Inl e, s\<lparr>dk_fleet := f, dk_power := p, dk_wind := w, dk_brokers := bs\<rparr>))"

definition mm3_shown :: "string list" where
  "mm3_shown = [''position'', ''desired_position'', ''in_position'', ''neg_limit_switch'', ''pos_limit_switch'', ''pwm_out'',
     ''amps_limit'', ''deadband'', ''enable_db'']"

text \<open>
  The console of the winch subscribes to what it shows; whether the sonde measures the conductivity is looked up at the
  motor controller.
\<close>

definition open_winch :: "'w winch_console \<Rightarrow> ('w boat, unit) act" where
  "open_winch wk =
     (let io = wk_winch wk;
          sub = (\<lambda>n. ignoring (on_sonde (add_subscriptions (wi_sonde io) [n] on_change None)));
          if_known = (\<lambda>n. bnd (peek (\<lambda>s. has_attr (wn_mm3 s) n)) (\<lambda>h. only_if h (sub n) ()))
      in steps [
           winch_init io (wk_cfg wk), sub ''depth_m'', if_known ''spcond_mScm'', if_known ''spcond_uScm'',
           ignoring (on_mm3 (add_subscriptions (con_rpc (wk_con wk)) mm3_shown on_change None)),
           bnd (peek (\<lambda>s. case wn_sonde s of None \<Rightarrow> False | Some b \<Rightarrow> bk_instr b = Some True)) (\<lambda>c.
             only_if c (ignoring (rd_sonde io ''sampling'')) ())])"

definition construct_console :: "'w desk_io \<Rightarrow> string \<Rightarrow> ('w desk, unit) act" where
  "construct_console io b =
     (if b = ''mm3'' then (\<lambda>s. at_boat (open_winch ((di_winch io)\<lparr>wk_cfg := dk_cfg s\<rparr>)) s)
      else if b = ''aio'' then modify (\<lambda>s. s\<lparr>dk_devices := found_devices (has_attr (wn_aio (desk_boat s)))\<rparr>)
      else ret ())"

text \<open>False: the client of the console could not be started.\<close>

definition open_console :: "'w desk_io \<Rightarrow> string \<Rightarrow> ('w desk, bool) act" where
  "open_console io b =
     bnd (peek (\<lambda>s. b \<in> set (dk_open s))) (\<lambda>known.
     if known then ret True
     else bnd (start_client io b) (\<lambda>_.
          bnd (peek (\<lambda>s. b \<in> set (dk_brokers s))) (\<lambda>started.
          if started then bnd (construct_console io b) (\<lambda>_. bnd (modify (\<lambda>s. s\<lparr>dk_open := dk_open s @ [b]\<rparr>)) (\<lambda>_. ret True))
          else ret False)))"

definition start_sub_menu :: "'w desk_io \<Rightarrow> string \<Rightarrow> bool \<Rightarrow> ('w desk, pyval) act" where
  "start_sub_menu io b init_only =
     bnd (open_console io b) (\<lambda>ok.
     if \<not> ok then ret (PBool False) else if init_only then ret PNone else quietly (sub_loop io b))"

definition enter :: "'w desk_io \<Rightarrow> string \<Rightarrow> ('w desk, pyval) act" where
  "enter io b = quietly (start_sub_menu io b False)"

definition enter_winch :: "'w desk_io \<Rightarrow> ('w desk, pyval) act" where
  "enter_winch io = bnd (start_sub_menu io ''sonde'' True) (\<lambda>_. enter io ''mm3'')"

section \<open>All consoles that are open\<close>

definition menu_names :: "string list" where
  "menu_names = [''aio'', ''powermon'', ''gps'', ''isco'', ''lisst'', ''sonde'', ''sounder'', ''mm3'', ''wind'']"

text \<open>A console that has not been opened is no attribute of the menu.\<close>

definition console_do :: "'w desk_io \<Rightarrow> string \<Rightarrow> string \<Rightarrow> string \<Rightarrow> ('w desk, unit) act" where
  "console_do io cmd args b =
     bnd (peek (\<lambda>s. if b \<in> set (dk_open s) then dget (own_commands io b s) cmd else None)) (\<lambda>m.
     case m of None \<Rightarrow> fail AttributeError | Some f \<Rightarrow> ignoring (f args))"

definition status_all :: "'w desk_io \<Rightarrow> ('w desk, pyval) act" where
  "status_all io =
     quietly (steps (map (\<lambda>b. bnd (peek (\<lambda>s. b \<in> set (dk_open s))) (\<lambda>opened. only_if opened (console_do io ''status'' ''1'' b) ())) menu_names))"

text \<open>
  The console on which a command for a broker is carried out: for the GPS it is looked up under a name that is never set,
  and for the sounder it is that of the sonde.
\<close>

definition asked_console :: "string \<Rightarrow> string" where
  "asked_console b = (if b = ''gps'' then ''GPS'' else if b = ''sounder'' then ''sonde'' else b)"

definition report_words :: "string \<Rightarrow> string list" where
  "report_words b = [b, ''all''] @ (if b = ''sonde'' then [''s''] else if b = ''mm3'' then [''w''] else [])"

definition report_all :: "'w desk_io \<Rightarrow> string \<Rightarrow> string \<Rightarrow> ('w desk, pyval) act" where
  "report_all io cmd args =
     quietly (steps (map (\<lambda>b. bnd (peek (\<lambda>s. b \<in> set (dk_open s))) (\<lambda>opened.
       only_if (opened \<and> list_ex (\<lambda>w. w \<in> set (py_split args)) (report_words b)) (console_do io cmd args (asked_console b)) ())) menu_names))"

definition shutdown_words :: "string \<Rightarrow> string list" where
  "shutdown_words b = (if b = ''mm3'' then [''winch'', ''w''] else if b = ''sonde'' then [''sonde'', ''s''] else [b])"

definition shutdown_named :: "'w desk_io \<Rightarrow> string \<Rightarrow> ('w desk, pyval) act" where
  "shutdown_named io args =
     quietly (steps (map (\<lambda>b.
       only_if (list_ex (\<lambda>w. w \<in> set (py_split args)) (shutdown_words b)) (console_do io ''shutdown'' args (asked_console b)) ()) menu_names))"

section \<open>The schedule\<close>

text \<open>The schedule is looked up for every message about it.\<close>

definition ask_status :: "'w desk_io \<Rightarrow> ('w desk, pyval) act" where
  "ask_status io =
     quietly (modify (\<lambda>s. s\<lparr>dk_status := get_state (di_poll io) (di_select io) (di_select_cast io) (di_now io) (dk_status s)\<rparr>))"

definition change_status :: "instant \<Rightarrow> string \<Rightarrow> 'w desk \<Rightarrow> 'w desk" where
  "change_status now v s =
     (case set_state v now (dk_status s) of
        (st, row) \<Rightarrow> s\<lparr>dk_status := st, dk_rows := dk_rows s @ (case row of None \<Rightarrow> [] | Some r \<Rightarrow> [r])\<rparr>)"

definition do_sched :: "'w desk_io \<Rightarrow> string \<Rightarrow> ('w desk, pyval) act" where
  "do_sched io args =
     (if args = [] then ask_status io
      else if args \<in> set valid_states then quietly (modify (change_status (di_now io) args)) else ret PNone)"

section \<open>Casts\<close>

text \<open>A new cast: the attributes that are not set yet have values that \<open>pre_config\<close> replaces.\<close>

definition new_cast :: "'w fleet \<Rightarrow> winch_cfg \<Rightarrow> instant \<Rightarrow> 'w cast" where
  "new_cast f cfg now =
     \<lparr>cs_fleet = f, cs_cfg = cfg, cs_has = [], cs_gps = None, cs_abort = [], cs_lisst = Lisst_no, cs_isco = False, cs_profile = True,
      cs_sample_time = Fin 180, cs_depth_target = 0, cs_cast_number = None, cs_cast_time = now, cs_bottle = 1, cs_volume = 1000,
      cs_wipe = True, cs_over_cast = 1 / 5, cs_pre_cal = True, cs_park_pos = ''default'', cs_debug = False,
      cs_bottom_strike = False, cs_adjusted = None, cs_started = 0, cs_completed = 0, cs_status = [''Scheduler re-started.'']\<rparr>"

definition ensure_cast :: "instant \<Rightarrow> 'w desk \<Rightarrow> 'w desk" where
  "ensure_cast now s = (case dk_cast s of None \<Rightarrow> s\<lparr>dk_cast := Some (new_cast (dk_fleet s) (dk_cfg s) now)\<rparr> | Some c \<Rightarrow> s)"

text \<open>The cast works on the clients of the context.\<close>

definition at_cast :: "('w cast, 'a) act \<Rightarrow> ('w desk, 'a) act" where
  "at_cast m s =
     (case dk_cast s of
        None \<Rightarrow> (Inl AttributeError, s)
      | Some c \<Rightarrow>
          (case m (c\<lparr>cs_fleet := dk_fleet s, cs_cfg := dk_cfg s\<rparr>) of
             (r, c1) \<Rightarrow> (r, s\<lparr>dk_cast := Some c1, dk_fleet := cs_fleet c1, dk_cfg := cs_cfg c1\<rparr>)))"

text \<open>
  What is asked for: the text of the depth, a time for a static cast, and for a cast with the sampler the texts of
  bottle and volume.
\<close>

record cast_line =
  cl_depth :: string
  cl_lisst :: bool
  cl_static :: "flt option"
  cl_bottle :: "(string \<times> string) option"

definition whole :: "string \<Rightarrow> int option" where
  "whole t = (case int_of_string t of Inl e \<Rightarrow> None | Inr n \<Rightarrow> Some n)"

definition line_request :: "instant \<Rightarrow> cast_line \<Rightarrow> rat \<Rightarrow> cast_request" where
  "line_request now l q =
     \<lparr>cr_entry = [], cr_depth = q, cr_time = now,
      cr_args = \<lparr>ca_wipe = True, ca_park_pos = (if cl_static l = None then ''default'' else ''bottom''), ca_lisst = cl_lisst l,
        ca_isco = (cl_bottle l \<noteq> None), ca_bottle_volume = map_option (\<lambda>(b, v). (whole b, whole v)) (cl_bottle l)\<rparr>\<rparr>"

definition configure_line :: "'w desk_io \<Rightarrow> cast_line \<Rightarrow> rat \<Rightarrow> ('w cast, unit) act" where
  "configure_line io l q =
     bnd (pre_config (di_cast io) False (di_debug io) (line_request (di_now io) l q)) (\<lambda>_.
     modify (\<lambda>c. c\<lparr>cs_profile := (cl_static l = None \<and> cl_bottle l = None), cs_pre_cal := True,
       cs_sample_time := (case cl_static l of None \<Rightarrow> Fin 180 | Some t \<Rightarrow> t)\<rparr>))"

text \<open>
  \<open>cast\<close>: no depth stands for the depth of the sounder. A depth that is no finite number is refused here, like one that
  is not above zero; in the code infinity goes on as a depth that is too large.
\<close>

definition cast_depth :: "string \<Rightarrow> rat option" where
  "cast_depth t =
     (if t = [] then Some (9999 / 10)
      else case float_of_string t of Inr (Fin q) \<Rightarrow> if q \<le> 0 then None else Some q | _ \<Rightarrow> None)"

definition start_line :: "'w desk_io \<Rightarrow> cast_line \<Rightarrow> ('w desk, pyval) act" where
  "start_line io l =
     (case cast_depth (cl_depth l) of
        None \<Rightarrow> ret (PInt 0)
      | Some q \<Rightarrow>
          bnd (modify (ensure_cast (di_now io))) (\<lambda>_.
          quietly (at_cast (bnd (configure_line io l q) (\<lambda>_. start_cast (di_cast io) (di_kc io))))))"

text \<open>
  A line for a cast with or without the particle sizer: without a word the state of the schedule is asked for; a second
  word has to be S, with a time behind it.
\<close>

datatype asked = Ask_status | Refused | Plain_cast | Static_cast flt

definition read_line :: "string list \<Rightarrow> asked" where
  "read_line ws =
     (case ws of
        [] \<Rightarrow> Ask_status
      | [d] \<Rightarrow> Plain_cast
      | d # m # ts \<Rightarrow>
          if m \<noteq> ''S'' then Refused
          else (case ts of [] \<Rightarrow> Refused | t # _ \<Rightarrow> (case float_of_string t of Inl e \<Rightarrow> Refused | Inr q \<Rightarrow> Static_cast q)))"

definition line_of :: "'w desk_io \<Rightarrow> asked \<Rightarrow> string \<Rightarrow> bool \<Rightarrow> ('w desk, pyval) act" where
  "line_of io a depth lisst =
     (let go = (\<lambda>t. quietly (start_line io \<lparr>cl_depth = depth, cl_lisst = lisst, cl_static = t, cl_bottle = None\<rparr>))
      in case a of Ask_status \<Rightarrow> ask_status io | Refused \<Rightarrow> ret PNone | Plain_cast \<Rightarrow> go None | Static_cast t \<Rightarrow> go (Some t))"

definition lisst_line :: "'w desk_io \<Rightarrow> string \<Rightarrow> ('w desk, pyval) act" where
  "lisst_line io args =
     (let ws = py_split args in line_of io (read_line ws) (case ws of [] \<Rightarrow> [] | d # _ \<Rightarrow> d) True)"

text \<open>\<open>cast\<close> passes the whole line on as the depth.\<close>

definition plain_line :: "'w desk_io \<Rightarrow> string \<Rightarrow> ('w desk, pyval) act" where
  "plain_line io args = line_of io (read_line (py_split args)) args False"

text \<open>\<open>casti\<close> catches whatever the cast raises.\<close>

definition isco_line :: "'w desk_io \<Rightarrow> string \<Rightarrow> ('w desk, pyval) act" where
  "isco_line io args =
     (case py_split args of
        [] \<Rightarrow> ask_status io
      | d # b # v # _ \<Rightarrow>
          catching (quietly (start_line io \<lparr>cl_depth = d, cl_lisst = False, cl_static = None, cl_bottle = Some (b, v)\<rparr>))
            (\<lambda>e. if e = endless then fail e else ret PNone)
      | _ \<Rightarrow> ret PNone)"

section \<open>The menu\<close>

text \<open>\<open>exit\<close> reads another line; as long as there is none it waits. \<open>quit\<close> and \<open>x\<close> are those of every console.\<close>

definition exit_menu :: "('w desk, pyval) act" where
  "exit_menu =
     bnd next_line (\<lambda>l. case l of None \<Rightarrow> ret PNone | Some x \<Rightarrow> ret (if map to_lower x = ''x'' then PInt (- 1) else PNone))"

definition main_commands :: "'w desk_io \<Rightarrow> 'w desk commands" where
  "main_commands io =
     [(''sonde'', \<lambda>a. enter io ''sonde''), (''s'', \<lambda>a. enter io ''sonde''), (''powermon'', \<lambda>a. enter io ''powermon''),
      (''gps'', \<lambda>a. enter io ''gps''), (''isco'', \<lambda>a. enter io ''isco''), (''lisst'', \<lambda>a. enter io ''lisst''),
      (''winch'', \<lambda>a. enter_winch io), (''w'', \<lambda>a. enter_winch io), (''aio'', \<lambda>a. enter io ''aio''),
      (''sounder'', \<lambda>a. enter io ''sounder''), (''wind'', \<lambda>a. enter io ''wind''), (''sched'', do_sched io),
      (''status'', \<lambda>a. status_all io), (''stat'', \<lambda>a. status_all io), (''cast'', plain_line io), (''castl'', lisst_line io),
      (''casti'', isco_line io), (''para'', report_all io ''para''), (''report'', report_all io ''report''),
      (''shutdown'', shutdown_named io), (''connect'', \<lambda>a. ret PNone), (''exit'', \<lambda>a. exit_menu), (''quit'', do_exit), (''x'', do_exit)]"

definition main_line :: "'w desk_io \<Rightarrow> string \<Rightarrow> ('w desk, pyval) act" where
  "main_line io = one_cmd (main_commands io)"

text \<open>
  The console starts the client of the relays and their console, looks the schedule up, and reads lines until it is left;
  that the context is shut down behind it is left out.
\<close>

definition open_desk :: "'w desk_io \<Rightarrow> ('w desk, unit) act" where
  "open_desk io =
     bnd (start_client io ''aio'') (\<lambda>_.
     bnd (peek (\<lambda>s. ''aio'' \<in> set (dk_brokers s))) (\<lambda>started.
     if \<not> started then fail AttributeError
     else bnd (open_console io ''aio'') (\<lambda>_. ignoring (ask_status io))))"

definition main_loop :: "'w desk_io \<Rightarrow> ('w desk, bool) act" where
  "main_loop io s = line_loop (length (dk_lines s)) (main_line io) s"

definition console_main :: "'w desk_io \<Rightarrow> ('w desk, bool) act" where
  "console_main io = bnd (open_desk io) (\<lambda>_. main_loop io)"

section \<open>Lines are used up\<close>

definition reads_on :: "'w desk \<Rightarrow> 'w desk \<Rightarrow> bool" where
  "reads_on s t \<longleftrightarrow> length (dk_lines t) \<le> length (dk_lines s)"

interpretation reads: kept reads_on
  by unfold_locales (simp_all add: reads_on_def)

lemma desk_lines [simp]:
  "dk_lines (put_boat b s) = dk_lines s" "dk_lines (put_world w s) = dk_lines s" "dk_lines (put_client n c s) = dk_lines s"
  "dk_lines (change_status now v s) = dk_lines s" "dk_lines (ensure_cast now s) = dk_lines s"
  by (simp_all add: put_boat_def put_world_def put_client_def change_status_def ensure_cast_def split: prod.split option.split)

lemma reads_parts:
  "keeps reads_on (at_boat m)" "keeps reads_on (at_client b m')" "keeps reads_on (at_sonde m1)" "keeps reads_on (at_lisst m2)"
  "keeps reads_on (at_cast m3)" "keeps reads_on (start_client io b)" "keeps reads_on (ask_status io)"
  by (auto simp: keeps_def reads_on_def at_boat_def at_client_def at_sonde_def at_lisst_def at_cast_def start_client_def ask_status_def
      quietly_def bnd_def modify_def ret_def split: prod.split option.split)

lemma reads_modify: "(\<And>s. dk_lines (f s) = dk_lines s) \<Longrightarrow> keeps reads_on (modify f)"
  by (simp add: keeps_def reads_on_def modify_def)

lemma reads_quietly: "keeps reads_on m \<Longrightarrow> keeps reads_on (quietly m)"
  by (auto simp: quietly_def intro!: reads.k_rules)

lemma reads_other: "(\<And>m. line = Some m \<Longrightarrow> keeps reads_on m) \<Longrightarrow> keeps reads_on (other_console line)"
  by (auto simp: other_console_def intro!: reads.k_rules reads_quietly split: option.split)

text \<open>Every command of a table keeps the relation.\<close>

definition table_reads :: "'w desk commands \<Rightarrow> bool" where
  "table_reads cmds \<longleftrightarrow> (\<forall>(n, f) \<in> set cmds. \<forall>a. keeps reads_on (f a))"

lemma table_simps: "table_reads []" "table_reads ((n, f) # cmds) \<longleftrightarrow> (\<forall>a. keeps reads_on (f a)) \<and> table_reads cmds"
  by (simp_all add: table_reads_def)

lemma table_lifted: "(\<And>m. keeps reads_on (f m)) \<Longrightarrow> table_reads (lifted f cmds)"
  by (auto simp: table_reads_def lifted_def)

lemma table_one: "table_reads cmds \<Longrightarrow> keeps reads_on (one_cmd cmds line)"
  by (auto simp: one_cmd_def table_reads_def dget_def intro!: reads.k_ret split: option.split dest!: map_of_SomeD)

lemma own_reads: "table_reads (own_commands io b s)"
  by (auto simp: own_commands_def intro!: table_lifted reads_parts)

lemma sub_line_reads: "keeps reads_on (sub_line io b line)"
proof (induction io b line rule: sub_line.induct)
  case (1 io b line)
  have "reads_on s (snd (sub_line io b line s))" for s
  proof (cases "parse_line line")
    case None
    then show ?thesis by (simp add: sub_line.simps reads.r_refl)
  next
    case (Some ca)
    obtain c a where ca: "parse_line line = Some (c, a)" using Some by (cases ca) simp
    show ?thesis
    proof (cases "dget other_words c")
      case None
      with ca table_one[OF own_reads, of io b s line] show ?thesis by (simp add: sub_line.simps keeps_def)
    next
      case (Some d)
      have "keeps reads_on (other_console (if d \<in> set (dk_open s) then Some (sub_line io d a) else None))"
        using 1[OF ca refl Some] by (intro reads_other) (auto split: if_splits)
      with ca Some show ?thesis by (simp add: sub_line.simps keeps_def)
    qed
  qed
  then show ?case by (simp add: keeps_def)
qed

lemma next_line_reads: "keeps reads_on next_line"
  by (auto simp: keeps_def reads_on_def next_line_def split: list.split)

lemma line_loop_reads: "(\<And>x. keeps reads_on (f x)) \<Longrightarrow> keeps reads_on (line_loop n f)"
  by (induction n) (auto intro!: reads.k_rules next_line_reads split: option.split)

text \<open>As many passes as lines are enough, and the loop only waits when all lines have been read.\<close>

lemma line_loop_enough:
  assumes "\<And>x. keeps reads_on (f x)" "length (dk_lines s) \<le> n"
  shows "line_loop n f s = line_loop (length (dk_lines s)) f s \<and>
    (\<forall>t. line_loop n f s = (Inr False, t) \<longrightarrow> dk_lines t = [])"
  using assms(2)
proof (induction n arbitrary: s rule: less_induct)
  case (less n)
  show ?case
  proof (cases "dk_lines s")
    case Nil
    then show ?thesis by (cases n) (auto simp: ret_def bnd_def next_line_def)
  next
    case (Cons l ls)
    then obtain k where n: "n = Suc k" "length ls \<le> k" using less.prems by (cases n) auto
    let ?s = "s\<lparr>dk_lines := ls\<rparr>"
    obtain r t where f: "f l ?s = (r, t)" by (cases "f l ?s")
    have t: "length (dk_lines t) \<le> length ls" using keepsD[OF assms(1) f] by (simp add: reads_on_def)
    have a: "line_loop k f t = line_loop (length (dk_lines t)) f t" "\<forall>u. line_loop k f t = (Inr False, u) \<longrightarrow> dk_lines u = []"
      using less.IH[of k t] n t by simp_all
    have b: "line_loop (length ls) f t = line_loop (length (dk_lines t)) f t" using less.IH[of "length ls" t] n t by simp
    have step: "line_loop (Suc m) f s = (case r of Inl e \<Rightarrow> (Inl e, t) | Inr v \<Rightarrow> if truthy v then (Inr True, t) else line_loop m f t)" for m
      using Cons f by (simp add: bnd_def next_line_def ret_def split: sum.split)
    show ?thesis using a b step[of k] step[of "length ls"] Cons n(1) by (auto split: sum.split)
  qed
qed

lemma sub_loop_reads: "keeps reads_on (sub_loop io b)"
proof -
  have "keeps reads_on (line_loop n (sub_line io b))" for n by (rule line_loop_reads, rule sub_line_reads)
  then show ?thesis by (simp add: keeps_def sub_loop_def)
qed

lemma construct_reads: "keeps reads_on (construct_console io b)"
proof -
  have "keeps reads_on (\<lambda>s. at_boat (open_winch ((di_winch io)\<lparr>wk_cfg := dk_cfg s\<rparr>)) s)"
    using reads_parts(1) by (auto simp: keeps_def)
  then show ?thesis by (auto simp: construct_console_def intro!: reads.k_rules reads_modify)
qed

lemma menu_reads:
  "keeps reads_on (open_console io b)" "keeps reads_on (start_sub_menu io b i)" "keeps reads_on (enter io b)" "keeps reads_on (enter_winch io)"
  by (auto simp: open_console_def start_sub_menu_def enter_def enter_winch_def
      intro!: reads.k_rules reads_quietly reads_modify reads_parts construct_reads sub_loop_reads)

lemma console_do_reads: "keeps reads_on (console_do io cmd args b)"
proof -
  have "reads_on s (snd (console_do io cmd args b s))" for s
  proof (cases "if b \<in> set (dk_open s) then dget (own_commands io b s) cmd else None")
    case None
    then show ?thesis by (simp add: console_do_def bnd_def peek_def fail_def reads.r_refl)
  next
    case (Some f)
    then have "(cmd, f) \<in> set (own_commands io b s)" by (auto simp: dget_def split: if_splits dest: map_of_SomeD)
    then have "keeps reads_on (ignoring (f args))"
      using own_reads[of io b s] by (intro reads.k_ignoring) (auto simp: table_reads_def)
    with Some show ?thesis by (simp add: console_do_def bnd_def peek_def keeps_def)
  qed
  then show ?thesis by (simp add: keeps_def)
qed

lemma main_reads: "table_reads (main_commands io)"
proof -
  have w: "keeps reads_on (start_line io l)" for l
    by (auto simp: start_line_def intro!: reads.k_rules reads_quietly reads_modify reads_parts split: option.split)
  have c: "keeps reads_on (plain_line io a)" "keeps reads_on (lisst_line io a)" "keeps reads_on (isco_line io a)" for a
    by (auto simp: plain_line_def lisst_line_def isco_line_def line_of_def Let_def intro!: reads.k_rules reads_quietly reads_parts w
        split: asked.split list.split)
  have d: "keeps reads_on (do_sched io a)" "keeps reads_on (status_all io)" "keeps reads_on (report_all io n a)" "keeps reads_on (shutdown_named io a)" for n a
    by (auto simp: do_sched_def status_all_def report_all_def shutdown_named_def
        intro!: reads.k_rules reads.k_steps reads_quietly reads_modify reads_parts console_do_reads)
  have e: "keeps reads_on exit_menu" "keeps reads_on (do_exit a)" for a
    by (auto simp: exit_menu_def do_exit_def intro!: reads.k_rules next_line_reads)
  show ?thesis by (simp add: main_commands_def table_simps menu_reads c d e reads.k_ret)
qed

section \<open>Texts that are no number\<close>

lemma digits_none: "x \<in> set t \<Longrightarrow> \<not> is_digit x \<Longrightarrow> x \<noteq> CHR ''_'' \<Longrightarrow> digits_val a f t = None"
  by (induction a f t rule: digits_val.induct) auto

lemma split_member: "x \<in> set t \<Longrightarrow> x \<noteq> c \<Longrightarrow> \<exists>p \<in> set (split_on c t). x \<in> set p"
  by (induction c t rule: split_on.induct) (auto split: list.splits)

lemma no_digit_s: "\<not> is_digit (CHR ''s'')"
  by (simp add: is_digit_def)

lemma mantissa_none:
  assumes "CHR ''s'' \<in> set m"
  shows "mantissa_of m = None"
proof -
  obtain p where p: "p \<in> set (split_on (CHR ''.'') m)" "CHR ''s'' \<in> set p" using split_member[OF assms, of "CHR ''.''"] by auto
  then have "digits_val 0 False p = None" "p \<noteq> []" using digits_none[OF p(2) no_digit_s] by auto
  then show ?thesis using p(1) by (auto simp: mantissa_of_def digit_part_def split: list.split option.split)
qed

lemma float_none:
  assumes "CHR ''s'' \<in> set (map to_lower (strip t))"
  shows "float_of_string t = Inl ValueError"
proof -
  obtain n u where s: "signed (map to_lower (strip t)) = (n, u)" by (cases "signed (map to_lower (strip t))")
  have u: "CHR ''s'' \<in> set u" using assms s by (auto simp: signed_def split: list.splits if_splits)
  then obtain p where p: "p \<in> set (split_on (CHR ''e'') u)" "CHR ''s'' \<in> set p" using split_member[OF u, of "CHR ''e''"] by auto
  have d: "digits_val 0 False (snd (signed x)) = None" if "CHR ''s'' \<in> set x" for x
    using that by (intro digits_none[OF _ no_digit_s]) (auto simp: signed_def split: list.split)
  have "u \<noteq> ''inf''" "u \<noteq> ''infinity''" "u \<noteq> ''nan''" using u by auto
  moreover have "(case split_on (CHR ''e'') u of
            [m] \<Rightarrow> (case mantissa_of m of Some q \<Rightarrow> Inr (f q) | None \<Rightarrow> Inl ValueError)
          | [m, x] \<Rightarrow> (case signed x of (xn, xd) \<Rightarrow> case (mantissa_of m, digits_val 0 False xd) of
               (Some q, Some k) \<Rightarrow> Inr (g xn q k) | _ \<Rightarrow> Inl ValueError)
          | _ \<Rightarrow> Inl ValueError) = Inl ValueError" for f :: "rat \<Rightarrow> flt" and g
    using p mantissa_none[of p] d[of p] by (auto split: list.split option.split prod.split)
  ultimately show ?thesis using s by (simp add: float_of_string_def Let_def)
qed

lemma words_chars: "w \<in> set (py_words v t) \<Longrightarrow> set w \<subseteq> set v \<union> set t"
  by (induction v t rule: py_words.induct) (fastforce split: if_splits)+

lemma drop_member: "x \<in> set t \<Longrightarrow> \<not> P x \<Longrightarrow> x \<in> set (dropWhile P t)"
  by (induction t) auto

lemma strip_member: "x \<in> set t \<Longrightarrow> \<not> is_blank x \<Longrightarrow> x \<in> set (strip t)"
  by (simp add: strip_def drop_member)

lemma static_no_depth:
  assumes "''S'' \<in> set (py_split args)"
  shows "cast_depth args = None"
proof -
  have "CHR ''S'' \<in> set args" using words_chars assms by (fastforce simp: py_split_def)
  moreover have "\<not> is_blank (CHR ''S'')" "to_lower (CHR ''S'') = CHR ''s''" by code_simp+
  ultimately have "CHR ''s'' \<in> set (map to_lower (strip args))" using strip_member by force
  from float_none[OF this] \<open>CHR ''S'' \<in> set args\<close> show ?thesis by (auto simp: cast_depth_def)
qed

section \<open>Properties\<close>


lemma idle_catching: "idle m \<Longrightarrow> (\<And>e. idle (h e)) \<Longrightarrow> idle (catching m h)"
  by (auto simp: idle_def catching_def split: prod.splits sum.splits)

lemma idle_asked: "idle (line_of io a d l)"
  by (cases a) (simp_all add: line_of_def ask_status_def)

lemma idle_menu:
  "idle (enter io b)" "idle (enter_winch io)" "idle (do_sched io a)" "idle (status_all io)" "idle (report_all io n a)"
  "idle (shutdown_named io a)" "idle (plain_line io a)" "idle (lisst_line io a)" "idle (isco_line io a)"
  by (simp_all add: enter_def enter_winch_def do_sched_def ask_status_def status_all_def report_all_def shutdown_named_def
      plain_line_def lisst_line_def isco_line_def idle_asked Let_def idle_bnd idle_catching split: list.split)

lemma menu_idle: "idle_commands leaving (main_commands io)"
  by (simp add: main_commands_def leaving_def idle_menu)

lemma main_words:
  "dget (main_commands io) ''exit'' = Some (\<lambda>a. exit_menu)" "dget (main_commands io) ''quit'' = Some do_exit"
  "dget (main_commands io) ''x'' = Some do_exit"
  by (simp_all add: main_commands_def dget_def)

text \<open>
  The menu is left by \<open>quit\<close> and \<open>x\<close> at once, by \<open>exit\<close> if the line behind it is an x, and by no other line, in
  particular not by leaving one of the consoles.
\<close>

theorem menu_left_by:
  "(\<exists>v t. main_line io line s = (Inr v, t) \<and> truthy v) \<longleftrightarrow>
   (\<exists>c a. parse_line line = Some (c, a) \<and>
      (c = ''quit'' \<or> c = ''x'' \<or> c = ''exit'' \<and> (\<exists>l ls. dk_lines s = l # ls \<and> map to_lower l = ''x'')))"
proof (cases "avoids leaving line")
  case True
  then have "\<not> (\<exists>v t. main_line io line s = (Inr v, t) \<and> truthy v)"
    using idle_one[OF menu_idle, of io line s] by (auto simp: main_line_def)
  with True show ?thesis by (auto simp: avoids_def leaving_def)
next
  case False
  then obtain c a where c: "parse_line line = Some (c, a)" "c = ''exit'' \<or> c = ''quit'' \<or> c = ''x''"
    by (auto simp: avoids_def leaving_def split: option.splits)
  have "(\<exists>v t. exit_menu s = (Inr v, t) \<and> truthy v) \<longleftrightarrow> (\<exists>l ls. dk_lines s = l # ls \<and> map to_lower l = ''x'')"
    by (cases "dk_lines s") (auto simp: exit_menu_def bnd_def next_line_def ret_def)
  then show ?thesis using c by (auto simp: main_line_def one_cmd_def main_words do_exit_def ret_def)
qed

text \<open>
  C38. A static cast can only be started with \<open>castl\<close>: a line for \<open>cast\<close> that is read as a static cast starts nothing,
  whatever depth and time it names, while \<open>castl\<close> starts a cast with the particle sizer for that time to that depth,
  which ends at the bottom.
\<close>

theorem static_cast_line:
  assumes "read_line (py_split args) = Static_cast time"
  shows "plain_line io args s = (Inr PNone, s) \<and>
    (\<forall>q. cast_depth (hd (py_split args)) = Some q \<longrightarrow>
      (\<exists>c. lisst_line io args s = quietly (at_cast (start_cast (di_cast io) (di_kc io))) (s\<lparr>dk_cast := Some c\<rparr>) \<and>
        \<not> cs_profile c \<and> cs_sample_time c = time \<and> cs_park_pos c = ''bottom'' \<and> cs_lisst c = Lisst_yes \<and> \<not> cs_isco c \<and>
        cs_depth_target c = q \<and> cs_abort c = []))"
proof -
  obtain d ts where w: "py_split args = d # ''S'' # ts"
    using assms by (auto simp: read_line_def split: list.splits if_splits)
  have "cast_depth args = None" using static_no_depth w by simp
  then have "plain_line io args s = (Inr PNone, s)"
    using assms by (simp add: plain_line_def line_of_def Let_def start_line_def quietly_def) (simp add: ret_def)
  moreover have "\<exists>c. lisst_line io args s = quietly (at_cast (start_cast (di_cast io) (di_kc io))) (s\<lparr>dk_cast := Some c\<rparr>) \<and>
        \<not> cs_profile c \<and> cs_sample_time c = time \<and> cs_park_pos c = ''bottom'' \<and> cs_lisst c = Lisst_yes \<and> \<not> cs_isco c \<and>
        cs_depth_target c = q \<and> cs_abort c = []" if q: "cast_depth d = Some q" for q
  proof -
    let ?l = "\<lparr>cl_depth = d, cl_lisst = True, cl_static = Some time, cl_bottle = None\<rparr>"
    obtain c0 where c0: "dk_cast (ensure_cast (di_now io) s) = Some c0" "ensure_cast (di_now io) s = s\<lparr>dk_cast := Some c0\<rparr>"
      by (cases "dk_cast s") (auto simp: ensure_cast_def)
    let ?c0 = "c0\<lparr>cs_fleet := dk_fleet s, cs_cfg := dk_cfg s\<rparr>"
    obtain c where c: "configure_line io ?l q ?c0 = (Inr (), c)" "cs_fleet c = dk_fleet s" "cs_cfg c = dk_cfg s"
        "\<not> cs_profile c" "cs_sample_time c = time" "cs_park_pos c = ''bottom''" "cs_lisst c = Lisst_yes" "\<not> cs_isco c"
        "cs_depth_target c = q" "cs_abort c = []"
      by (simp add: configure_line_def pre_config_def line_request_def Let_def bnd_def modify_def ret_def)
    have same: "c\<lparr>cs_fleet := dk_fleet s, cs_cfg := dk_cfg s\<rparr> = c" using c(2,3) by (cases c) simp
    obtain r c1 where run: "start_cast (di_cast io) (di_kc io) c = (r, c1)" by (cases "start_cast (di_cast io) (di_kc io) c")
    have "at_cast (bnd (configure_line io ?l q) (\<lambda>_. start_cast (di_cast io) (di_kc io))) (s\<lparr>dk_cast := Some c0\<rparr>) =
        at_cast (start_cast (di_cast io) (di_kc io)) (s\<lparr>dk_cast := Some c\<rparr>)"
      using c(1) by (simp add: at_cast_def bnd_def same run)
    moreover have "lisst_line io args s = quietly (start_line io ?l) s"
      using assms w by (simp add: lisst_line_def line_of_def)
    moreover have "quietly (quietly m) = quietly m" for m :: "('a desk, 'b) act"
      by (simp add: quietly_def bnd_assoc)
    ultimately have "lisst_line io args s = quietly (at_cast (start_cast (di_cast io) (di_kc io))) (s\<lparr>dk_cast := Some c\<rparr>)"
      using q c0(2) by (simp add: start_line_def quietly_def bnd_assoc) (simp add: bnd_def modify_def)
    then show ?thesis using c by blast
  qed
  ultimately show ?thesis using w by simp
qed

text \<open>
  A report of the GPS ends the menu with an exception once its console has been opened, and so does shutting its broker
  down; one of the sounder is refused unless the console of the sonde is open.
\<close>

lemma no_gps_console: "console_do io cmd args ''GPS'' s = (Inl AttributeError, s)" if "''GPS'' \<notin> set (dk_open s)"
  using that by (simp add: console_do_def bnd_def peek_def fail_def)

theorem gps_report_raises:
  assumes "''GPS'' \<notin> set (dk_open s)" "''gps'' \<in> set (dk_open s)"
  shows "report_all io cmd ''gps'' s = (Inl AttributeError, s) \<and> shutdown_named io ''gps'' s = (Inl AttributeError, s)"
proof -
  have "py_split ''gps'' = [''gps'']" by code_simp
  then show ?thesis
    using assms no_gps_console[OF assms(1), of io]
    by (simp add: report_all_def shutdown_named_def menu_names_def report_words_def shutdown_words_def asked_console_def
        quietly_def bnd_def peek_def ret_def only_if_def)
qed

section \<open>Witnesses\<close>

definition demo_menu :: "pyval list desk_io" where
  "demo_menu =
     (let wk = demo_at script_rpc; con = wk_con wk
      in \<lparr>di_con = (\<lambda>b. con), di_sonde = \<lparr>so_con = con, so_cfg = wc_sonde demo_winch, so_times = wk_cal wk\<rparr>,
          di_geo = (\<lambda>lat lon. Inr ()), di_lisst = \<lparr>li_con = con, li_cfg = kc_lisst demo_kc, li_latency = 0\<rparr>,
          di_isco = \<lparr>is_con = con, is_bottles = 24, is_size = 1000\<rparr>,
          di_aio = \<lparr>ao_con = con, ao_devices = [], ao_aliases = None, ao_relay_on = PInt 0, ao_relay_off = PInt 1\<rparr>,
          di_winch = wk, di_startup = (\<lambda>b s. (None, s)), di_now = 0, di_poll = False, di_select = Inl ValueError,
          di_select_cast = Inl ValueError, di_cast = demo_cast_io, di_kc = demo_kc, di_debug = False\<rparr>)"

definition demo_desk :: "string list \<Rightarrow> pyval list desk" where
  "demo_desk ls =
     \<lparr>dk_fleet = demo_fleet, dk_power = demo_broker, dk_wind = demo_broker, dk_cfg = demo_winch, dk_threads = [], dk_devices = [],
      dk_brokers = [''aio''], dk_open = [''aio''], dk_lines = ls,
      dk_status = \<lparr>st_state = ''on'', st_cast_status = ''done'', st_change_time = None, st_resume = 0, st_pause = seconds 3600\<rparr>,
      dk_rows = [], dk_cast = None\<rparr>"


theorem static_cast_line_witness:
  "plain_line demo_menu ''5 S 60'' (demo_desk []) = (Inr PNone, demo_desk []) \<and>
   (\<exists>c. lisst_line demo_menu ''5 S 60'' (demo_desk []) =
      quietly (at_cast (start_cast demo_cast_io demo_kc)) ((demo_desk [])\<lparr>dk_cast := Some c\<rparr>) \<and>
      cs_sample_time c = Fin 60 \<and> cs_depth_target c = 5)"
proof -
  have "read_line (py_split ''5 S 60'') = Static_cast (Fin 60)" "cast_depth (hd (py_split ''5 S 60'')) = Some 5" by code_simp+
  moreover have "di_cast demo_menu = demo_cast_io" "di_kc demo_menu = demo_kc" by (simp_all add: demo_menu_def Let_def)
  ultimately show ?thesis using static_cast_line[of "''5 S 60''" "Fin 60" demo_menu "demo_desk []"] by fastforce
qed

theorem gps_report_raises_witness:
  "report_all demo_menu ''report'' ''gps'' ((demo_desk [])\<lparr>dk_open := [''aio'', ''gps'']\<rparr>) =
     (Inl AttributeError, (demo_desk [])\<lparr>dk_open := [''aio'', ''gps'']\<rparr>)"
proof -
  have "''GPS'' \<notin> set (dk_open ((demo_desk [])\<lparr>dk_open := [''aio'', ''gps'']\<rparr>))"
    "''gps'' \<in> set (dk_open ((demo_desk [])\<lparr>dk_open := [''aio'', ''gps'']\<rparr>))" by simp_all
  from gps_report_raises[OF this, of demo_menu "''report''"] show ?thesis by blast
qed

end
