(* ===== verification/Constants.thy ===== *)
theory Constants
  imports Client Winch Samplers Sched Battery
begin

text \<open>
  The constants that the programs read from the configuration file: \<open>load_config\<close> of the winch
  (src/python/avp_winch.py) and of the clients (src/python/avp_broker.py), those of a cast (src/python/avp_cast.py) and of
  the scheduler (src/python/avp_sched.py). The file is a dictionary of sections, its values are texts. The records of
  constants of the other theories are what is built here.
\<close>

section \<open>Sections\<close>

definition read_int :: "pyval dict \<Rightarrow> string \<Rightarrow> int \<Rightarrow> int res" where
  "read_int sec k d = py_int (dget_or sec k (PInt d))"

definition read_real :: "pyval dict \<Rightarrow> string \<Rightarrow> rat \<Rightarrow> rat res" where
  "read_real sec k d = py_float (dget_or sec k (PFloat d))"

section \<open>The winch\<close>

text \<open>The float \<open>math.pi\<close>, exactly.\<close>

definition pi_float :: rat where
  "pi_float = 884279719003555 / 281474976710656"

definition per_meter :: "int \<Rightarrow> rat \<Rightarrow> rat res" where
  "per_meter clicks drum = (if drum = 0 then Inl ZeroDivisionError else Inr (of_int clicks / (drum * pi_float)))"

text \<open>
  What of the constants of the winch only a cast uses, and the positions of the waterline. The table of limits is read by
  the constructor, right after the constants.
\<close>

record reach =
  re_cal_position :: int
  re_cable :: rat
  re_waterlines :: "int list"

definition load_speeds :: "pyval dict \<Rightarrow> winch_cfg \<Rightarrow> winch_cfg res" where
  "load_speeds sec cfg =
     res_bind (read_int sec ''POSITION_DB'' 100) (\<lambda>db.
     res_bind (read_int sec ''SLOW_SPEED'' 5) (\<lambda>slow.
     res_bind (read_int sec ''MED_SPEED'' 10) (\<lambda>med.
     res_bind (read_int sec ''FAST_SPEED'' 15) (\<lambda>fast.
     res_bind (read_int sec ''SLOWDOWN_POSITION'' 80000) (\<lambda>down.
       Inr (cfg\<lparr>wc_position_db := db, wc_slow := slow, wc_med := med, wc_fast := fast, wc_slowdown_position := down\<rparr>))))))"

definition load_drum :: "pyval dict \<Rightarrow> winch_cfg \<Rightarrow> winch_cfg res" where
  "load_drum sec cfg =
     res_bind (read_int sec ''CLICKS_PER_REVOLUTION'' 320000) (\<lambda>clicks.
     res_bind (read_real sec ''DRUM_DIAMETER'' (32 / 100)) (\<lambda>drum.
     res_bind (per_meter clicks drum) (\<lambda>k.
       Inr (cfg\<lparr>wc_clicks_per_rev := clicks, wc_clicks_per_meter := k\<rparr>))))"

definition load_winch :: "pyval dict \<Rightarrow> winch_cfg \<Rightarrow> (winch_cfg \<times> reach) res" where
  "load_winch conf cfg =
     res_bind (config_part conf ''winch'') (\<lambda>sec.
     res_bind (load_speeds sec cfg) (\<lambda>c1.
     res_bind (read_int sec ''CAL_POSITION'' 5000) (\<lambda>cal.
     res_bind (read_int sec ''wl_position'' 49000) (\<lambda>wl.
     res_bind (read_int sec ''wl_press_position'' 48000) (\<lambda>wp.
     res_bind (read_int sec ''wl_cond_position'' 35000) (\<lambda>wc.
     res_bind (read_real sec ''MAX_CAST_DEPTH'' (1 / 2)) (\<lambda>deep.
     res_bind (read_real sec ''SLOWDOWN_DEPTH'' (2 / 100)) (\<lambda>slowdown.
     res_bind (read_real sec ''CABLE_LENGTH'' 12) (\<lambda>cable.
     res_bind (read_int sec ''ZERO_POS_MAX_ERROR'' 10000) (\<lambda>err.
     res_bind (load_drum sec (c1\<lparr>wc_max_depth := deep\<rparr>)) (\<lambda>c2.
       Inr (c2\<lparr>wc_amps := get_amps_limits (dget_or sec ''amps'' (PDict []))\<rparr>,
            \<lparr>re_cal_position = cal, re_cable = cable, re_waterlines = [wl, wp, wc]\<rparr>))))))))))))"

section \<open>The clients\<close>

text \<open>
  The defaults of a class are overwritten by the constants of its section, whatever their kind; a client whose constants
  have another kind than the code computes with is None here.
\<close>

definition whole_constant :: "settings \<Rightarrow> string \<Rightarrow> int option" where
  "whole_constant st k = (case dget (st_constants st) k of Some (PInt i) \<Rightarrow> Some i | _ \<Rightarrow> None)"

definition real_constant :: "settings \<Rightarrow> string \<Rightarrow> rat option" where
  "real_constant st k = (case dget (st_constants st) k of Some (PInt i) \<Rightarrow> Some (of_int i) | Some (PFloat q) \<Rightarrow> Some q | _ \<Rightarrow> None)"

definition sonde_defaults :: "pyval dict" where
  "sonde_defaults =
     [(''SAMPLE_TIMEOUT'', PInt 40), (''WIPE_TIMEOUT'', PInt 120), (''INSTRUMENT_OFFSET'', PFloat (254 / 1000)),
      (''BOTTOM_OFFSET'', PFloat (2 / 10)), (''inwater_cond'', PFloat 3), (''INWATER_DEPTH'', PFloat (1 / 100)),
      (''SONDE_STARTUP_TIME'', PFloat 5), (''PRESSURE_ERROR'', PFloat (4 / 1000))]"

definition load_sonde :: "settings \<Rightarrow> sonde_cfg option" where
  "load_sonde st0 =
     (let st = with_defaults sonde_defaults st0
      in case (whole_constant st ''SAMPLE_TIMEOUT'', whole_constant st ''WIPE_TIMEOUT'', real_constant st ''inwater_cond'',
               real_constant st ''INWATER_DEPTH'', real_constant st ''PRESSURE_ERROR'') of
           (Some a, Some b, Some c, Some d, Some e) \<Rightarrow>
             Some \<lparr>sc_sample_timeout = a, sc_wipe_timeout = b, sc_inwater_cond = c, sc_inwater_depth = d, sc_pressure_error = e\<rparr>
         | _ \<Rightarrow> None)"

definition mm3_defaults :: "pyval dict" where
  "mm3_defaults = [(''AMPS_LIMIT'', PInt 3500), (''DEFAULT_SPEED'', PInt 5), (''MIN_SPEED'', PInt 1)]"

definition load_mm3 :: "string \<Rightarrow> pyval dict \<Rightarrow> settings \<Rightarrow> (mm3_cfg \<times> int) option" where
  "load_mm3 program registers st0 =
     (let st = with_defaults mm3_defaults st0
      in case (whole_constant st ''AMPS_LIMIT'', whole_constant st ''DEFAULT_SPEED'', whole_constant st ''MIN_SPEED'') of
           (Some a, Some d, Some m) \<Rightarrow>
             Some (\<lparr>mc_amps_limit = a, mc_default_speed = d, mc_defaults = registers, mc_program = program\<rparr>, m)
         | _ \<Rightarrow> None)"

definition lisst_defaults :: "pyval dict" where
  "lisst_defaults =
     [(''SAMPLE_LATENCY'', PInt 0), (''FLUSH_TIME'', PInt 5), (''ZERO_TIME'', PInt 10), (''ZERO_FLUSH_DELAY'', PInt 3),
      (''FILE_TIMEOUT'', PInt 20), (''WATER_LEVEL_MIN'', PFloat 0), (''WATER_LEVEL_WARN'', PFloat 10)]"

definition load_lisst :: "string \<Rightarrow> settings \<Rightarrow> lisst_cfg option" where
  "load_lisst program st0 =
     (let st = with_defaults lisst_defaults st0
      in case (real_constant st ''FLUSH_TIME'', whole_constant st ''FILE_TIMEOUT'') of
           (Some f, Some t) \<Rightarrow> Some \<lparr>lc_flush_time = f, lc_max_flush = 60, lc_file_timeout = t, lc_program = program\<rparr>
         | _ \<Rightarrow> None)"

definition isco_defaults :: "pyval dict" where
  "isco_defaults = [(''BOTTLE_SIZE'', PInt 1000), (''NUM_BOTTLES'', PInt 24), (''SAMPLE_TIMEOUT'', PInt 24)]"

section \<open>Casts and the scheduler\<close>

text \<open>The four constants of a cast; the last is the error of the depth that is allowed.\<close>

definition load_cast :: "pyval dict \<Rightarrow> rat list res" where
  "load_cast conf =
     res_bind (config_part conf ''cast'') (\<lambda>sec.
       res_map (\<lambda>(k, d). read_real sec k d)
         [(''PRE_CAST_DELAY'', 0), (''POST_CAST_DELAY'', 0), (''LISST_START_OFFSET'', 0), (''MAX_TARGET_ERROR'', 1 / 10)])"

definition load_sched :: "pyval dict \<Rightarrow> sched_cfg res" where
  "load_sched conf =
     res_bind (config_part conf ''scheduler'') (\<lambda>sec.
     res_bind (read_int sec ''SCHED_OFF_NOTIFICATION_FREQ'' 4) (\<lambda>off.
     res_bind (read_int sec ''PRE_CAST_SETUP_TIME'' 180) (\<lambda>setup.
     res_bind (read_int sec ''MAX_SCHEDULED_TIME'' (60 * 60)) (\<lambda>most.
       Inr \<lparr>cf_setup = seconds setup, cf_max_scheduled = seconds most, cf_off_freq = seconds (3600 * off)\<rparr>))))"

definition load_pause :: "pyval dict \<Rightarrow> timespan res" where
  "load_pause conf =
     res_bind (config_part conf ''scheduler'') (\<lambda>sec. res_bind (read_int sec ''PAUSE_MINUTES'' 60) (\<lambda>m. Inr (seconds (60 * m))))"

section \<open>What has been loaded\<close>

lemma pi_positive: "0 < pi_float"
  by (simp add: pi_float_def)

lemma load_winch_drum:
  assumes "load_winch conf cfg = Inr (w, r)"
  obtains sec clicks drum where "config_part conf ''winch'' = Inr sec" "read_int sec ''CLICKS_PER_REVOLUTION'' 320000 = Inr clicks"
    "read_real sec ''DRUM_DIAMETER'' (32 / 100) = Inr drum" "drum \<noteq> 0" "wc_clicks_per_meter w = of_int clicks / (drum * pi_float)"
    "wc_amps w = get_amps_limits (dget_or sec ''amps'' (PDict []))"
  using assms by (auto simp: load_winch_def load_drum_def per_meter_def res_bind_Inr_conv split: if_splits)

text \<open>
  Whatever the configuration file says, if the winch can load it and both the clicks per revolution and the diameter of
  the drum are positive, then a distance is turned into clicks that do not pass it and end less than a click before it. A
  drum without a diameter is refused.
\<close>

theorem loaded_winch_measures:
  assumes "load_winch conf cfg = Inr (w, r)" "config_part conf ''winch'' = Inr sec"
    and "read_int sec ''CLICKS_PER_REVOLUTION'' 320000 = Inr clicks" "0 < clicks"
    and "read_real sec ''DRUM_DIAMETER'' (32 / 100) = Inr drum" "0 < drum" and "0 \<le> m"
  shows "clicks_to_meters w (meters_to_clicks w m) \<le> m \<and>
    m < clicks_to_meters w (meters_to_clicks w m) + drum * pi_float / of_int clicks"
proof -
  have k: "wc_clicks_per_meter w = of_int clicks / (drum * pi_float)"
    using load_winch_drum[OF assms(1)] assms(2,3,5) by (metis sum.inject(2))
  then have "0 < wc_clicks_per_meter w" "1 / wc_clicks_per_meter w = drum * pi_float / of_int clicks"
    using assms(4,6) pi_positive by simp_all
  with clicks_bounds[OF this(1) assms(7)] show ?thesis by simp
qed

theorem drum_needs_diameter:
  assumes "config_part conf ''winch'' = Inr sec" "read_real sec ''DRUM_DIAMETER'' (32 / 100) = Inr 0"
  shows "\<exists>e. load_winch conf cfg = Inl e"
proof (cases "load_winch conf cfg")
  case (Inr w)
  then obtain c r where "load_winch conf cfg = Inr (c, r)" by (cases w) simp
  then show ?thesis using load_winch_drum assms by (metis sum.inject(2))
qed simp

text \<open>
  A table of limits that has been loaded holds one for each direction, medium and kind of speed, so that a move at one of
  the three speeds of the configuration always finds its limit.
\<close>

lemma amp_table_keys: "amp_table conf ks = Some t \<Longrightarrow> map fst t = ks"
  by (induction ks arbitrary: t) (auto split: sum.splits option.splits)

theorem speeds_have_limits:
  assumes "load_winch conf cfg = Inr (w, r)" "wc_amps w = Some t" "v = wc_slow w \<or> v = wc_med w \<or> v = wc_fast w"
  shows "\<exists>a. lookup_amps w v up wet = [(''result'', PInt a)]"
proof -
  obtain sec where "get_amps_limits (dget_or sec ''amps'' (PDict [])) = Some t"
    using load_winch_drum[OF assms(1)] assms(2) by metis
  then have k: "map fst t = amp_keys" using amp_table_keys by (simp add: get_amps_limits_def)
  have "\<exists>s \<in> {''high'', ''med'', ''low''}. speed_type w v = Some s" using assms(3) by (auto simp: speed_type_def)
  then obtain s where s: "speed_type w v = Some s" "s \<in> {''high'', ''med'', ''low''}" by blast
  have "(if up then ''up'' else ''down'', if wet then ''in'' else ''out'', s) \<in> set amp_keys" using s(2) by (auto simp: amp_keys_def)
  then have "map_of t (if up then ''up'' else ''down'', if wet then ''in'' else ''out'', s) \<noteq> None"
    using k by (metis list.set_map map_of_eq_None_iff)
  then show ?thesis using s(1) assms(2) by (auto simp: lookup_amps_def)
qed

text \<open>Without a section the constants are those the other theories have as examples.\<close>

lemma defaults_loaded:
  "load_sonde no_settings = Some default_sonde" "load_mm3 ''avp'' [] no_settings = Some (default_cfg, 1)"
  "load_lisst ''avp_broker'' no_settings = Some default_lisst" "load_cast [] = Inr [0, 0, 0, 1 / 10]"
  by code_simp+

text \<open>The section of the winch in src/python/avp.ini.\<close>

definition shipped_winch :: "pyval dict" where
  "shipped_winch =
     [(''winch'', PDict [(''CAL_POSITION'', PStr ''5000''), (''MAX_CAST_DEPTH'', PStr ''3.9''), (''CABLE_LENGTH'', PStr ''12.0''),
        (''DRUM_DIAMETER'', PStr ''0.32''), (''CLICKS_PER_REVOLUTION'', PStr ''64000''), (''SLOW_SPEED'', PStr ''5''),
        (''MED_SPEED'', PStr ''6''), (''FAST_SPEED'', PStr ''35''),
        (''amps'', PDict [(''up'', PDict [(''in'', PDict [(''high'', PStr ''3500''), (''med'', PStr ''1500''), (''low'', PStr ''1400'')]),
            (''out'', PDict [(''high'', PStr ''3500''), (''med'', PStr ''3300''), (''low'', PStr ''1800'')])]),
          (''down'', PDict [(''in'', PDict [(''high'', PStr ''1900''), (''med'', PStr ''950''), (''low'', PStr ''1000'')]),
            (''out'', PDict [(''high'', PStr ''1800''), (''med'', PStr ''1000''), (''low'', PStr ''900'')])])])])]"

theorem loaded_winch_measures_witness:
  "\<exists>w r. load_winch shipped_winch demo_winch = Inr (w, r) \<and> clicks_to_meters w (meters_to_clicks w 3) \<le> 3 \<and>
     lookup_amps w 6 False True = [(''result'', PInt 950)]"
proof -
  have l: "case load_winch shipped_winch demo_winch of Inl e \<Rightarrow> False | Inr (w, r) \<Rightarrow> lookup_amps w 6 False True = [(''result'', PInt 950)]"
    by code_simp
  then obtain w r where w: "load_winch shipped_winch demo_winch = Inr (w, r)" "lookup_amps w 6 False True = [(''result'', PInt 950)]"
    by (auto split: sum.splits)
  obtain sec where s: "config_part shipped_winch ''winch'' = Inr sec" by (rule load_winch_drum[OF w(1)])
  moreover have "case config_part shipped_winch ''winch'' of Inl e \<Rightarrow> False | Inr sec \<Rightarrow>
      read_int sec ''CLICKS_PER_REVOLUTION'' 320000 = Inr 64000 \<and> read_real sec ''DRUM_DIAMETER'' (32 / 100) = Inr (32 / 100)"
    by code_simp
  ultimately have "read_int sec ''CLICKS_PER_REVOLUTION'' 320000 = Inr 64000" "read_real sec ''DRUM_DIAMETER'' (32 / 100) = Inr (32 / 100)"
    by simp_all
  from loaded_winch_measures[OF w(1) s this(1) _ this(2), of 3] w show ?thesis by auto
qed

end
