(* ===== verification/Spec2Isabelle.thy ===== *)
theory Spec2Isabelle
  imports Procedure Watchdog Notify Client Panel Transect MainConsole Constants
begin

text \<open>
  The control programs of an autonomous vertical profiler: a winch on a platform lowers a sonde
  (and other instruments) through the water column on a schedule, and stores what it measures.
  Every instrument, the motor controller of the winch and a board of relays are served by a broker,
  a process of its own; the programs modelled here are clients of the brokers. All sources are in
  src/python.

  \<^bold>\<open>How the parts work together.\<close> The scheduler (avp_sched.py, \<open>_AVPSchedule\<close>) reads a table of
  crontab lines and fills two shared dictionaries, the launcher (\<open>AVPLauncher\<close>) takes what is due
  out of them, orders it and starts a cast (avp_cast.py, \<open>Cast\<close>) for every entry. A cast sets up
  the clients (avp_broker.py), takes their tokens, computes the depth, moves the sonde with the
  winch (avp_winch.py, \<open>Winch\<close>) while it watches the move, and finishes. A client talks JSON-RPC
  with its broker over a socket on which replies and notifications arrive; values are cached in
  data items, which subscriptions keep current. Beside the scheduler runs the supervisor (supervisor.py): it
  starts the brokers and the other programs when their processes are missing, connects its own
  clients, sums up the current of the batteries (avp_power.py), pauses the schedule or switches the
  system off when the voltage is low, and has its warnings mailed out of the log (notification.py), which
  is a table of the database (avp_db.py). On the platform itself a display with two buttons shows a menu
  (Local_Interface.py, avp_LCD.py) that moves the motor, pauses the schedule and shuts the system down. The
  second installation samples from a ferry (FerryMon/avp_data_ctl.py): a loop follows the position of the
  ship and starts and finishes transects, which are casts without a winch but with a valve of water. A person
  works on all of them from a console (avp_console.py), which has a menu of consoles for the instruments, each the user of
  one client.

  \<^bold>\<open>Theories.\<close>
  \<^item> Prelude: values of the programs (\<open>pyval\<close>), dictionaries, exceptions, decimal numerals.
  \<^item> Calendar: datetime and timedelta as counts of microseconds.
  \<^item> Cron: the fields of a crontab line and the search for the next date (\<open>CronTime\<close>).
  \<^item> Sched: the scheduler thread; entry dictionaries shared between \<open>pending\<close>, \<open>ready\<close> and
    \<open>schedule\<close> are addresses into a heap.
  \<^item> Launcher: the schedule switch, one turn of the launcher, the order of casts, \<open>do_cast\<close>.
  \<^item> Util: avp_util.py: conversions, time stamps, \<open>traverse_tree\<close>, the context of clients.
  \<^item> Rpc: \<open>_SocketHandler\<close>: calls, replies by id, notifications, time-outs, reconnecting.
  \<^item> Broker: \<open>_BrokerClient\<close> and \<open>_DataItem\<close>: calls, token, parameters, reading, writing,
    subscriptions, notifications.
  \<^item> Client: constants and construction of a client, its aliases, and what holds of every client in use
    (\<open>lives\<close>).
  \<^item> Effects: operations that change a state and may raise, in sequence; the locale \<open>kept\<close>, by which
    a reflexive and transitive relation is carried through every operation. Frame: what the operations of a
    client leave as it was.
  \<^item> Trace: which calls an operation can send; three interpretations of \<open>kept\<close> rest on it.
  \<^item> Mm3, Sonde, Samplers: the clients of the motor controller, the sonde, the water sampler, the
    particle sizer and the anemometer.
  \<^item> Constants: \<open>load_config\<close> of the winch and of the clients, and what the cast and the scheduler read from the
    configuration file; it builds the records of constants of the other theories.
  \<^item> Monitor: the loop that watches a move. Winch: moves, parking, calibration.
  \<^item> Cast: the phases of a cast. Procedure: what holds of the whole cast.
  \<^item> Database: avp_db.py: building of statements, insertion through a buffer, update, delete, select.
  \<^item> Battery: avp_power.py: amp-hours and averages from samples.
  \<^item> Supervisor: the checks of supervisor.py on heading, power, computer and programs.
  \<^item> Watchdog: the rest of supervisor.py: position, processes of the brokers, connections, main loop.
  \<^item> Notify: notification.py: the thread that mails warnings.
  \<^item> Lcd: avp_LCD.py: the lines of the display. Panel: Local_Interface.py: buttons, menu, and the threads
    behind them as one step relation; two interpretations of the locale \<open>panel_rel\<close> give what every step keeps.
  \<^item> Transect: FerryMon/avp_data_ctl.py: transects and the loop that follows the position; the locale
    \<open>transect_rel\<close>, interpreted five times, gives what every phase keeps.
  \<^item> Console: avp_console.py: lines, token, values, reports and the commands that all consoles of
    instruments have. Instruments: the consoles of the instruments and of the relays. Session: what holds of
    any session at them. WinchConsole: the console of the winch. MainConsole: the main menu, lines that one console passes
    to another, and casts started by hand.

  \<^bold>\<open>State and operations.\<close> An object is a record whose fields are its attributes: \<open>broker\<close> is a
  client, \<open>data_item\<close> a cached value, \<open>boat\<close> the winch with the clients it drives, \<open>fleet\<close> and \<open>cast\<close>
  the cast with all of them, \<open>super\<close> the supervisor's clients, \<open>desk\<close> the menu of the console with all clients, \<open>avp_db\<close> a table of the database, \<open>sched\<close> the dictionaries of the scheduler. A method is a definition of
  its name (suffixed where the library has the name) that takes the state and returns a result,
  which is \<open>Inl\<close> of an exception or \<open>Inr\<close> of a value, and the state after it. What a broker
  answers is a function \<open>rpc_fun\<close> of the request and a world of any type, what other threads do
  meanwhile is an input of the operation: the passes of the watching loop, the events on the socket,
  the state the scheduler has after a cast. The threads of the panel share its state \<open>panel\<close>; each runs from one
  pause to the next, and \<open>panel_step\<close> lets any of them, or an event of a button, go next.

  \<^bold>\<open>What the lemmas show.\<close> Cron: the date found is the earliest that matches. Sched: due rows and
  only those are queued, merged entries are not run twice, turns keep the heap well formed. Launcher:
  order of the depths, parking and wiping in a series. Util: time stamps are read back, the context
  stays consistent. Rpc: a reply belongs to its request, notifications are not lost, calls end. Broker: when the token is taken by force,
  what subscriptions record, which parameters are sent. Mm3, Samplers, Sonde: which calls are sent in which order,
  that a fault stops the motor and a flush closes the valve. Monitor and Winch: when a move is given
  up, how far it goes, that it ends with a stop. Constants: that loaded
  constants measure distances as the moves need it and give a limit of the current for every speed. Procedure: the order of the phases, the counters,
  what an aborted cast still does, how deep it goes. Database: the values of a statement meet their
  placeholders, and what the buffer does not keep. Battery: amp-hours are the sum over the samples, and when the
  sum is wrong. Supervisor: the test of the heading is a distance on the circle, switching off comes
  last. Watchdog: which brokers are started, what checking the connections sends, and, by rule
  induction over the reachable states, that the main loop goes on. Notify: which entries of the log
  are mailed and which never. Panel: by induction over the steps of all threads, that the window of the menu
  stays within the items and which thread may start the motor or end the system; what the display shows; courses
  of events that leave the motor running. Transect: transects go on with the position, numbers grow, and
  the last command the valve gets. Session and WinchConsole: by an interpretation of \<open>kept\<close> over the
  commands, that without a token a session sends nothing but questions; which lines end it; how a line is read as an
  order for the sampler, the relays or the winch. MainConsole: that a session uses up its lines, how the menu is left, and
  which lines start a static cast.

  \<^bold>\<open>Conventions.\<close> Python 3, but for the panel, which only runs with Python 2; where the copies of avp_broker.py
  differ in a guard that Python 3 needs, it is the one of FerryMon. Numbers with a fraction are exact rationals. Dictionaries keep the order of insertion.
  \<open>is\<close> between a value and a literal is equality. The clock is read once in an operation; pauses have no effect of
  their own but let the other threads act. Logging and printing are left out, except that a value
  read for a message is read and that a message that cannot be built raises. Texts of reasons are abbreviated.

  \<^bold>\<open>Bounds.\<close> The search of a cron line gives up after 200 steps as the code does (\<open>max_iters\<close>).
  \<open>unsubscribe\<close> calls itself at most once, two passes suffice. \<open>raise_to_top\<close> tries 11 times as the
  code counts. Loops that wait for an instrument run over the list of instants at which their passes
  happen; if the list ends first the result is the value \<open>endless\<close>, which stands for a loop that goes on
  and is not caught as an exception. The loop of a console makes as many passes as there are lines to read
  (\<open>line_loop\<close>), which MainConsole shows to be enough; a line passed on from console to console gets shorter each time
  (\<open>sub_line\<close>).

  \<^bold>\<open>Not modelled.\<close> Constants of the supervisor and of the addresses of programs (records in the
  model), and constants of a kind that the code does not compute with; daylight saving time; the socket's bytes below whole messages; the server of
  the database, whose answers are inputs (the statements it is sent are built in Database); distances on the globe
  (gislib.py), an input of the check of the position; serial ports, signals and the temperature of the processor in
  supervisor.py; direct sessions with an instrument, help, introductions, completion of words and the switch of the
  socket's messages (\<open>sock\<close>) of the console, and a depth of a cast that is no finite number; the devices of the displays,
  sending of mail and watching of the network, which are input and output; the brokers themselves, Java programs in
  src/javp of which only answers are seen; the geometry of ports and routes of
  the ferry and its copies of the other programs, and the copies of programs under other names; cameras.
\<close>

end
